theory Spec2Isabelle
  imports Complex_Main "HOL-Library.Multiset" "HOL-Library.Product_Lexorder"
begin

section \<open>JavaScript values\<close>

text \<open>
  The pickup module (\<^verbatim>\<open>app/utils/pickup.server.js\<close>) receives its request fields from a
  JSON body, so a field may be absent, null, a boolean, a number or a string. A number is
  an IEEE 754 double: \<open>NaN\<close>, one of the two infinities, or a finite value, held as the
  real number it denotes. The sign of zero is not kept; no test of the module separates
  the two zeros.
\<close>

datatype jsnum = NaN | PInf | NInf | Fin real

datatype jsval = JUndefined | JNull | JBool bool | JNum jsnum | JStr string

text \<open>\<^verbatim>\<open>Number.isFinite\<close> on a number.\<close>

fun isFinite :: "jsnum \<Rightarrow> bool" where
  "isFinite (Fin r) = True"
| "isFinite NaN = False"
| "isFinite PInf = False"
| "isFinite NInf = False"

fun jneg :: "jsnum \<Rightarrow> jsnum" where
  "jneg (Fin r) = Fin (- r)"
| "jneg PInf = NInf"
| "jneg NInf = PInf"
| "jneg NaN = NaN"

text \<open>Truthiness, as \<^verbatim>\<open>!x\<close>, \<^verbatim>\<open>if (x)\<close> and \<^verbatim>\<open>filter(Boolean)\<close> test it.\<close>

fun truthy :: "jsval \<Rightarrow> bool" where
  "truthy JUndefined = False"
| "truthy JNull = False"
| "truthy (JBool b) = b"
| "truthy (JNum (Fin r)) = (r \<noteq> 0)"
| "truthy (JNum NaN) = False"
| "truthy (JNum PInf) = True"
| "truthy (JNum NInf) = True"
| "truthy (JStr s) = (s \<noteq> [])"

subsection \<open>Strings\<close>

text \<open>
  A string is a list of code units below 256. The white space and line terminators that
  \<^verbatim>\<open>String.prototype.trim\<close> and the numeric-string grammar strip are, in that range,
  TAB, LF, VT, FF, CR, SP and NBSP.
\<close>

definition isWhiteSpace :: "char \<Rightarrow> bool" where
  "isWhiteSpace c = ((of_char c :: nat) \<in> {9, 10, 11, 12, 13, 32, 160})"

definition trim :: "string \<Rightarrow> string" where
  "trim s = rev (dropWhile isWhiteSpace (rev (dropWhile isWhiteSpace s)))"

text \<open>The regular-expression class \<^verbatim>\<open>\d\<close>: the ten ASCII digits.\<close>

definition isDigit :: "char \<Rightarrow> bool" where
  "isDigit c = (48 \<le> (of_char c :: nat) \<and> (of_char c :: nat) \<le> 57)"

definition digitVal :: "char \<Rightarrow> nat" where
  "digitVal c = of_char c - 48"

definition digitsVal :: "string \<Rightarrow> nat" where
  "digitsVal s = foldl (\<lambda>n c. 10 * n + digitVal c) 0 s"

text \<open>\<^verbatim>\<open>toLowerCase\<close> on the ASCII letters, which is all a comparison with an ASCII
  literal can depend on.\<close>

definition lowerChar :: "char \<Rightarrow> char" where
  "lowerChar c =
     (case map_of (zip ''ABCDEFGHIJKLMNOPQRSTUVWXYZ'' ''abcdefghijklmnopqrstuvwxyz'') c of
        None \<Rightarrow> c
      | Some l \<Rightarrow> l)"

definition toLowerCase :: "string \<Rightarrow> string" where
  "toLowerCase s = map lowerChar s"

definition startsWith :: "string \<Rightarrow> string \<Rightarrow> bool" where
  "startsWith s p = (take (length p) s = p)"

text \<open>\<^verbatim>\<open>parts.join(", ")\<close>.\<close>

fun join :: "string \<Rightarrow> string list \<Rightarrow> string" where
  "join sep [] = []"
| "join sep [x] = x"
| "join sep (x # y # ys) = x @ sep @ join sep (y # ys)"

subsection \<open>Rounding to a double\<close>

text \<open>
  The Number value of a real: the nearest double, the one with an even significand
  when two are equally near, and an infinity from \<open>2\<^sup>1\<^sup>0\<^sup>2\<^sup>4\<close> on in magnitude (also when
  rounding reaches it). A double is a multiple of \<open>2\<^sup>e\<^sup>-\<^sup>5\<^sup>2\<close>, where \<open>e\<close> is the binade of the
  magnitude: the exponent of the largest power of two below or at it, no less than
  \<open>-1022\<close>, where the subnormal numbers start.
\<close>

definition binade :: "real \<Rightarrow> int" where
  "binade a = (if a < 2 powi (- 1022) then - 1022
               else Max (Set.filter (\<lambda>k. 2 powi k \<le> a) {- 1022 .. 1023}))"

text \<open>Rounding to the nearest integer, to the even one on a tie.\<close>

definition rne :: "real \<Rightarrow> int" where
  "rne m = (let f = \<lfloor>m\<rfloor>; d = m - of_int f
            in if d < 1 / 2 then f else if 1 / 2 < d then f + 1 else if even f then f else f + 1)"

definition fl :: "real \<Rightarrow> jsnum" where
  "fl x =
     (if x = 0 then Fin 0
      else if 2 ^ 1024 \<le> \<bar>x\<bar> then (if 0 < x then PInf else NInf)
      else
        (let q = 2 powi (binade \<bar>x\<bar> - 52);
             v = of_int (rne (\<bar>x\<bar> / q)) * q
         in if 2 ^ 1024 \<le> v then (if 0 < x then PInf else NInf)
            else Fin (if 0 < x then v else - v)))"

subsection \<open>Conversion to a number\<close>

text \<open>
  \<^verbatim>\<open>Number(s)\<close> on a string follows the grammar of numeric strings: surrounding white space
  is dropped, the empty string is 0, a decimal literal may carry a sign, a fraction and an
  exponent, \<^verbatim>\<open>Infinity\<close> may carry a sign, and the prefixes \<^verbatim>\<open>0x\<close>, \<^verbatim>\<open>0o\<close>, \<^verbatim>\<open>0b\<close> (either
  case, unsigned) introduce hexadecimal, octal and binary digits. Anything else is \<open>NaN\<close>.
  The result for a literal is the Number value of the number its digits denote, so
  \<^verbatim>\<open>"1e309"\<close> is \<^verbatim>\<open>Infinity\<close> and \<^verbatim>\<open>"9007199254740993"\<close> is 9007199254740992.
\<close>

definition scale10 :: "real \<Rightarrow> int \<Rightarrow> real" where
  "scale10 x e = (if 0 \<le> e then x * 10 ^ nat e else x / 10 ^ nat (- e))"

text \<open>The optional exponent part: \<^verbatim>\<open>e\<close> or \<^verbatim>\<open>E\<close>, an optional sign, one digit or more.\<close>

definition parseExponent :: "string \<Rightarrow> int option" where
  "parseExponent s =
     (case s of
        [] \<Rightarrow> Some 0
      | c # t \<Rightarrow>
          if c = CHR ''e'' \<or> c = CHR ''E'' then
            (case t of
               [] \<Rightarrow> None
             | d # u \<Rightarrow>
                 if d = CHR ''+'' then
                   (if u \<noteq> [] \<and> list_all isDigit u then Some (int (digitsVal u)) else None)
                 else if d = CHR ''-'' then
                   (if u \<noteq> [] \<and> list_all isDigit u then Some (- int (digitsVal u)) else None)
                 else if list_all isDigit t then Some (int (digitsVal t)) else None)
          else None)"

definition parseUnsignedDecimal :: "string \<Rightarrow> jsnum" where
  "parseUnsignedDecimal s =
     (if s = ''Infinity'' then PInf
      else
        let ip = takeWhile isDigit s;
            r1 = dropWhile isDigit s;
            fp = (case r1 of [] \<Rightarrow> [] | c # t \<Rightarrow> if c = CHR ''.'' then takeWhile isDigit t else []);
            r2 = (case r1 of [] \<Rightarrow> [] | c # t \<Rightarrow> if c = CHR ''.'' then dropWhile isDigit t else r1)
        in if ip = [] \<and> fp = [] then NaN
           else (case parseExponent r2 of
                   None \<Rightarrow> NaN
                 | Some e \<Rightarrow>
                     fl (scale10 (real (digitsVal ip) + real (digitsVal fp) / 10 ^ length fp) e)))"

definition hexVal :: "char \<Rightarrow> nat option" where
  "hexVal c =
     (let n = (of_char c :: nat) in
      if 48 \<le> n \<and> n \<le> 57 then Some (n - 48)
      else if 97 \<le> n \<and> n \<le> 102 then Some (n - 87)
      else if 65 \<le> n \<and> n \<le> 70 then Some (n - 55)
      else None)"

text \<open>Digits in a radix up to 16; \<open>NaN\<close> when the string is empty or holds a character
  that is not a digit of the radix.\<close>

definition parseRadix :: "nat \<Rightarrow> string \<Rightarrow> jsnum" where
  "parseRadix b s =
     (if s \<noteq> [] \<and> list_all (\<lambda>c. case hexVal c of None \<Rightarrow> False | Some d \<Rightarrow> d < b) s
      then fl (real (foldl (\<lambda>n c. b * n + (case hexVal c of None \<Rightarrow> 0 | Some d \<Rightarrow> d)) 0 s))
      else NaN)"

definition StringToNumber :: "string \<Rightarrow> jsnum" where
  "StringToNumber str =
     (let s = trim str in
      case s of
        [] \<Rightarrow> Fin 0
      | c # t \<Rightarrow>
          if c = CHR ''+'' then parseUnsignedDecimal t
          else if c = CHR ''-'' then jneg (parseUnsignedDecimal t)
          else if c = CHR ''0'' \<and> t \<noteq> [] \<and> (hd t = CHR ''x'' \<or> hd t = CHR ''X'') then parseRadix 16 (tl t)
          else if c = CHR ''0'' \<and> t \<noteq> [] \<and> (hd t = CHR ''o'' \<or> hd t = CHR ''O'') then parseRadix 8 (tl t)
          else if c = CHR ''0'' \<and> t \<noteq> [] \<and> (hd t = CHR ''b'' \<or> hd t = CHR ''B'') then parseRadix 2 (tl t)
          else parseUnsignedDecimal s)"

text \<open>\<^verbatim>\<open>Number(a)\<close> on a request value.\<close>

fun Number :: "jsval \<Rightarrow> jsnum" where
  "Number JUndefined = NaN"
| "Number JNull = Fin 0"
| "Number (JBool b) = (if b then Fin 1 else Fin 0)"
| "Number (JNum n) = n"
| "Number (JStr s) = StringToNumber s"

section \<open>Numeric helpers of the module\<close>

text \<open>
  \<^verbatim>\<open>export function numberOr(a, fb) { return Number.isFinite(Number(a)) ? Number(a) : fb; }\<close>
  Both callers pass a finite fallback (the literal 100, or the result of an inner
  \<^verbatim>\<open>numberOr\<close>), so the fallback and the result are reals.
\<close>

definition numberOr :: "jsval \<Rightarrow> real \<Rightarrow> real" where
  "numberOr a fb = (if isFinite (Number a) then (case Number a of Fin r \<Rightarrow> r | _ \<Rightarrow> fb) else fb)"
text \<open>
  Coordinates: \<^verbatim>\<open>{ lat, lng }\<close>, in degrees. Both geocoding services document them as
  finite numbers, and they are the values of doubles here; a coordinate that is not a
  finite number is outside the model.
\<close>

record coords =
  lat :: real
  lng :: real

subsection \<open>Arithmetic\<close>

text \<open>
  The operators \<^verbatim>\<open>+\<close>, \<^verbatim>\<open>*\<close> and \<^verbatim>\<open>/\<close> on numbers. On finite operands the result is the exact
  result rounded by \<open>r\<close>, which is \<open>fl\<close> in a JavaScript engine; the other cases are those
  of IEEE 754. The module divides only by the literals 180 and 2, so the divisor of
  \<open>jdiv\<close> is a positive real.
\<close>

fun jadd :: "(real \<Rightarrow> jsnum) \<Rightarrow> jsnum \<Rightarrow> jsnum \<Rightarrow> jsnum" where
  "jadd r (Fin x) (Fin y) = r (x + y)"
| "jadd r NaN y = NaN"
| "jadd r x NaN = NaN"
| "jadd r PInf NInf = NaN"
| "jadd r NInf PInf = NaN"
| "jadd r PInf y = PInf"
| "jadd r NInf y = NInf"
| "jadd r x PInf = PInf"
| "jadd r x NInf = NInf"

fun jmul :: "(real \<Rightarrow> jsnum) \<Rightarrow> jsnum \<Rightarrow> jsnum \<Rightarrow> jsnum" where
  "jmul r (Fin x) (Fin y) = r (x * y)"
| "jmul r NaN y = NaN"
| "jmul r x NaN = NaN"
| "jmul r (Fin x) PInf = (if x = 0 then NaN else if 0 < x then PInf else NInf)"
| "jmul r (Fin x) NInf = (if x = 0 then NaN else if 0 < x then NInf else PInf)"
| "jmul r PInf (Fin y) = (if y = 0 then NaN else if 0 < y then PInf else NInf)"
| "jmul r NInf (Fin y) = (if y = 0 then NaN else if 0 < y then NInf else PInf)"
| "jmul r PInf PInf = PInf"
| "jmul r PInf NInf = NInf"
| "jmul r NInf PInf = NInf"
| "jmul r NInf NInf = PInf"

fun jdiv :: "(real \<Rightarrow> jsnum) \<Rightarrow> jsnum \<Rightarrow> real \<Rightarrow> jsnum" where
  "jdiv r (Fin x) c = r (x / c)"
| "jdiv r NaN c = NaN"
| "jdiv r PInf c = PInf"
| "jdiv r NInf c = NInf"

text \<open>
  What the engine supplies: the rounding of arithmetic results, the constant \<^verbatim>\<open>Math.PI\<close>,
  and the functions \<^verbatim>\<open>Math.sin\<close>, \<^verbatim>\<open>Math.cos\<close>, \<^verbatim>\<open>Math.sqrt\<close>, \<^verbatim>\<open>Math.asin\<close> and \<^verbatim>\<open>x ** 2\<close> on
  finite arguments. ECMAScript leaves the results of these functions to the
  implementation (an approximation of the mathematical result), so they are parameters.
  With \<open>rnd = fl\<close> the record is an engine computing in doubles; with \<open>rnd = Fin\<close> and the
  real functions it is exact arithmetic.
\<close>

record math =
  rnd :: "real \<Rightarrow> jsnum"
  Math_PI :: real
  Math_sin :: "real \<Rightarrow> real"
  Math_cos :: "real \<Rightarrow> real"
  Math_sqrt :: "real \<Rightarrow> real"
  Math_asin :: "real \<Rightarrow> real"
  Math_pow2 :: "real \<Rightarrow> jsnum"

text \<open>
  The functions on every number, with the cases ECMAScript fixes: the sine and cosine
  of \<open>NaN\<close> or an infinity are \<open>NaN\<close>; the square root of \<open>NaN\<close>, of a negative number or of
  \<open>-\<infinity>\<close> is \<open>NaN\<close>, and that of \<open>+\<infinity>\<close> is \<open>+\<infinity>\<close>; the arc sine of \<open>NaN\<close> or of a
  number above 1 or below \<open>-1\<close> is \<open>NaN\<close>; the square of an infinity is \<open>+\<infinity>\<close>.
\<close>

fun jsin :: "math \<Rightarrow> jsnum \<Rightarrow> jsnum" where
  "jsin m (Fin x) = Fin (Math_sin m x)"
| "jsin m x = NaN"

fun jcos :: "math \<Rightarrow> jsnum \<Rightarrow> jsnum" where
  "jcos m (Fin x) = Fin (Math_cos m x)"
| "jcos m x = NaN"

fun jsqrt :: "math \<Rightarrow> jsnum \<Rightarrow> jsnum" where
  "jsqrt m (Fin x) = (if x < 0 then NaN else Fin (Math_sqrt m x))"
| "jsqrt m PInf = PInf"
| "jsqrt m x = NaN"

fun jasin :: "math \<Rightarrow> jsnum \<Rightarrow> jsnum" where
  "jasin m (Fin x) = (if x < - 1 \<or> 1 < x then NaN else Fin (Math_asin m x))"
| "jasin m x = NaN"

fun jpow2 :: "math \<Rightarrow> jsnum \<Rightarrow> jsnum" where
  "jpow2 m (Fin x) = Math_pow2 m x"
| "jpow2 m NaN = NaN"
| "jpow2 m x = PInf"

text \<open>
  \<^verbatim>\<open>const toRad = (d) => (d * Math.PI) / 180;\<close> and \<^verbatim>\<open>haversineKm\<close>, operation by operation in
  the order JavaScript evaluates them (\<^verbatim>\<open>**\<close> binds tighter than \<^verbatim>\<open>*\<close>, and \<^verbatim>\<open>*\<close> associates
  to the left). The source does not clamp \<open>h\<close> before the square root.
\<close>

definition toRad :: "math \<Rightarrow> jsnum \<Rightarrow> jsnum" where
  "toRad m d = jdiv (rnd m) (jmul (rnd m) d (Fin (Math_PI m))) 180"

definition haversineKm :: "math \<Rightarrow> coords \<Rightarrow> coords \<Rightarrow> jsnum" where
  "haversineKm m a b =
     (let R = Fin 6371;
          dLat = toRad m (rnd m (lat b - lat a));
          dLng = toRad m (rnd m (lng b - lng a));
          lat1 = toRad m (Fin (lat a));
          lat2 = toRad m (Fin (lat b));
          h = jadd (rnd m) (jpow2 m (jsin m (jdiv (rnd m) dLat 2)))
                (jmul (rnd m) (jmul (rnd m) (jcos m lat1) (jcos m lat2))
                   (jpow2 m (jsin m (jdiv (rnd m) dLng 2))))
      in jmul (rnd m) (jmul (rnd m) (Fin 2) R) (jasin m (jsqrt m h)))"

text \<open>
  \<^verbatim>\<open>Number(distanceKm.toFixed(2))\<close>: for a finite number below \<open>10\<^sup>2\<^sup>1\<close> in magnitude,
  \<^verbatim>\<open>toFixed(2)\<close> prints the multiple of 1/100 nearest to the magnitude (the larger one on a
  tie) behind the sign, and \<^verbatim>\<open>Number\<close> reads it back as a double; from \<open>10\<^sup>2\<^sup>1\<close> on it
  prints the number itself. \<open>NaN\<close> and the infinities print as their names and read back
  as themselves.
\<close>

fun toFixed2 :: "jsnum \<Rightarrow> jsnum" where
  "toFixed2 (Fin x) =
     (if 10 ^ 21 \<le> \<bar>x\<bar> then Fin x
      else if x < 0 then jneg (fl (real_of_int \<lfloor>\<bar>x\<bar> * 100 + 1 / 2\<rfloor> / 100))
      else fl (real_of_int \<lfloor>x * 100 + 1 / 2\<rfloor> / 100))"
| "toFixed2 NaN = NaN"
| "toFixed2 PInf = PInf"
| "toFixed2 NInf = NInf"

text \<open>The comparisons \<^verbatim>\<open>x <= r\<close> and \<^verbatim>\<open>x > r\<close> of a number with a finite number: both are
  false when \<open>x\<close> is \<open>NaN\<close>.\<close>

fun jle :: "jsnum \<Rightarrow> real \<Rightarrow> bool" where
  "jle (Fin x) r = (x \<le> r)"
| "jle NInf r = True"
| "jle PInf r = False"
| "jle NaN r = False"

fun jgt :: "jsnum \<Rightarrow> real \<Rightarrow> bool" where
  "jgt (Fin x) r = (r < x)"
| "jgt PInf r = True"
| "jgt NInf r = False"
| "jgt NaN r = False"

text \<open>
  The order the comparator \<^verbatim>\<open>(a, b) => a.distanceKm - b.distanceKm\<close> puts numbers in:
  \<open>-\<infinity>\<close>, then the finite numbers by value, then \<open>+\<infinity>\<close>. The difference of two doubles has
  the sign of the exact difference, and a \<open>NaN\<close> difference (of equal infinities) counts
  as 0. \<open>NaN\<close> itself never reaches the comparator, since both filters before the sort
  drop it; its position in the order is immaterial.
\<close>

fun sortKey :: "jsnum \<Rightarrow> int \<times> real" where
  "sortKey NInf = (- 1, 0)"
| "sortKey (Fin x) = (0, x)"
| "sortKey PInf = (1, 0)"
| "sortKey NaN = (2, 0)"

subsection \<open>Conversion to a string\<close>

fun showNat :: "nat \<Rightarrow> string" where
  "showNat n = (if n < 10 then [''0123456789'' ! n] else showNat (n div 10) @ [''0123456789'' ! (n mod 10)])"

text \<open>
  \<^verbatim>\<open>String(v)\<close>. An integer up to \<open>2\<^sup>5\<^sup>3\<close> in magnitude prints as its decimal digits. How any
  other finite number prints depends on the shortest digits that identify its double;
  that printer is the parameter \<open>fmt\<close>.
\<close>

fun js_String :: "(real \<Rightarrow> string) \<Rightarrow> jsval \<Rightarrow> string" where
  "js_String fmt JUndefined = ''undefined''"
| "js_String fmt JNull = ''null''"
| "js_String fmt (JBool b) = (if b then ''true'' else ''false'')"
| "js_String fmt (JNum NaN) = ''NaN''"
| "js_String fmt (JNum PInf) = ''Infinity''"
| "js_String fmt (JNum NInf) = ''-Infinity''"
| "js_String fmt (JNum (Fin r)) =
     (if r = real_of_int \<lfloor>r\<rfloor> \<and> \<bar>r\<bar> \<le> 2 ^ 53
      then (if r < 0 then CHR ''-'' # showNat (nat \<lfloor>- r\<rfloor>) else showNat (nat \<lfloor>r\<rfloor>))
      else fmt r)"
| "js_String fmt (JStr s) = s"

section \<open>Errors\<close>

text \<open>
  An exception that is not one of the module's own: the error the HTTP client raises
  for a failed request, with its message, its \<^verbatim>\<open>code\<close> (such as \<^verbatim>\<open>ECONNRESET\<close> or
  \<^verbatim>\<open>ERR_BAD_REQUEST\<close>) and, when the server answered, the \<^verbatim>\<open>status\<close> of the answer; or a
  \<^verbatim>\<open>TypeError\<close>, which has neither.
\<close>

record exn =
  exn_message :: string
  exn_code :: "string option"
  exn_status :: "nat option"

definition typeError :: exn where
  "typeError = \<lparr>exn_message = ''TypeError'', exn_code = None, exn_status = None\<rparr>"

text \<open>
  The module's error classes, each with the \<^verbatim>\<open>code\<close>, \<^verbatim>\<open>status\<close> and \<^verbatim>\<open>meta\<close> its constructor
  fixes, and \<open>Thrown\<close>, any other exception that crosses the module. \<open>code\<close> and
  \<open>httpStatus\<close> read the properties \<^verbatim>\<open>code\<close> and \<^verbatim>\<open>status\<close> of the error object.
\<close>

datatype error =
    PincodeRequired
  | InvalidPincodeError jsval
  | GeocodeNoResultError string
  | GeocodeProviderError string string string
  | ShopifyGQLError "string list"
  | InventoryItemMissing
  | Thrown exn

fun code :: "error \<Rightarrow> string option" where
  "code PincodeRequired = Some ''pincode_required''"
| "code (InvalidPincodeError pin) = Some ''invalid_pincode''"
| "code (GeocodeNoResultError query) = Some ''pin_unavailable''"
| "code (GeocodeProviderError provider reason query) = Some ''geocode_provider_error''"
| "code (ShopifyGQLError messages) = Some ''shopify_graphql_error''"
| "code InventoryItemMissing = Some ''inventory_item_missing''"
| "code (Thrown x) = exn_code x"

fun httpStatus :: "error \<Rightarrow> nat option" where
  "httpStatus PincodeRequired = Some 400"
| "httpStatus (InvalidPincodeError pin) = Some 400"
| "httpStatus (GeocodeNoResultError query) = Some 422"
| "httpStatus (GeocodeProviderError provider reason query) = Some 502"
| "httpStatus (ShopifyGQLError messages) = Some 502"
| "httpStatus InventoryItemMissing = Some 404"
| "httpStatus (Thrown x) = exn_status x"

section \<open>Data model\<close>

text \<open>The result of geocoding: \<^verbatim>\<open>{ lat, lng, formatted }\<close>.\<close>

record geopoint = coords +
  formatted :: string

text \<open>A Shopify location node, as the \<^verbatim>\<open>Locations\<close> query selects it. An address field is a
  string or null; the address itself may be null.\<close>

record address =
  address1 :: "string option"
  address2 :: "string option"
  city :: "string option"
  province :: "string option"
  country :: "string option"
  zipCode :: "string option"

record location =
  loc_id :: string
  loc_name :: string
  isActive :: bool
  fulfillsOnlineOrders :: bool
  loc_address :: "address option"

record edge =
  cursor :: string
  node :: location

text \<open>\<^verbatim>\<open>data.locations\<close> of one response: its edges and \<^verbatim>\<open>pageInfo.hasNextPage\<close>.\<close>

record page =
  edges :: "edge list"
  hasNextPage :: bool

text \<open>One inventory level: its \<^verbatim>\<open>quantities\<close> (name and quantity; the list may be null) and
  the id of its location.\<close>

record level =
  quantities :: "(string \<times> int) list option"
  level_location :: string

text \<open>The entry of the response for one location, and the response.\<close>

record enriched_address =
  postal :: "address option"
  addr_formatted :: string

record enriched =
  locationId :: string
  name :: string
  address :: enriched_address
  coordinates :: coords
  distanceKm :: jsnum
  available :: "int option"
  status :: string

record pickup_input =
  in_pincode :: jsval
  geocoded :: geopoint
  in_radiusKm :: real
  in_variantId :: jsval
  inventoryItemGid :: "string option"

record pickup_result =
  input :: pickup_input
  inRadius :: "enriched list"
  outOfRadius :: "enriched list"

text \<open>The argument of \<^verbatim>\<open>buildPickupResponse\<close>; the transport \<^verbatim>\<open>gql\<close> is part of the
  environment below.\<close>

record pickup_request =
  pincode :: jsval
  variantId :: jsval
  radiusKm :: jsval
  shop :: string

section \<open>The outside world\<close>

text \<open>
  Requests the module sends, by the parameters that vary. The Google request carries the
  API key and either \<^verbatim>\<open>components\<close> or \<^verbatim>\<open>address\<close> with \<^verbatim>\<open>region\<close>. The Nominatim request
  is structured (\<^verbatim>\<open>postalcode\<close>, \<^verbatim>\<open>country\<close>) or freeform (\<^verbatim>\<open>q\<close>, optional \<^verbatim>\<open>countrycodes\<close>);
  \<^verbatim>\<open>format\<close>, \<^verbatim>\<open>addressdetails\<close>, \<^verbatim>\<open>limit\<close> and the headers are the same in every request.
\<close>

datatype google_params =
    GComponents "string option" string
  | GAddress "string option" string string

datatype osm_params =
    OsmStructured string string
  | OsmFreeform string "string option"

text \<open>
  Responses. A request either throws (\<open>\<dots>Threw\<close>, with the exception) or yields a body.
  Google's body has \<^verbatim>\<open>status\<close>, an optional \<^verbatim>\<open>error_message\<close> and \<^verbatim>\<open>results\<close>; a result has
  \<^verbatim>\<open>geometry.location\<close> (absent in a malformed result) and \<^verbatim>\<open>formatted_address\<close>.
  Nominatim's body is an array of candidates or something else; a candidate has \<^verbatim>\<open>lat\<close>
  and \<^verbatim>\<open>lon\<close> as decimal strings, held here as the numbers \<^verbatim>\<open>Number(it.lat)\<close> and
  \<^verbatim>\<open>Number(it.lon)\<close> they denote, and \<^verbatim>\<open>display_name\<close>.
\<close>

record google_result =
  geometry_location :: "coords option"
  formatted_address :: string

record google_data =
  g_status :: string
  error_message :: "string option"
  results :: "google_result list"

datatype google_response = GoogleThrew exn | GoogleData google_data

record osm_item =
  osm_lat :: real
  osm_lon :: real
  display_name :: string

datatype osm_response = OsmThrew exn | OsmArray "osm_item list" | OsmNotArray

text \<open>A GraphQL response: the request throws, or the body has the messages of
  \<^verbatim>\<open>errors\<close> (empty when there are none) and the selected data.\<close>

datatype 'a gql_response = GqlThrew exn | GqlResp "string list" 'a

datatype call =
    GoogleCall google_params
  | OsmCall osm_params
  | GqlLocations nat "string option"
  | GqlInvItem string
  | GqlLevels string

text \<open>The environment variables the module reads; \<open>None\<close> is an unset variable.\<close>

record config =
  GOOGLE_MAPS_KEY :: "string option"
  DEFAULT_RADIUS_KM :: "string option"
  GEOCODER_MODE :: "string option"


text \<open>
  The environment of a run: the configuration, the two geocoding services, the shop's
  GraphQL transport \<^verbatim>\<open>gql\<close> (one function for each of the three queries the module
  posts), the printer of non-integer numbers, the engine's arithmetic, and the order in
  which the suspended callbacks of the fan-out over the locations are resumed
  (\<open>arrivals\<close>, by position in the location list). A service answers a request made as
  the \<open>n\<close>-th outbound call of the run, so the same request may be answered differently
  at different times.
\<close>

record env =
  cfg :: config
  google :: "nat \<Rightarrow> google_params \<Rightarrow> google_response"
  osm :: "nat \<Rightarrow> osm_params \<Rightarrow> osm_response"
  gqlLocations :: "nat \<Rightarrow> nat \<Rightarrow> string option \<Rightarrow> page option gql_response"
  gqlInvItem :: "nat \<Rightarrow> string \<Rightarrow> string option gql_response"
  gqlLevels :: "nat \<Rightarrow> string \<Rightarrow> level list gql_response"
  numToString :: "real \<Rightarrow> string"
  arith :: math
  arrivals :: "nat list"

text \<open>
  The module's state: its three caches and the outbound calls made so far. A cache is
  the map from keys to values that \<^verbatim>\<open>has\<close>, \<^verbatim>\<open>get\<close> and \<^verbatim>\<open>set\<close> show; expiry and eviction,
  which only remove entries as time passes or the cache fills, are outside the model.
\<close>

record state =
  geocodeCache :: "string \<rightharpoonup> geopoint"
  locationGeoCache :: "string \<rightharpoonup> geopoint"
  shopifyLocationsCache :: "string \<rightharpoonup> location list"
  calls :: "call list"

definition callGoogle :: "env \<Rightarrow> google_params \<Rightarrow> state \<Rightarrow> google_response \<times> state" where
  "callGoogle e p st = (google e (length (calls st)) p, st\<lparr>calls := calls st @ [GoogleCall p]\<rparr>)"

definition callOsm :: "env \<Rightarrow> osm_params \<Rightarrow> state \<Rightarrow> osm_response \<times> state" where
  "callOsm e p st = (osm e (length (calls st)) p, st\<lparr>calls := calls st @ [OsmCall p]\<rparr>)"

definition postLocations ::
  "env \<Rightarrow> nat \<Rightarrow> string option \<Rightarrow> state \<Rightarrow> page option gql_response \<times> state" where
  "postLocations e n after st =
     (gqlLocations e (length (calls st)) n after, st\<lparr>calls := calls st @ [GqlLocations n after]\<rparr>)"

definition postInvItem :: "env \<Rightarrow> string \<Rightarrow> state \<Rightarrow> string option gql_response \<times> state" where
  "postInvItem e gid st = (gqlInvItem e (length (calls st)) gid, st\<lparr>calls := calls st @ [GqlInvItem gid]\<rparr>)"

definition postLevels :: "env \<Rightarrow> string \<Rightarrow> state \<Rightarrow> level list gql_response \<times> state" where
  "postLevels e gid st = (gqlLevels e (length (calls st)) gid, st\<lparr>calls := calls st @ [GqlLevels gid]\<rparr>)"

text \<open>\<^verbatim>\<open>DEFAULT_RADIUS_KM = "100"\<close> and \<^verbatim>\<open>(GEOCODER_MODE || "auto").toLowerCase()\<close> with the
  default \<^verbatim>\<open>"auto"\<close> of the destructuring.\<close>

definition defaultRadiusKm :: "config \<Rightarrow> string" where
  "defaultRadiusKm c = (case DEFAULT_RADIUS_KM c of None \<Rightarrow> ''100'' | Some s \<Rightarrow> s)"

definition geocoderMode :: "config \<Rightarrow> string" where
  "geocoderMode c =
     (let m = (case GEOCODER_MODE c of None \<Rightarrow> ''auto'' | Some s \<Rightarrow> s)
      in toLowerCase (if m = [] then ''auto'' else m))"

section \<open>Geocoding: Google, then Nominatim\<close>

text \<open>The tests \<^verbatim>\<open>/^\d{6}$/\<close> and \<^verbatim>\<open>/^\d{4}$/\<close>; without the \<^verbatim>\<open>m\<close> flag \<^verbatim>\<open>$\<close> is the end of
  the string.\<close>

definition is6 :: "string \<Rightarrow> bool" where
  "is6 s = (length s = 6 \<and> list_all isDigit s)"

definition is4 :: "string \<Rightarrow> bool" where
  "is4 s = (length s = 4 \<and> list_all isDigit s)"

text \<open>\<^verbatim>\<open>cacheOk\<close>: store the result under the key of the query.\<close>

definition cacheOk :: "string \<Rightarrow> geopoint \<Rightarrow> state \<Rightarrow> state" where
  "cacheOk key res st = st\<lparr>geocodeCache := (geocodeCache st)(key \<mapsto> res)\<rparr>"

definition googleParams :: "config \<Rightarrow> string \<Rightarrow> google_params" where
  "googleParams c original =
     (if is6 original then GComponents (GOOGLE_MAPS_KEY c) (''postal_code:'' @ original @ ''|country:IN'')
      else if is4 original then GComponents (GOOGLE_MAPS_KEY c) (''postal_code:'' @ original @ ''|country:AU'')
      else GAddress (GOOGLE_MAPS_KEY c) original ''in'')"


text \<open>
  What the body of \<^verbatim>\<open>try { \<dots> } catch (err) { \<dots> }\<close> in step 1 makes of the outcome of the
  Google request. The result is \<open>Some\<close> when \<^verbatim>\<open>geocode\<close> ends here, by returning the first
  result or by throwing in mode \<^verbatim>\<open>"google"\<close>, and \<open>None\<close> when it goes on to Nominatim. In
  mode \<^verbatim>\<open>"google"\<close> the \<^verbatim>\<open>catch\<close> rethrows what it caught: the exception of a failed
  request, the \<^verbatim>\<open>TypeError\<close> raised by a first result with no \<^verbatim>\<open>geometry.location\<close>, or the
  \<^verbatim>\<open>GeocodeProviderError\<close> thrown two lines above it.
\<close>

definition googleAnswer :: "string \<Rightarrow> string \<Rightarrow> google_response \<Rightarrow> (error + geopoint) option" where
  "googleAnswer mode original resp =
     (case resp of
        GoogleThrew err \<Rightarrow> (if mode = ''google'' then Some (Inl (Thrown err)) else None)
      | GoogleData d \<Rightarrow>
          if g_status d = ''OK'' \<and> results d \<noteq> [] then
            (case geometry_location (hd (results d)) of
               None \<Rightarrow> (if mode = ''google'' then Some (Inl (Thrown typeError)) else None)
             | Some c \<Rightarrow>
                 Some (Inr \<lparr>lat = lat c, lng = lng c,
                            formatted = formatted_address (hd (results d))\<rparr>))
          else if mode = ''google'' then
            (let msg = (case error_message d of
                          None \<Rightarrow> []
                        | Some m \<Rightarrow> if m = [] then [] else '' - '' @ m)
             in Some (Inl (GeocodeProviderError ''google'' (''status='' @ g_status d @ msg) original)))
          else None)"

text \<open>Step 1, \<^verbatim>\<open>if (mode !== "osm") { \<dots> }\<close>: the request, and \<^verbatim>\<open>cacheOk\<close> on a result.\<close>

definition googleStep ::
  "env \<Rightarrow> string \<Rightarrow> string \<Rightarrow> string \<Rightarrow> state \<Rightarrow> (error + geopoint) option \<times> state" where
  "googleStep e mode key original st =
     (case callGoogle e (googleParams (cfg e) original) st of
        (resp, st1) \<Rightarrow>
          (case googleAnswer mode original resp of
             Some (Inr res) \<Rightarrow> (Some (Inr res), cacheOk key res st1)
           | Some (Inl err) \<Rightarrow> (Some (Inl err), st1)
           | None \<Rightarrow> (None, st1)))"

text \<open>\<^verbatim>\<open>Array.isArray(data) && data.length > 0\<close>, then the point made of \<^verbatim>\<open>data[0]\<close>; a request
  that throws is caught and gives nothing.\<close>

definition osmFirst :: "osm_response \<Rightarrow> geopoint option" where
  "osmFirst r =
     (case r of
        OsmArray (it # rest) \<Rightarrow> Some \<lparr>lat = osm_lat it, lng = osm_lon it, formatted = display_name it\<rparr>
      | _ \<Rightarrow> None)"

definition osmStructuredParams :: "string \<Rightarrow> osm_params" where
  "osmStructuredParams original =
     (if is6 original then OsmStructured original ''India'' else OsmStructured original ''Australia'')"

definition osmFreeformParams :: "string \<Rightarrow> osm_params" where
  "osmFreeformParams original =
     (if is6 original then OsmFreeform (original @ '', India'') (Some ''in'')
      else if is4 original then OsmFreeform (original @ '', Australia'') (Some ''au'')
      else OsmFreeform original None)"

text \<open>Steps 2 and 3 and the final \<^verbatim>\<open>throw new GeocodeNoResultError(original)\<close>.\<close>

definition osmSteps :: "env \<Rightarrow> string \<Rightarrow> string \<Rightarrow> state \<Rightarrow> (error + geopoint) \<times> state" where
  "osmSteps e key original st =
     (case (if is6 original \<or> is4 original
            then (case callOsm e (osmStructuredParams original) st of (r, st1) \<Rightarrow> (osmFirst r, st1))
            else (None, st)) of
        (Some res, st1) \<Rightarrow> (Inr res, cacheOk key res st1)
      | (None, st1) \<Rightarrow>
          (case callOsm e (osmFreeformParams original) st1 of
             (r, st2) \<Rightarrow>
               (case osmFirst r of
                  Some res \<Rightarrow> (Inr res, cacheOk key res st2)
                | None \<Rightarrow> (Inl (GeocodeNoResultError original), st2))))"

text \<open>\<^verbatim>\<open>export async function geocode(address)\<close>; every caller passes a string.\<close>

definition geocode :: "env \<Rightarrow> string \<Rightarrow> state \<Rightarrow> (error + geopoint) \<times> state" where
  "geocode e addr st =
     (let original = trim addr;
          key = ''geo:'' @ original
      in case geocodeCache st key of
           Some res \<Rightarrow> (Inr res, st)
         | None \<Rightarrow>
             (let mode = geocoderMode (cfg e)
              in if mode \<noteq> ''osm'' then
                   (case googleStep e mode key original st of
                      (Some r, st1) \<Rightarrow> (r, st1)
                    | (None, st1) \<Rightarrow> osmSteps e key original st1)
                 else osmSteps e key original st))"

section \<open>Shopify GraphQL\<close>

text \<open>
  The loop of \<^verbatim>\<open>fetchShopifyLocations\<close>: post a page request, fail on a thrown request or on
  GraphQL errors (\<^verbatim>\<open>assertNoGqlErrors\<close>), keep the active nodes (the test
  \<^verbatim>\<open>n.fulfillsOnlineOrders\<close> is commented out in the source), and go on from the cursor of the
  last edge while \<^verbatim>\<open>hasNextPage\<close> holds. A response without \<^verbatim>\<open>data.locations\<close> has no edges and
  ends the loop. The loop runs as long as the server says there is a next page, so it is
  a partial function: \<open>None\<close> is a run that never ends.
\<close>

partial_function (option) fetchLoop ::
  "env \<Rightarrow> string option \<Rightarrow> location list \<Rightarrow> state \<Rightarrow> ((error + location list) \<times> state) option" where
  "fetchLoop e after locations st =
     (case postLocations e 100 after st of
        (GqlThrew err, st1) \<Rightarrow> Some (Inl (Thrown err), st1)
      | (GqlResp errs d, st1) \<Rightarrow>
          if errs \<noteq> [] then Some (Inl (ShopifyGQLError errs), st1)
          else
            (let es = (case d of None \<Rightarrow> [] | Some p \<Rightarrow> edges p);
                 locations' = locations @ filter isActive (map node es);
                 hasNext = (case d of None \<Rightarrow> False | Some p \<Rightarrow> hasNextPage p);
                 after' = (if es \<noteq> [] then Some (cursor (last es)) else None)
             in if hasNext then fetchLoop e after' locations' st1
                else Some (Inr locations', st1)))"

declare fetchLoop.simps [code]

definition fetchShopifyLocations ::
  "env \<Rightarrow> string \<Rightarrow> state \<Rightarrow> ((error + location list) \<times> state) option" where
  "fetchShopifyLocations e shopName st =
     (let cacheKey = ''locations:'' @ shopName
      in case shopifyLocationsCache st cacheKey of
           Some locations \<Rightarrow> Some (Inr locations, st)
         | None \<Rightarrow>
             (case fetchLoop e None [] st of
                None \<Rightarrow> None
              | Some (Inl err, st1) \<Rightarrow> Some (Inl err, st1)
              | Some (Inr locations, st1) \<Rightarrow>
                  Some (Inr locations,
                        st1\<lparr>shopifyLocationsCache := (shopifyLocationsCache st1)(cacheKey \<mapsto> locations)\<rparr>)))"

text \<open>\<^verbatim>\<open>getInventoryItemIdForVariant\<close>: the variant's global id, the query, and the item id, which
  must be a non-empty string.\<close>

definition getInventoryItemIdForVariant ::
  "env \<Rightarrow> jsval \<Rightarrow> state \<Rightarrow> (error + string) \<times> state" where
  "getInventoryItemIdForVariant e variantIdOrGid st =
     (let s = js_String (numToString e) variantIdOrGid;
          gid = (if startsWith s ''gid://'' then s else ''gid://shopify/ProductVariant/'' @ s)
      in case postInvItem e gid st of
           (GqlThrew err, st1) \<Rightarrow> (Inl (Thrown err), st1)
         | (GqlResp errs d, st1) \<Rightarrow>
             if errs \<noteq> [] then (Inl (ShopifyGQLError errs), st1)
             else (case d of
                     None \<Rightarrow> (Inl InventoryItemMissing, st1)
                   | Some i \<Rightarrow> if i = [] then (Inl InventoryItemMissing, st1) else (Inr i, st1)))"

text \<open>\<^verbatim>\<open>getInventoryByLocation\<close>: for each level in order, the quantity named
  \<^verbatim>\<open>"available"\<close> (0 when there is none) is set under the level's location id.\<close>

definition availableOf :: "level \<Rightarrow> int" where
  "availableOf l =
     (case quantities l of
        None \<Rightarrow> 0
      | Some qs \<Rightarrow> (case List.find (\<lambda>q. fst q = ''available'') qs of None \<Rightarrow> 0 | Some q \<Rightarrow> snd q))"

definition levelsMap :: "level list \<Rightarrow> (string \<rightharpoonup> int)" where
  "levelsMap ls = foldl (\<lambda>m l. m(level_location l \<mapsto> availableOf l)) Map.empty ls"

definition getInventoryByLocation ::
  "env \<Rightarrow> string \<Rightarrow> state \<Rightarrow> (error + (string \<rightharpoonup> int)) \<times> state" where
  "getInventoryByLocation e invItemGid st =
     (case postLevels e invItemGid st of
        (GqlThrew err, st1) \<Rightarrow> (Inl (Thrown err), st1)
      | (GqlResp errs ls, st1) \<Rightarrow>
          if errs \<noteq> [] then (Inl (ShopifyGQLError errs), st1)
          else (Inr (levelsMap ls), st1))"

section \<open>Geocoding a location\<close>

text \<open>The value stored and returned when a location cannot be geocoded.\<close>

definition fail :: geopoint where
  "fail = \<lparr>lat = 0, lng = 0, formatted = ''Geocode failed''\<rparr>"

text \<open>\<^verbatim>\<open>[a.address1, \<dots>, a.zip].filter(Boolean).join(", ")\<close>, with \<^verbatim>\<open>a = loc.address || {}\<close>:
  null and empty fields are skipped.\<close>

definition present :: "string option \<Rightarrow> bool" where
  "present f = (case f of None \<Rightarrow> False | Some s \<Rightarrow> s \<noteq> [])"

definition addressParts :: "address option \<Rightarrow> string option list" where
  "addressParts ao =
     (case ao of
        None \<Rightarrow> [None, None, None, None, None, None]
      | Some a \<Rightarrow> [address1 a, address2 a, city a, province a, country a, zipCode a])"

definition fullAddr :: "location \<Rightarrow> string" where
  "fullAddr loc = join '', '' (map the (filter present (addressParts (loc_address loc))))"

definition zipOf :: "location \<Rightarrow> string option" where
  "zipOf loc = (case loc_address loc of None \<Rightarrow> None | Some a \<Rightarrow> zipCode a)"

definition setLocationGeo :: "string \<Rightarrow> geopoint \<Rightarrow> state \<Rightarrow> state" where
  "setLocationGeo key g st = st\<lparr>locationGeoCache := (locationGeoCache st)(key \<mapsto> g)\<rparr>"

text \<open>\<^verbatim>\<open>geocodeShopifyLocation\<close>: the cached point, or the point of the full address, or the
  point of the zip alone, or \<open>fail\<close>; whichever it is, it is stored under the location's
  key. The function catches every error, so it always returns a point.\<close>

definition geocodeShopifyLocation :: "env \<Rightarrow> location \<Rightarrow> state \<Rightarrow> geopoint \<times> state" where
  "geocodeShopifyLocation e loc st =
     (let key = ''loc:'' @ loc_id loc
      in case locationGeoCache st key of
           Some g \<Rightarrow> (g, st)
         | None \<Rightarrow>
             (case geocode e (fullAddr loc) st of
                (Inr g, st1) \<Rightarrow> (g, setLocationGeo key g st1)
              | (Inl err, st1) \<Rightarrow>
                  if present (zipOf loc) then
                    (case geocode e (the (zipOf loc)) st1 of
                       (Inr g2, st2) \<Rightarrow> (g2, setLocationGeo key g2 st2)
                     | (Inl err2, st2) \<Rightarrow> (fail, setLocationGeo key fail st2))
                  else (fail, setLocationGeo key fail st1)))"


section \<open>The fan-out over the locations\<close>

text \<open>
  \<^verbatim>\<open>Promise.all(locations.map(async (loc) => \<dots>))\<close> starts the callback of every location
  before any of them gets an answer: a callback runs until its first request is sent and
  is then suspended, and the suspended callbacks go on, one at a time, as answers
  arrive. They share the caches, so what one finds there depends on how far the others
  have got. The callbacks are therefore run as tasks that advance one step at a time.

  A geocoding task is \<^verbatim>\<open>geocode\<close> suspended at one of its three requests, with the
  trimmed query and the number of the outbound call its request was, or finished with
  the error or the point of \<^verbatim>\<open>geocode\<close>.
\<close>

datatype geo_task =
    AwaitGoogle string nat
  | AwaitOsmStructured string nat
  | AwaitOsmFreeform string nat
  | GeoDone "error + geopoint"

text \<open>Sending the request of step 3, and entering step 2 or, for a query that is not
  four or six digits, step 3.\<close>

definition osmFreeformStart :: "string \<Rightarrow> state \<Rightarrow> geo_task \<times> state" where
  "osmFreeformStart original st =
     (AwaitOsmFreeform original (length (calls st)),
      st\<lparr>calls := calls st @ [OsmCall (osmFreeformParams original)]\<rparr>)"

definition osmStart :: "string \<Rightarrow> state \<Rightarrow> geo_task \<times> state" where
  "osmStart original st =
     (if is6 original \<or> is4 original then
        (AwaitOsmStructured original (length (calls st)),
         st\<lparr>calls := calls st @ [OsmCall (osmStructuredParams original)]\<rparr>)
      else osmFreeformStart original st)"

text \<open>\<^verbatim>\<open>geocode\<close> up to its first \<^verbatim>\<open>await\<close>: the cached point, or the first request.\<close>

definition geoStart :: "env \<Rightarrow> string \<Rightarrow> state \<Rightarrow> geo_task \<times> state" where
  "geoStart e addr st =
     (let original = trim addr;
          key = ''geo:'' @ original
      in case geocodeCache st key of
           Some res \<Rightarrow> (GeoDone (Inr res), st)
         | None \<Rightarrow>
             if geocoderMode (cfg e) \<noteq> ''osm'' then
               (AwaitGoogle original (length (calls st)),
                st\<lparr>calls := calls st @ [GoogleCall (googleParams (cfg e) original)]\<rparr>)
             else osmStart original st)"

text \<open>\<^verbatim>\<open>geocode\<close> from the answer to its pending request up to the next \<^verbatim>\<open>await\<close> or its
  end.\<close>

fun geoStep :: "env \<Rightarrow> geo_task \<Rightarrow> state \<Rightarrow> geo_task \<times> state" where
  "geoStep e (AwaitGoogle original n) st =
     (case googleAnswer (geocoderMode (cfg e)) original
             (google e n (googleParams (cfg e) original)) of
        Some (Inr res) \<Rightarrow> (GeoDone (Inr res), cacheOk (''geo:'' @ original) res st)
      | Some (Inl err) \<Rightarrow> (GeoDone (Inl err), st)
      | None \<Rightarrow> osmStart original st)"
| "geoStep e (AwaitOsmStructured original n) st =
     (case osmFirst (osm e n (osmStructuredParams original)) of
        Some res \<Rightarrow> (GeoDone (Inr res), cacheOk (''geo:'' @ original) res st)
      | None \<Rightarrow> osmFreeformStart original st)"
| "geoStep e (AwaitOsmFreeform original n) st =
     (case osmFirst (osm e n (osmFreeformParams original)) of
        Some res \<Rightarrow> (GeoDone (Inr res), cacheOk (''geo:'' @ original) res st)
      | None \<Rightarrow> (GeoDone (Inl (GeocodeNoResultError original)), st))"
| "geoStep e (GeoDone r) st = (GeoDone r, st)"

text \<open>
  The task of one location: \<^verbatim>\<open>geocodeShopifyLocation\<close> awaiting \<^verbatim>\<open>geocode(fullAddr)\<close> or
  \<^verbatim>\<open>geocode(a.zip)\<close>, or settled with the point it returns and how it got it: from the
  location cache (line 311), from one of the two lookups (lines 321 and 327), or as the
  value \<open>fail\<close> after both have failed (line 332).
\<close>

datatype outcome = FromCache | Geocoded | Failed

datatype loc_task =
    AwaitFull location geo_task
  | AwaitZip location geo_task
  | Settled outcome geopoint

definition locStart :: "env \<Rightarrow> location \<Rightarrow> state \<Rightarrow> loc_task \<times> state" where
  "locStart e loc st =
     (case locationGeoCache st (''loc:'' @ loc_id loc) of
        Some g \<Rightarrow> (Settled FromCache g, st)
      | None \<Rightarrow> (case geoStart e (fullAddr loc) st of (t, st1) \<Rightarrow> (AwaitFull loc t, st1)))"

fun locStep :: "env \<Rightarrow> loc_task \<Rightarrow> state \<Rightarrow> loc_task \<times> state" where
  "locStep e (AwaitFull loc (GeoDone (Inr g))) st =
     (Settled Geocoded g, setLocationGeo (''loc:'' @ loc_id loc) g st)"
| "locStep e (AwaitFull loc (GeoDone (Inl err))) st =
     (if present (zipOf loc) then
        (case geoStart e (the (zipOf loc)) st of (t, st1) \<Rightarrow> (AwaitZip loc t, st1))
      else (Settled Failed fail, setLocationGeo (''loc:'' @ loc_id loc) fail st))"
| "locStep e (AwaitFull loc t) st =
     (case geoStep e t st of (t', st1) \<Rightarrow> (AwaitFull loc t', st1))"
| "locStep e (AwaitZip loc (GeoDone (Inr g2))) st =
     (Settled Geocoded g2, setLocationGeo (''loc:'' @ loc_id loc) g2 st)"
| "locStep e (AwaitZip loc (GeoDone (Inl err2))) st =
     (Settled Failed fail, setLocationGeo (''loc:'' @ loc_id loc) fail st)"
| "locStep e (AwaitZip loc t) st =
     (case geoStep e t st of (t', st1) \<Rightarrow> (AwaitZip loc t', st1))"
| "locStep e (Settled how g) st = (Settled how g, st)"

text \<open>\<^verbatim>\<open>locations.map\<close> starts the callbacks in the order of the list.\<close>

fun startAll :: "env \<Rightarrow> location list \<Rightarrow> state \<Rightarrow> loc_task list \<times> state" where
  "startAll e [] st = ([], st)"
| "startAll e (loc # locs) st =
     (case locStart e loc st of
        (t, st1) \<Rightarrow> (case startAll e locs st1 of (ts, st2) \<Rightarrow> (t # ts, st2)))"

text \<open>The suspended callbacks are resumed in the order the environment gives; a position
  outside the list resumes nothing.\<close>

fun resume :: "env \<Rightarrow> nat list \<Rightarrow> loc_task list \<Rightarrow> state \<Rightarrow> loc_task list \<times> state" where
  "resume e [] ts st = (ts, st)"
| "resume e (i # is) ts st =
     (if i < length ts then
        (case locStep e (ts ! i) st of (t, st1) \<Rightarrow> resume e is (ts[i := t]) st1)
      else resume e is ts st)"

text \<open>
  A task is settled after eight steps at most: three requests and the continuation for
  the full address, and as many for the zip. Whatever is still pending after the
  arrivals the environment lists is run to its end, task by task.
\<close>

fun locSettle :: "nat \<Rightarrow> env \<Rightarrow> loc_task \<Rightarrow> state \<Rightarrow> loc_task \<times> state" where
  "locSettle 0 e t st = (t, st)"
| "locSettle (Suc n) e t st = (case locStep e t st of (t', st1) \<Rightarrow> locSettle n e t' st1)"

fun settleAll :: "env \<Rightarrow> loc_task list \<Rightarrow> state \<Rightarrow> loc_task list \<times> state" where
  "settleAll e [] st = ([], st)"
| "settleAll e (t # ts) st =
     (case locSettle 8 e t st of
        (t', st1) \<Rightarrow> (case settleAll e ts st1 of (ts', st2) \<Rightarrow> (t' # ts', st2)))"

definition fanOut :: "env \<Rightarrow> location list \<Rightarrow> state \<Rightarrow> loc_task list \<times> state" where
  "fanOut e locs st =
     (case startAll e locs st of
        (ts, st1) \<Rightarrow> (case resume e (arrivals e) ts st1 of (ts', st2) \<Rightarrow> settleAll e ts' st2))"

text \<open>What \<^verbatim>\<open>await geocodeShopifyLocation(loc)\<close> gives each callback, in the order of the
  list; \<open>None\<close> while a task is not settled.\<close>

fun settled :: "loc_task \<Rightarrow> (outcome \<times> geopoint) option" where
  "settled (Settled how g) = Some (how, g)"
| "settled t = None"

definition outcomes :: "loc_task list \<Rightarrow> (outcome \<times> geopoint) list option" where
  "outcomes ts = (if list_all (\<lambda>t. settled t \<noteq> None) ts then Some (map (the \<circ> settled) ts) else None)"

section \<open>The pickup response\<close>

text \<open>The test \<^verbatim>\<open>/^\d{4}$|^\d{6}$/\<close>.\<close>

definition pincodeOk :: "string \<Rightarrow> bool" where
  "pincodeOk s = (is4 s \<or> is6 s)"

text \<open>\<^verbatim>\<open>qty === null ? "unknown" : qty > 0 ? "instock" : "outofstock"\<close>, where \<^verbatim>\<open>qty\<close> is the
  map's entry for the location or null.\<close>

definition statusOf :: "int option \<Rightarrow> string" where
  "statusOf qty = (case qty of None \<Rightarrow> ''unknown'' | Some q \<Rightarrow> if q > 0 then ''instock'' else ''outofstock'')"

text \<open>The entry built for a location geocoded to \<open>g\<close> (lines 371 to 385): its distance from
  the pincode's point, rounded, and its quantity and status.\<close>

definition entryOf :: "math \<Rightarrow> geopoint \<Rightarrow> (string \<rightharpoonup> int) \<Rightarrow> location \<Rightarrow> geopoint \<Rightarrow> enriched" where
  "entryOf m pin qtyByLoc loc g =
     (let d = haversineKm m \<lparr>lat = lat pin, lng = lng pin\<rparr> \<lparr>lat = lat g, lng = lng g\<rparr>;
          qty = qtyByLoc (loc_id loc)
      in \<lparr>locationId = loc_id loc,
          name = loc_name loc,
          address = \<lparr>postal = loc_address loc, addr_formatted = formatted g\<rparr>,
          coordinates = \<lparr>lat = lat g, lng = lng g\<rparr>,
          distanceKm = toFixed2 d,
          available = qty,
          status = statusOf qty\<rparr>)"

text \<open>The callback of \<^verbatim>\<open>locations.map\<close> after its \<^verbatim>\<open>await\<close> (lines 370 to 385): null for a
  location geocoded to (0, 0), else its entry.\<close>

definition enrichLocation ::
  "math \<Rightarrow> geopoint \<Rightarrow> (string \<rightharpoonup> int) \<Rightarrow> location \<Rightarrow> geopoint \<Rightarrow> enriched option" where
  "enrichLocation m pin qtyByLoc loc g =
     (if lat g = 0 \<and> lng g = 0 then None else Some (entryOf m pin qtyByLoc loc g))"

text \<open>\<^verbatim>\<open>.filter(Boolean)\<close> on the callbacks' results: the entries that are not null.\<close>

definition filterBoolean :: "'a option list \<Rightarrow> 'a list" where
  "filterBoolean rs = map the (filter (\<lambda>r. r \<noteq> None) rs)"

text \<open>The inventory of lines 359 to 364: nothing unless \<^verbatim>\<open>variantId\<close> is truthy.\<close>

definition inventoryFor ::
  "env \<Rightarrow> jsval \<Rightarrow> state \<Rightarrow> (error + string option \<times> (string \<rightharpoonup> int)) \<times> state" where
  "inventoryFor e vid st =
     (if truthy vid then
        (case getInventoryItemIdForVariant e vid st of
           (Inl err, st1) \<Rightarrow> (Inl err, st1)
         | (Inr invItemGid, st1) \<Rightarrow>
             (case getInventoryByLocation e invItemGid st1 of
                (Inl err, st2) \<Rightarrow> (Inl err, st2)
              | (Inr qtyByLoc, st2) \<Rightarrow> (Inr (Some invItemGid, qtyByLoc), st2)))
      else (Inr (None, Map.empty), st))"

text \<open>What the function has in hand when the fan-out over the locations starts.\<close>

record resolved =
  r_RADIUS :: real
  r_pin :: geopoint
  r_locations :: "location list"
  r_invItemGid :: "string option"
  r_qtyByLoc :: "string \<rightharpoonup> int"

text \<open>Lines 343 to 364 of \<^verbatim>\<open>buildPickupResponse\<close>: validation, the effective radius, the
  pincode's point, the locations and the inventory.\<close>

definition resolveInputs ::
  "env \<Rightarrow> pickup_request \<Rightarrow> state \<Rightarrow> ((error + resolved) \<times> state) option" where
  "resolveInputs e req st =
     (if \<not> truthy (pincode req) then Some (Inl PincodeRequired, st)
      else if \<not> pincodeOk (trim (js_String (numToString e) (pincode req)))
      then Some (Inl (InvalidPincodeError (pincode req)), st)
      else
        (let RADIUS = numberOr (radiusKm req) (numberOr (JStr (defaultRadiusKm (cfg e))) 100)
         in case geocode e (js_String (numToString e) (pincode req)) st of
              (Inl err, st1) \<Rightarrow> Some (Inl err, st1)
            | (Inr pin, st1) \<Rightarrow>
                (case fetchShopifyLocations e (shop req) st1 of
                   None \<Rightarrow> None
                 | Some (Inl err, st2) \<Rightarrow> Some (Inl err, st2)
                 | Some (Inr locations, st2) \<Rightarrow>
                     (case inventoryFor e (variantId req) st2 of
                        (Inl err, st3) \<Rightarrow> Some (Inl err, st3)
                      | (Inr (invItemGid, qtyByLoc), st3) \<Rightarrow>
                          Some (Inr \<lparr>r_RADIUS = RADIUS, r_pin = pin, r_locations = locations,
                                     r_invItemGid = invItemGid, r_qtyByLoc = qtyByLoc\<rparr>,
                                st3)))))"

text \<open>
  Lines 366 to 388: the entries of the locations that were geocoded, in the order of the
  location list, which is the order \<^verbatim>\<open>Promise.all\<close> keeps whatever the order of arrival.
  \<open>None\<close> is the case of a callback that never settles, in which \<^verbatim>\<open>Promise.all\<close> never
  resolves.
\<close>

definition enrichedOf :: "env \<Rightarrow> resolved \<Rightarrow> state \<Rightarrow> (enriched list \<times> state) option" where
  "enrichedOf e r st =
     (case fanOut e (r_locations r) st of
        (ts, st1) \<Rightarrow>
          (case outcomes ts of
             None \<Rightarrow> None
           | Some os \<Rightarrow>
               Some (filterBoolean
                       (map (\<lambda>(loc, how, g). enrichLocation (arith e) (r_pin r) (r_qtyByLoc r) loc g)
                          (zip (r_locations r) os)),
                     st1)))"

text \<open>Lines 390 to 407: the two lists and the response. \<^verbatim>\<open>Array.prototype.sort\<close> is stable,
  and so is \<open>sort_key\<close>.\<close>

definition assemble :: "pickup_request \<Rightarrow> resolved \<Rightarrow> enriched list \<Rightarrow> pickup_result" where
  "assemble req r es =
     \<lparr>input = \<lparr>in_pincode = pincode req,
                geocoded = r_pin r,
                in_radiusKm = r_RADIUS r,
                in_variantId = (if variantId req = JUndefined then JNull else variantId req),
                inventoryItemGid = r_invItemGid r\<rparr>,
      inRadius = sort_key (sortKey \<circ> distanceKm) (filter (\<lambda>x. jle (distanceKm x) (r_RADIUS r)) es),
      outOfRadius = sort_key (sortKey \<circ> distanceKm) (filter (\<lambda>x. jgt (distanceKm x) (r_RADIUS r)) es)\<rparr>"

text \<open>\<^verbatim>\<open>export async function buildPickupResponse({ pincode, variantId, radiusKm, gql, shop })\<close>.\<close>

definition buildPickupResponse ::
  "env \<Rightarrow> pickup_request \<Rightarrow> state \<Rightarrow> ((error + pickup_result) \<times> state) option" where
  "buildPickupResponse e req st =
     (case resolveInputs e req st of
        None \<Rightarrow> None
      | Some (Inl err, st1) \<Rightarrow> Some (Inl err, st1)
      | Some (Inr r, st1) \<Rightarrow>
          (case enrichedOf e r st1 of
             None \<Rightarrow> None
           | Some (es, st2) \<Rightarrow> Some (Inr (assemble req r es), st2)))"

section \<open>Notions used to state the properties\<close>

text \<open>
  The class of input errors: the two errors \<^verbatim>\<open>buildPickupResponse\<close> raises for a missing or
  malformed pincode.
\<close>

fun invalidInput :: "error \<Rightarrow> bool" where
  "invalidInput PincodeRequired = True"
| "invalidInput (InvalidPincodeError pin) = True"
| "invalidInput err = False"

text \<open>
  A cursor-paginated collection. \<open>serves e t after ps\<close> says that the transport, asked from
  its \<open>t\<close>-th call on for pages of up to 100 edges starting after the cursor \<open>after\<close>,
  answers with the pages \<open>ps\<close> in turn, without errors: each page but the last reports a
  next page, the last reports none, and each is asked for after the cursor of the last
  edge of the page before.
\<close>

definition nextCursor :: "page \<Rightarrow> string option" where
  "nextCursor p = (if edges p \<noteq> [] then Some (cursor (last (edges p))) else None)"

fun serves :: "env \<Rightarrow> nat \<Rightarrow> string option \<Rightarrow> page list \<Rightarrow> bool" where
  "serves e t after [] = False"
| "serves e t after [p] = (gqlLocations e t 100 after = GqlResp [] (Some p) \<and> \<not> hasNextPage p)"
| "serves e t after (p # q # ps) =
     (gqlLocations e t 100 after = GqlResp [] (Some p) \<and> hasNextPage p \<and>
      serves e (Suc t) (nextCursor p) (q # ps))"

text \<open>The cursors the pages are asked after, and the active nodes of the pages in order.\<close>

fun cursorsOf :: "string option \<Rightarrow> page list \<Rightarrow> string option list" where
  "cursorsOf after [] = []"
| "cursorsOf after (p # ps) = after # cursorsOf (nextCursor p) ps"

definition activeNodes :: "page list \<Rightarrow> location list" where
  "activeNodes ps = filter isActive (concat (map (\<lambda>p. map node (edges p)) ps))"


text \<open>
  A geocoding task run on its own, and the number of steps a task may still need: one
  for each request that can follow, and one for each continuation of
  \<^verbatim>\<open>geocodeShopifyLocation\<close>.
\<close>

fun geoSettle :: "nat \<Rightarrow> env \<Rightarrow> geo_task \<Rightarrow> state \<Rightarrow> geo_task \<times> state" where
  "geoSettle 0 e t st = (t, st)"
| "geoSettle (Suc n) e t st = (case geoStep e t st of (t', st1) \<Rightarrow> geoSettle n e t' st1)"

fun geoRank :: "geo_task \<Rightarrow> nat" where
  "geoRank (AwaitGoogle original n) = 3"
| "geoRank (AwaitOsmStructured original n) = 2"
| "geoRank (AwaitOsmFreeform original n) = 1"
| "geoRank (GeoDone r) = 0"

fun locRank :: "loc_task \<Rightarrow> nat" where
  "locRank (AwaitFull loc t) = 5 + geoRank t"
| "locRank (AwaitZip loc t) = 1 + geoRank t"
| "locRank (Settled how g) = 0"

text \<open>
  An engine computing in doubles, as far as ECMAScript fixes it: results are rounded by
  \<open>fl\<close>, \<^verbatim>\<open>Math.PI\<close> is the double nearest to \<open>\<pi>\<close>, the functions are exact at zero, and a
  cosine is no larger than 1 in magnitude. Exact arithmetic is the other instance: no
  rounding, and the real functions.
\<close>

definition conforming :: "math \<Rightarrow> bool" where
  "conforming m =
     (rnd m = fl \<and> Math_PI m = 884279719003555 / 2 ^ 48 \<and>
      Math_sin m 0 = 0 \<and> Math_sqrt m 0 = 0 \<and> Math_asin m 0 = 0 \<and> Math_pow2 m 0 = Fin 0 \<and>
      (\<forall>x. \<bar>Math_cos m x\<bar> \<le> 1))"



section \<open>Worked examples\<close>

text \<open>
  An engine for the examples. Arithmetic is in doubles. \<^verbatim>\<open>Math.sin\<close>, \<^verbatim>\<open>Math.cos\<close> and
  \<^verbatim>\<open>Math.sqrt\<close> return, at the arguments the second example reaches, the doubles listed
  here, which are the ones the C library's functions return there (each is within a
  third of a unit in the last place of the mathematical value, so it is also the
  correctly rounded one); elsewhere they return the mathematical value rounded to a
  double. \<^verbatim>\<open>x ** 2\<close> is the rounded product.
\<close>

definition nearest :: "real \<Rightarrow> real" where
  "nearest x = (case fl x of Fin y \<Rightarrow> y | _ \<Rightarrow> 0)"

definition sinTable :: "(real \<times> real) list" where
  "sinTable = [(2985698950671831 / 2 ^ 52, 1385872974839969 / 2 ^ 51),
               (- (1768559438989643 / 2 ^ 50), - 1)]"

definition cosTable :: "(real \<times> real) list" where
  "cosTable = [(- (1492849471405783 / 2 ^ 51), 7099248982372129 / 2 ^ 53),
               (1492849479266047 / 2 ^ 51, 1774812240755423 / 2 ^ 51)]"

definition sqrtTable :: "(real \<times> real) list" where
  "sqrtTable = [(2251799813685249 / 2 ^ 51, 4503599627370497 / 2 ^ 52)]"

definition libm :: math where
  "libm = \<lparr>rnd = fl, Math_PI = 884279719003555 / 2 ^ 48,
            Math_sin = (\<lambda>x. case map_of sinTable x of Some y \<Rightarrow> y | None \<Rightarrow> nearest (sin x)),
            Math_cos = (\<lambda>x. case map_of cosTable x of Some y \<Rightarrow> y | None \<Rightarrow> nearest (cos x)),
            Math_sqrt = (\<lambda>x. case map_of sqrtTable x of Some y \<Rightarrow> y | None \<Rightarrow> nearest (sqrt x)),
            Math_asin = (\<lambda>x. nearest (arcsin x)),
            Math_pow2 = (\<lambda>x. fl (x * x))\<rparr>"

text \<open>
  First example: a shop with three locations on two pages. Google is unreachable for the
  postcode 2000 and has no match for anything else; Nominatim knows the postcode 2000
  and the address of the first location, both at the same point. The answers for the
  third location arrive first.
\<close>

definition init :: state where
  "init = \<lparr>geocodeCache = Map.empty, locationGeoCache = Map.empty,
           shopifyLocationsCache = Map.empty, calls = []\<rparr>"

definition econnreset :: exn where
  "econnreset = \<lparr>exn_message = ''socket hang up'', exn_code = Some ''ECONNRESET'', exn_status = None\<rparr>"

definition demoGoogle :: "nat \<Rightarrow> google_params \<Rightarrow> google_response" where
  "demoGoogle t p =
     (case p of
        GComponents k c \<Rightarrow>
          if c = ''postal_code:2000|country:AU'' then GoogleThrew econnreset
          else GoogleData \<lparr>g_status = ''ZERO_RESULTS'', error_message = None, results = []\<rparr>
      | GAddress k a r \<Rightarrow>
          GoogleData \<lparr>g_status = ''REQUEST_DENIED'', error_message = Some ''bad key'', results = []\<rparr>)"

definition sydney :: osm_item where
  "sydney = \<lparr>osm_lat = - 34, osm_lon = 151, display_name = ''Sydney NSW 2000''\<rparr>"

definition demoOsm :: "nat \<Rightarrow> osm_params \<Rightarrow> osm_response" where
  "demoOsm t p =
     (case p of
        OsmStructured pc c \<Rightarrow> if pc = ''2000'' then OsmArray [sydney] else OsmArray []
      | OsmFreeform q cc \<Rightarrow> if q = ''1 George St, Sydney, 2000'' then OsmArray [sydney] else OsmArray [])"

definition storeA :: location where
  "storeA = \<lparr>loc_id = ''A'', loc_name = ''George St'', isActive = True, fulfillsOnlineOrders = False,
             loc_address = Some \<lparr>address1 = Some ''1 George St'', address2 = None, city = Some ''Sydney'',
                                  province = Some [], country = None, zipCode = Some ''2000''\<rparr>\<rparr>"

definition storeB :: location where
  "storeB = \<lparr>loc_id = ''B'', loc_name = ''Closed'', isActive = False, fulfillsOnlineOrders = True,
             loc_address = None\<rparr>"

definition storeC :: location where
  "storeC = \<lparr>loc_id = ''C'', loc_name = ''Nowhere'', isActive = True, fulfillsOnlineOrders = True,
             loc_address = Some \<lparr>address1 = None, address2 = None, city = Some [],
                                  province = None, country = None, zipCode = Some ''0000''\<rparr>\<rparr>"

definition page1 :: page where
  "page1 = \<lparr>edges = [\<lparr>cursor = ''c1'', node = storeA\<rparr>, \<lparr>cursor = ''c2'', node = storeB\<rparr>],
            hasNextPage = True\<rparr>"

definition page2 :: page where
  "page2 = \<lparr>edges = [\<lparr>cursor = ''c3'', node = storeC\<rparr>], hasNextPage = False\<rparr>"

definition demoLocations :: "nat \<Rightarrow> nat \<Rightarrow> string option \<Rightarrow> page option gql_response" where
  "demoLocations t n after =
     (if after = None then GqlResp [] (Some page1)
      else if after = Some ''c2'' then GqlResp [] (Some page2)
      else GqlResp [''bad cursor''] None)"

definition demoInvItem :: "nat \<Rightarrow> string \<Rightarrow> string option gql_response" where
  "demoInvItem t gid =
     (if gid = ''gid://shopify/ProductVariant/42'' then GqlResp [] (Some ''item7'') else GqlResp [] None)"

definition demoLevels :: "nat \<Rightarrow> string \<Rightarrow> level list gql_response" where
  "demoLevels t gid =
     GqlResp [] [\<lparr>quantities = Some [(''incoming'', 9), (''available'', 5)], level_location = ''A''\<rparr>]"

definition demoEnv :: "string option \<Rightarrow> env" where
  "demoEnv mode =
     \<lparr>cfg = \<lparr>GOOGLE_MAPS_KEY = Some ''k'', DEFAULT_RADIUS_KM = None, GEOCODER_MODE = mode\<rparr>,
      google = demoGoogle, osm = demoOsm, gqlLocations = demoLocations,
      gqlInvItem = demoInvItem, gqlLevels = demoLevels, numToString = (\<lambda>r. ''?''),
      arith = libm, arrivals = [1, 0, 1]\<rparr>"

definition demoReq :: pickup_request where
  "demoReq = \<lparr>pincode = JStr ''2000'', variantId = JNum (Fin 42), radiusKm = JNull, shop = ''demo''\<rparr>"

text \<open>The response to \<open>demoReq\<close>: the first location is at the pincode's point, the second
  is inactive, the third cannot be geocoded.\<close>

definition demoResult :: pickup_result where
  "demoResult =
     \<lparr>input = \<lparr>in_pincode = JStr ''2000'',
                geocoded = \<lparr>lat = - 34, lng = 151, formatted = ''Sydney NSW 2000''\<rparr>,
                in_radiusKm = 0,
                in_variantId = JNum (Fin 42),
                inventoryItemGid = Some ''item7''\<rparr>,
      inRadius = [\<lparr>locationId = ''A'', name = ''George St'',
                   address = \<lparr>postal = loc_address storeA, addr_formatted = ''Sydney NSW 2000''\<rparr>,
                   coordinates = \<lparr>lat = - 34, lng = 151\<rparr>,
                   distanceKm = Fin 0, available = Some 5, status = ''instock''\<rparr>],
      outOfRadius = []\<rparr>"

text \<open>
  Second example: a shop with two locations, in mode \<^verbatim>\<open>"osm"\<close>. The pincode 5291 is
  geocoded to \<open>(-37.984715, 140.6424807)\<close>; the second location is at that point, and the
  first is at \<open>(37.9847152, -39.3575194)\<close>, within centimetres of the opposite point of the
  globe. The coordinates are written as the doubles these decimals denote. The request
  asks for a radius of 25000 km, more than half the circumference of the Earth.
\<close>

definition pinPoint :: osm_item where
  "pinPoint = \<lparr>osm_lat = - (5345873384992953 / 2 ^ 47), osm_lon = 4948417372445173 / 2 ^ 45,
                display_name = ''Port MacDonnell SA 5291''\<rparr>"

definition antipode :: osm_item where
  "antipode = \<lparr>osm_lat = 2672936706570225 / 2 ^ 46, osm_lon = - (86548100441439 / 2 ^ 41),
                display_name = ''North Atlantic''\<rparr>"

definition farOsm :: "nat \<Rightarrow> osm_params \<Rightarrow> osm_response" where
  "farOsm t p =
     (case p of
        OsmStructured pc c \<Rightarrow> if pc = ''5291'' then OsmArray [pinPoint] else OsmArray []
      | OsmFreeform q cc \<Rightarrow>
          if q = ''Platform 7, North Atlantic'' then OsmArray [antipode]
          else if q = ''1 Sea Pde, Port MacDonnell'' then OsmArray [pinPoint]
          else OsmArray [])"

definition storeD :: location where
  "storeD = \<lparr>loc_id = ''D'', loc_name = ''Platform 7'', isActive = True, fulfillsOnlineOrders = True,
             loc_address = Some \<lparr>address1 = Some ''Platform 7'', address2 = None,
                                  city = Some ''North Atlantic'', province = None, country = None,
                                  zipCode = None\<rparr>\<rparr>"

definition storeE :: location where
  "storeE = \<lparr>loc_id = ''E'', loc_name = ''Sea Parade'', isActive = True, fulfillsOnlineOrders = True,
             loc_address = Some \<lparr>address1 = Some ''1 Sea Pde'', address2 = None,
                                  city = Some ''Port MacDonnell'', province = None, country = None,
                                  zipCode = None\<rparr>\<rparr>"

definition farLocations :: "nat \<Rightarrow> nat \<Rightarrow> string option \<Rightarrow> page option gql_response" where
  "farLocations t n after =
     GqlResp [] (Some \<lparr>edges = [\<lparr>cursor = ''d'', node = storeD\<rparr>, \<lparr>cursor = ''e'', node = storeE\<rparr>],
                       hasNextPage = False\<rparr>)"

definition farEnv :: env where
  "farEnv =
     \<lparr>cfg = \<lparr>GOOGLE_MAPS_KEY = None, DEFAULT_RADIUS_KM = None, GEOCODER_MODE = Some ''osm''\<rparr>,
      google = demoGoogle, osm = farOsm, gqlLocations = farLocations,
      gqlInvItem = demoInvItem, gqlLevels = demoLevels, numToString = (\<lambda>r. ''?''),
      arith = libm, arrivals = [1, 0, 0, 1]\<rparr>"

definition farReq :: pickup_request where
  "farReq = \<lparr>pincode = JStr ''5291'', variantId = JUndefined, radiusKm = JNum (Fin 25000), shop = ''far''\<rparr>"

text \<open>The response to \<open>farReq\<close>: the second location, and nothing for the first.\<close>

definition farResult :: pickup_result where
  "farResult =
     \<lparr>input = \<lparr>in_pincode = JStr ''5291'',
                geocoded = \<lparr>lat = - (5345873384992953 / 2 ^ 47), lng = 4948417372445173 / 2 ^ 45,
                            formatted = ''Port MacDonnell SA 5291''\<rparr>,
                in_radiusKm = 25000,
                in_variantId = JNull,
                inventoryItemGid = None\<rparr>,
      inRadius = [\<lparr>locationId = ''E'', name = ''Sea Parade'',
                   address = \<lparr>postal = loc_address storeE, addr_formatted = ''Port MacDonnell SA 5291''\<rparr>,
                   coordinates = \<lparr>lat = - (5345873384992953 / 2 ^ 47), lng = 4948417372445173 / 2 ^ 45\<rparr>,
                   distanceKm = Fin 0, available = None, status = ''unknown''\<rparr>],
      outOfRadius = []\<rparr>"

section \<open>Auxiliary facts\<close>

subsection \<open>Rounding\<close>

lemma binade_eq:
  assumes "- 1022 \<le> e" "e \<le> 1023" "2 powi e \<le> a" "a < 2 powi (e + 1)"
  shows "binade a = e"
proof -
  have "2 powi (- 1022) \<le> (2::real) powi e"
    using assms(1) by (intro power_int_increasing) simp_all
  with assms(3) have n: "\<not> a < 2 powi (- 1022)" by linarith
  have "Max (Set.filter (\<lambda>k. 2 powi k \<le> a) {- 1022 .. 1023}) = e"
  proof (rule Max_eqI)
    show "finite (Set.filter (\<lambda>k. 2 powi k \<le> a) {- 1022 .. 1023})"
      by (rule finite_subset [of _ "{- 1022 .. 1023}"]) auto
    show "e \<in> Set.filter (\<lambda>k. 2 powi k \<le> a) {- 1022 .. 1023}"
      using assms by simp
    fix k assume "k \<in> Set.filter (\<lambda>k. 2 powi k \<le> a) {- 1022 .. 1023}"
    then have k: "2 powi k \<le> a" by simp
    show "k \<le> e"
    proof (rule ccontr)
      assume "\<not> k \<le> e"
      then have "e + 1 \<le> k" by simp
      then have "(2::real) powi (e + 1) \<le> 2 powi k"
        by (intro power_int_increasing) simp_all
      with k assms(4) show False by linarith
    qed
  qed
  with n show ?thesis by (simp add: binade_def)
qed

lemma fl_pos:
  assumes "- 1022 \<le> e" "e \<le> 1023" "2 powi e \<le> a" "a < 2 powi (e + 1)"
    and "rne (a / 2 powi (e - 52)) = n" and "of_int n * 2 powi (e - 52) = v" and "v < 2 ^ 1024"
  shows "fl a = Fin v"
proof -
  have "0 < (2::real) powi e" by simp
  with assms(3) have a: "0 < a" by linarith
  have "(2::real) powi (e + 1) \<le> 2 powi 1024"
    using assms(2) by (intro power_int_increasing) simp_all
  with assms(4) have "a < 2 ^ 1024" by simp
  with a assms binade_eq [OF assms(1-4)] show ?thesis
    by (simp add: fl_def Let_def)
qed


lemma fl_minus: "fl (- x) = jneg (fl x)"
  by (simp add: fl_def Let_def)

lemma fl_neg:
  assumes "- 1022 \<le> e" "e \<le> 1023" "2 powi e \<le> a" "a < 2 powi (e + 1)"
    and "rne (a / 2 powi (e - 52)) = n" and "of_int n * 2 powi (e - 52) = v" and "v < 2 ^ 1024"
  shows "fl (- a) = Fin (- v)"
  using fl_pos [OF assms] by (simp add: fl_minus)

lemma binade_range:
  assumes "a < 2 ^ 1024"
  shows "- 1022 \<le> binade a \<and> binade a \<le> 1023 \<and> a < 2 powi (binade a + 1)"
proof (cases "a < 2 powi (- 1022)")
  case True
  have "(2::real) powi (- 1022) \<le> 2 powi (- 1021)"
    by (intro power_int_increasing) simp_all
  with True show ?thesis by (simp add: binade_def)
next
  case False
  let ?S = "Set.filter (\<lambda>k. 2 powi k \<le> a) {- 1022 .. 1023}"
  have fin: "finite ?S"
    by (rule finite_subset [of _ "{- 1022 .. 1023}"]) auto
  have ne: "?S \<noteq> {}"
    using False by (auto intro!: exI [of _ "- 1022"])
  have b: "binade a = Max ?S"
    using False by (simp add: binade_def)
  from Max_in [OF fin ne] have m: "- 1022 \<le> Max ?S" "Max ?S \<le> 1023"
    by auto
  have "a < 2 powi (Max ?S + 1)"
  proof (cases "Max ?S = 1023")
    case True
    with assms show ?thesis by simp
  next
    case neq: False
    show ?thesis
    proof (rule ccontr)
      assume "\<not> a < 2 powi (Max ?S + 1)"
      with m neq have "Max ?S + 1 \<in> ?S" by simp
      from Max_ge [OF fin this] show False by simp
    qed
  qed
  with m b show ?thesis by simp
qed

lemma binade_less:
  assumes "0 \<le> a" "a < 2 powi k" "- 1022 < k" "k \<le> 1024"
  shows "binade a < k"
proof (cases "a < 2 powi (- 1022)")
  case True
  with assms show ?thesis by (simp add: binade_def)
next
  case False
  let ?S = "Set.filter (\<lambda>k. 2 powi k \<le> a) {- 1022 .. 1023}"
  have fin: "finite ?S"
    by (rule finite_subset [of _ "{- 1022 .. 1023}"]) auto
  have ne: "?S \<noteq> {}"
    using False by (auto intro!: exI [of _ "- 1022"])
  from Max_in [OF fin ne] have "2 powi (Max ?S) \<le> a" by simp
  with assms(2) have "(2::real) powi (Max ?S) < 2 powi k" by linarith
  have "Max ?S < k"
  proof (rule ccontr)
    assume "\<not> Max ?S < k"
    then have "(2::real) powi k \<le> 2 powi (Max ?S)"
      by (intro power_int_increasing) simp_all
    with \<open>(2::real) powi (Max ?S) < 2 powi k\<close> show False by linarith
  qed
  with False show ?thesis by (simp add: binade_def)
qed

lemma rne_bounds:
  assumes "0 \<le> m" "m \<le> of_int N"
  shows "0 \<le> rne m \<and> rne m \<le> N"
proof -
  have f0: "0 \<le> \<lfloor>m\<rfloor>" using assms(1) by simp
  have fN: "\<lfloor>m\<rfloor> \<le> N" using assms(2) by (simp add: floor_le_iff)
  show ?thesis
  proof (cases "m = of_int \<lfloor>m\<rfloor>")
    case True
    then have "m - of_int \<lfloor>m\<rfloor> < 1 / 2" by simp
    then have "rne m = \<lfloor>m\<rfloor>" by (simp add: rne_def Let_def)
    with f0 fN show ?thesis by simp
  next
    case False
    then have "of_int \<lfloor>m\<rfloor> < m" using of_int_floor_le [of m] by linarith
    with assms(2) have "of_int \<lfloor>m\<rfloor> < (of_int N :: real)" by linarith
    then have "\<lfloor>m\<rfloor> < N" by simp
    then have "\<lfloor>m\<rfloor> + 1 \<le> N" by simp
    moreover have "rne m = \<lfloor>m\<rfloor> \<or> rne m = \<lfloor>m\<rfloor> + 1"
      by (simp add: rne_def Let_def)
    ultimately show ?thesis using f0 by auto
  qed
qed

lemma fl_le_pow2:
  assumes "\<bar>x\<bar> \<le> 2 powi k" "- 1022 < k" "k \<le> 1023"
  shows "\<exists>y. fl x = Fin y \<and> \<bar>y\<bar> \<le> 2 powi k"
proof (cases "x = 0")
  case True
  then show ?thesis by (simp add: fl_def)
next
  case False
  define a where "a = \<bar>x\<bar>"
  define e where "e = binade a"
  define q :: real where "q = 2 powi (e - 52)"
  define v where "v = of_int (rne (a / q)) * q"
  have a0: "0 < a" using False by (simp add: a_def)
  have "(2::real) powi k \<le> 2 powi 1023"
    using assms(3) by (intro power_int_increasing) simp_all
  then have k1023: "(2::real) powi k \<le> 2 ^ 1023" by simp
  with assms(1) have a1024: "a < 2 ^ 1024" by (simp add: a_def)
  have q0: "0 < q" by (simp add: q_def)
  have v0: "0 \<le> v"
    using rne_bounds [of "a / q" "\<lceil>a / q\<rceil>"] a0 q0 by (simp add: v_def)
  have vk: "v \<le> 2 powi k"
  proof (cases "a = 2 powi k")
    case True
    have "(2::real) powi (k + 1) = 2 powi k * 2"
      by (rule power_int_add_1) simp
    then have "(2::real) powi k < 2 powi (k + 1)" by simp
    then have "binade a = k"
      using assms(2,3) by (intro binade_eq) (simp_all add: True)
    then have "a / q = 2 powi 52"
      by (simp add: q_def e_def True power_int_diff)
    then have "a / q = of_int (2 ^ 52)" by simp
    then have "rne (a / q) = 2 ^ 52"
      unfolding rne_def Let_def by (simp del: of_int_numeral of_int_power)
    then have "v = 2 ^ 52 * q" by (simp add: v_def)
    also have "\<dots> = 2 powi k"
      using \<open>binade a = k\<close> by (simp add: q_def e_def power_int_diff)
    finally show ?thesis by simp
  next
    case neq: False
    with assms(1) have lt: "a < 2 powi k" by (simp add: a_def)
    from binade_less [OF _ lt assms(2)] a0 assms(3) have ek: "e + 1 \<le> k" by (simp add: e_def)
    from binade_range [OF a1024] have "a < 2 powi (e + 1)" by (simp add: e_def)
    then have "a / q < 2 powi (e + 1) / q" using q0 by (simp add: divide_strict_right_mono)
    also have "2 powi (e + 1) / q = 2 powi 53"
      by (simp add: q_def power_int_diff power_int_add)
    finally have "a / q \<le> of_int (2 ^ 53)" by simp
    from rne_bounds [OF _ this] a0 q0 have "rne (a / q) \<le> 2 ^ 53" by simp
    then have "(of_int (rne (a / q)) :: real) \<le> of_int (2 ^ 53)" by (rule of_int_le_iff [THEN iffD2])
    then have "v \<le> 2 ^ 53 * q" using q0 by (simp add: v_def)
    also have "2 ^ 53 * q = 2 powi (e + 1)"
      by (simp add: q_def power_int_diff power_int_add)
    also have "\<dots> \<le> 2 powi k" using ek by (intro power_int_increasing) simp_all
    finally show ?thesis .
  qed
  with k1023 have v1024: "\<not> 2 ^ 1024 \<le> v" by simp
  have "fl x = Fin (if 0 < x then v else - v)"
    using False a1024 v1024 by (simp add: fl_def Let_def a_def [symmetric] e_def [symmetric]
        q_def [symmetric] v_def [symmetric])
  with v0 vk show ?thesis by auto
qed

lemma fl_eval:
  assumes "- 1022 \<le> e" "e \<le> 1023" "2 powi e \<le> \<bar>x\<bar>" "\<bar>x\<bar> < 2 powi (e + 1)"
    and "rne (\<bar>x\<bar> / 2 powi (e - 52)) = n"
    and "(if 0 < x then 1 else - 1) * (of_int n * 2 powi (e - 52)) = v"
    and "\<bar>v\<bar> < 2 ^ 1024"
  shows "fl x = Fin v"
proof (cases "0 < x")
  case True
  with assms show ?thesis
    by (intro fl_pos [where e = e and n = n]) simp_all
next
  case False
  have "0 < (2::real) powi e" by simp
  with assms(3) False have neg: "x < 0" by linarith
  then have "fl (- \<bar>x\<bar>) = Fin (- (of_int n * 2 powi (e - 52)))"
    using assms by (intro fl_neg [where e = e and n = n]) auto
  with neg assms(6) show ?thesis by simp
qed

lemma fl_0: "fl 0 = Fin 0"
  by (simp add: fl_def)

subsection \<open>Arithmetic\<close>

lemma jmul_NaN: "jmul r x NaN = NaN" "jmul r NaN y = NaN"
  by (cases x) simp_all


subsection \<open>Geocoding\<close>

lemma googleStep_error:
  "googleStep e mode key original st = (Some (Inl err), st1) \<Longrightarrow>
     mode = ''google'' \<and> geocodeCache st1 = geocodeCache st \<and>
     locationGeoCache st1 = locationGeoCache st \<and>
     shopifyLocationsCache st1 = shopifyLocationsCache st \<and>
     calls st1 = calls st @ [GoogleCall (googleParams (cfg e) original)] \<and>
     ((\<exists>m. err = Thrown m) \<or> (\<exists>r. err = GeocodeProviderError ''google'' r original))"
  by (auto simp: googleStep_def googleAnswer_def callGoogle_def Let_def
      split: google_response.splits if_splits option.splits sum.splits)

lemma googleStep_none:
  "googleStep e mode key original st = (None, st1) \<Longrightarrow>
     mode \<noteq> ''google'' \<and> st1 = st\<lparr>calls := calls st @ [GoogleCall (googleParams (cfg e) original)]\<rparr>"
  by (auto simp: googleStep_def googleAnswer_def callGoogle_def Let_def
      split: google_response.splits if_splits option.splits sum.splits)

lemma googleStep_ok:
  "googleStep e mode key original st = (Some (Inr g), st1) \<Longrightarrow>
     st1 = cacheOk key g (st\<lparr>calls := calls st @ [GoogleCall (googleParams (cfg e) original)]\<rparr>)"
  by (auto simp: googleStep_def googleAnswer_def callGoogle_def Let_def
      split: google_response.splits if_splits option.splits sum.splits)

lemma osmSteps_error:
  "osmSteps e key original st = (Inl err, st1) \<Longrightarrow>
     err = GeocodeNoResultError original \<and> geocodeCache st1 = geocodeCache st \<and>
     locationGeoCache st1 = locationGeoCache st \<and>
     shopifyLocationsCache st1 = shopifyLocationsCache st"
  by (auto simp: osmSteps_def callOsm_def split: if_splits option.splits prod.splits)

lemma osmSteps_ok:
  "osmSteps e key original st = (Inr g, st1) \<Longrightarrow>
     geocodeCache st1 = (geocodeCache st)(key \<mapsto> g) \<and>
     locationGeoCache st1 = locationGeoCache st \<and>
     shopifyLocationsCache st1 = shopifyLocationsCache st"
  by (auto simp: osmSteps_def callOsm_def cacheOk_def split: if_splits option.splits prod.splits)

lemma osmSteps_calls:
  "length (calls st) < length (calls (snd (osmSteps e key original st)))"
  by (auto simp: osmSteps_def callOsm_def cacheOk_def split: if_splits option.splits prod.splits)

lemma geocode_error:
  assumes "geocode e q st = (Inl err, st1)"
  shows "geocodeCache st1 = geocodeCache st \<and> locationGeoCache st1 = locationGeoCache st \<and>
         shopifyLocationsCache st1 = shopifyLocationsCache st \<and>
         geocodeCache st (''geo:'' @ trim q) = None \<and>
         err \<noteq> PincodeRequired \<and> (\<forall>p. err \<noteq> InvalidPincodeError p)"
proof (cases "geocodeCache st (''geo:'' @ trim q)")
  case (Some g)
  with assms show ?thesis by (simp add: geocode_def Let_def)
next
  case None
  show ?thesis
  proof (cases "geocoderMode (cfg e) = ''osm''")
    case True
    with None assms have "osmSteps e (''geo:'' @ trim q) (trim q) st = (Inl err, st1)"
      by (simp add: geocode_def Let_def)
    from osmSteps_error [OF this] None show ?thesis by simp
  next
    case False
    obtain r st0 where g: "googleStep e (geocoderMode (cfg e)) (''geo:'' @ trim q) (trim q) st = (r, st0)"
      by (cases "googleStep e (geocoderMode (cfg e)) (''geo:'' @ trim q) (trim q) st")
    show ?thesis
    proof (cases r)
      case None': None
      with g False None assms have "osmSteps e (''geo:'' @ trim q) (trim q) st0 = (Inl err, st1)"
        by (simp add: geocode_def Let_def)
      from osmSteps_error [OF this] googleStep_none [OF g [unfolded None']] None show ?thesis
        by simp
    next
      case (Some x)
      with g False None assms have "x = Inl err" "st0 = st1"
        by (simp_all add: geocode_def Let_def)
      with g Some have "googleStep e (geocoderMode (cfg e)) (''geo:'' @ trim q) (trim q) st = (Some (Inl err), st1)"
        by simp
      from googleStep_error [OF this] None show ?thesis by auto
    qed
  qed
qed

lemma geocode_ok:
  assumes "geocode e q st = (Inr g, st1)"
  shows "geocodeCache st1 = (geocodeCache st)(''geo:'' @ trim q \<mapsto> g) \<and>
         locationGeoCache st1 = locationGeoCache st \<and>
         shopifyLocationsCache st1 = shopifyLocationsCache st"
proof (cases "geocodeCache st (''geo:'' @ trim q)")
  case (Some g')
  with assms have "g' = g" "st1 = st" by (simp_all add: geocode_def Let_def)
  with Some show ?thesis by (auto simp: fun_upd_idem)
next
  case None
  show ?thesis
  proof (cases "geocoderMode (cfg e) = ''osm''")
    case True
    with None assms have "osmSteps e (''geo:'' @ trim q) (trim q) st = (Inr g, st1)"
      by (simp add: geocode_def Let_def)
    from osmSteps_ok [OF this] show ?thesis by simp
  next
    case False
    obtain r st0 where gs: "googleStep e (geocoderMode (cfg e)) (''geo:'' @ trim q) (trim q) st = (r, st0)"
      by (cases "googleStep e (geocoderMode (cfg e)) (''geo:'' @ trim q) (trim q) st")
    show ?thesis
    proof (cases r)
      case None': None
      with gs False None assms have "osmSteps e (''geo:'' @ trim q) (trim q) st0 = (Inr g, st1)"
        by (simp add: geocode_def Let_def)
      from osmSteps_ok [OF this] googleStep_none [OF gs [unfolded None']] show ?thesis
        by simp
    next
      case (Some x)
      with gs False None assms have "x = Inr g" "st0 = st1"
        by (simp_all add: geocode_def Let_def)
      with gs Some have "googleStep e (geocoderMode (cfg e)) (''geo:'' @ trim q) (trim q) st = (Some (Inr g), st1)"
        by simp
      from googleStep_ok [OF this] show ?thesis by (simp add: cacheOk_def)
    qed
  qed
qed

lemma geocode_calls_on_miss:
  assumes "geocodeCache st (''geo:'' @ trim q) = None"
  shows "length (calls st) < length (calls (snd (geocode e q st)))"
proof (cases "geocoderMode (cfg e) = ''osm''")
  case True
  with assms show ?thesis by (simp add: geocode_def Let_def osmSteps_calls)
next
  case False
  obtain r st0 where gs: "googleStep e (geocoderMode (cfg e)) (''geo:'' @ trim q) (trim q) st = (r, st0)"
    by (cases "googleStep e (geocoderMode (cfg e)) (''geo:'' @ trim q) (trim q) st")
  show ?thesis
  proof (cases r)
    case None
    from googleStep_none [OF gs [unfolded None]] have "length (calls st) < length (calls st0)" by simp
    also have "\<dots> < length (calls (snd (osmSteps e (''geo:'' @ trim q) (trim q) st0)))"
      by (rule osmSteps_calls)
    finally show ?thesis using gs None False assms by (simp add: geocode_def Let_def)
  next
    case (Some x)
    have "length (calls st) < length (calls st0)"
    proof (cases x)
      case (Inl err)
      from googleStep_error [OF gs [unfolded Some Inl]] show ?thesis by simp
    next
      case (Inr g)
      from googleStep_ok [OF gs [unfolded Some Inr]] show ?thesis by (simp add: cacheOk_def)
    qed
    then show ?thesis using gs Some False assms by (simp add: geocode_def Let_def)
  qed
qed


subsection \<open>The location list\<close>

lemma fetchLoop_result:
  "fetchLoop e after acc st = Some y \<Longrightarrow>
     (\<forall>err. fst y = Inl err \<longrightarrow> (\<exists>m. err = Thrown m) \<or> (\<exists>ms. err = ShopifyGQLError ms)) \<and>
     (\<forall>locs. fst y = Inr locs \<longrightarrow> (\<forall>l \<in> set acc. isActive l) \<longrightarrow> (\<forall>l \<in> set locs. isActive l))"
proof (induction rule: fetchLoop.raw_induct [rotated 1, consumes 1])
  case (1 f e after acc st y)
  note IH = "1"(1) and eq = "1"(2)
  let ?st1 = "st\<lparr>calls := calls st @ [GqlLocations 100 after]\<rparr>"
  show ?case
  proof (cases "gqlLocations e (length (calls st)) 100 after")
    case (GqlThrew m)
    with eq have "y = (Inl (Thrown m), ?st1)" by (simp add: postLocations_def)
    then show ?thesis by simp
  next
    case (GqlResp errs d)
    show ?thesis
    proof (cases "errs = []")
      case False
      with eq GqlResp have "y = (Inl (ShopifyGQLError errs), ?st1)" by (simp add: postLocations_def)
      then show ?thesis by simp
    next
      case True
      define es where "es = (case d of None \<Rightarrow> [] | Some p \<Rightarrow> edges p)"
      define acc' where "acc' = acc @ filter isActive (map node es)"
      have acc': "(\<forall>l \<in> set acc. isActive l) \<Longrightarrow> (\<forall>l \<in> set acc'. isActive l)"
        by (auto simp: acc'_def)
      show ?thesis
      proof (cases "case d of None \<Rightarrow> False | Some p \<Rightarrow> hasNextPage p")
        case False
        with eq GqlResp True have "y = (Inr acc', ?st1)"
          by (simp add: postLocations_def Let_def acc'_def es_def)
        with acc' show ?thesis by simp
      next
        case hn: True
        with eq GqlResp True
        have "f e (if es \<noteq> [] then Some (cursor (last es)) else None) acc' ?st1 = Some y"
          by (auto simp: postLocations_def Let_def acc'_def es_def split: if_splits)
        then show ?thesis using IH acc' by blast
      qed
    qed
  qed
qed

lemma fetchLoop_serves:
  "serves e (length (calls st)) after ps \<Longrightarrow>
     fetchLoop e after acc st =
       Some (Inr (acc @ activeNodes ps),
             st\<lparr>calls := calls st @ map (GqlLocations 100) (cursorsOf after ps)\<rparr>)"
proof (induction ps arbitrary: after acc st)
  case Nil
  then show ?case by simp
next
  case (Cons p ps)
  show ?case
  proof (cases ps)
    case Nil
    with Cons.prems show ?thesis
      by (subst fetchLoop.simps) (simp add: postLocations_def activeNodes_def)
  next
    case (Cons q qs)
    let ?st1 = "st\<lparr>calls := calls st @ [GqlLocations 100 after]\<rparr>"
    from Cons.prems Cons have p: "gqlLocations e (length (calls st)) 100 after = GqlResp [] (Some p)"
      "hasNextPage p" and s: "serves e (length (calls ?st1)) (nextCursor p) ps"
      by simp_all
    have "fetchLoop e after acc st =
            fetchLoop e (nextCursor p) (acc @ filter isActive (map node (edges p))) ?st1"
      using p by (subst fetchLoop.simps) (simp add: postLocations_def nextCursor_def Let_def)
    also have "\<dots> = Some (Inr ((acc @ filter isActive (map node (edges p))) @ activeNodes ps),
                 ?st1\<lparr>calls := calls ?st1 @ map (GqlLocations 100) (cursorsOf (nextCursor p) ps)\<rparr>)"
      by (rule Cons.IH [OF s])
    finally show ?thesis by (simp add: activeNodes_def)
  qed
qed



lemma fetchShopifyLocations_error:
  assumes "fetchShopifyLocations e s st = Some (Inl err, st1)"
  shows "\<not> invalidInput err"
proof -
  from assms obtain st0 where "fetchLoop e None [] st = Some (Inl err, st0)"
    by (auto simp: fetchShopifyLocations_def Let_def split: option.splits sum.splits prod.splits)
  from fetchLoop_result [OF this] show ?thesis by auto
qed

subsection \<open>Inventory\<close>

lemma inventoryFor_error:
  "inventoryFor e v st = (Inl err, st1) \<Longrightarrow> \<not> invalidInput err"
  by (auto simp: inventoryFor_def getInventoryItemIdForVariant_def getInventoryByLocation_def
      postInvItem_def postLevels_def Let_def
      split: if_splits prod.splits sum.splits gql_response.splits option.splits)

lemma inventoryFor_falsy:
  "\<not> truthy v \<Longrightarrow> inventoryFor e v st = (Inr (None, Map.empty), st)"
  by (simp add: inventoryFor_def)

subsection \<open>Validation and the effective radius\<close>

lemma falsy_not_pincodeOk: "\<not> truthy v \<Longrightarrow> \<not> pincodeOk (trim (js_String f v))"
proof (cases v)
  case (JNum n)
  assume "\<not> truthy v"
  with JNum show ?thesis
    by (cases n) (auto simp: pincodeOk_def is4_def is6_def trim_def isWhiteSpace_def isDigit_def)
next
  case (JStr s)
  assume "\<not> truthy v"
  with JStr show ?thesis
    by (simp add: pincodeOk_def is4_def is6_def trim_def)
qed (auto simp: pincodeOk_def is4_def is6_def trim_def isWhiteSpace_def isDigit_def)

lemma resolveInputs_invalid:
  assumes "\<not> pincodeOk (trim (js_String (numToString e) (pincode req)))"
  shows "\<exists>err. resolveInputs e req st = Some (Inl err, st) \<and> invalidInput err \<and>
           httpStatus err = Some 400"
  using assms by (simp add: resolveInputs_def)

lemma resolveInputs_valid:
  assumes "pincodeOk (trim (js_String (numToString e) (pincode req)))"
  shows "resolveInputs e req st =
     (case geocode e (js_String (numToString e) (pincode req)) st of
        (Inl err, st1) \<Rightarrow> Some (Inl err, st1)
      | (Inr pin, st1) \<Rightarrow>
          (case fetchShopifyLocations e (shop req) st1 of
             None \<Rightarrow> None
           | Some (Inl err, st2) \<Rightarrow> Some (Inl err, st2)
           | Some (Inr locations, st2) \<Rightarrow>
               (case inventoryFor e (variantId req) st2 of
                  (Inl err, st3) \<Rightarrow> Some (Inl err, st3)
                | (Inr (invItemGid, qtyByLoc), st3) \<Rightarrow>
                    Some (Inr \<lparr>r_RADIUS = numberOr (radiusKm req)
                                              (numberOr (JStr (defaultRadiusKm (cfg e))) 100),
                               r_pin = pin, r_locations = locations,
                               r_invItemGid = invItemGid, r_qtyByLoc = qtyByLoc\<rparr>,
                          st3))))"
  using assms falsy_not_pincodeOk [of "pincode req" "numToString e"]
  by (auto simp: resolveInputs_def Let_def)

lemma resolveInputs_valid_error:
  assumes ok: "pincodeOk (trim (js_String (numToString e) (pincode req)))"
    and r: "resolveInputs e req st = Some (Inl err, st1)"
  shows "\<not> invalidInput err"
proof -
  obtain g st0 where g: "geocode e (js_String (numToString e) (pincode req)) st = (g, st0)"
    by (cases "geocode e (js_String (numToString e) (pincode req)) st")
  show ?thesis
  proof (cases g)
    case (Inl err0)
    with g r have "err0 = err" by (simp add: resolveInputs_valid [OF ok])
    with geocode_error [OF g [unfolded Inl]] show ?thesis by (cases err) auto
  next
    case (Inr pin)
    show ?thesis
    proof (cases "fetchShopifyLocations e (shop req) st0")
      case None
      with g Inr r show ?thesis by (simp add: resolveInputs_valid [OF ok])
    next
      case (Some y)
      obtain f st2 where y: "y = (f, st2)" by (cases y)
      show ?thesis
      proof (cases f)
        case (Inl err0)
        with g Inr r Some y have "err0 = err" by (simp add: resolveInputs_valid [OF ok])
        with fetchShopifyLocations_error [OF Some [unfolded y Inl]] show ?thesis by simp
      next
        case locs: (Inr locations)
        obtain i st3 where i: "inventoryFor e (variantId req) st2 = (i, st3)"
          by (cases "inventoryFor e (variantId req) st2")
        show ?thesis
        proof (cases i)
          case (Inl err0)
          with g Inr r Some y locs i have "err0 = err" by (simp add: resolveInputs_valid [OF ok])
          with inventoryFor_error [OF i [unfolded Inl]] show ?thesis by simp
        next
          case (Inr ok')
          with g \<open>g = Inr pin\<close> r Some y locs i show ?thesis
            by (simp add: resolveInputs_valid [OF ok] split: prod.splits)
        qed
      qed
    qed
  qed
qed

lemma resolveInputs_ok:
  assumes "resolveInputs e req st = Some (Inr r, st1)"
  shows "pincodeOk (trim (js_String (numToString e) (pincode req))) \<and>
         r_RADIUS r = numberOr (radiusKm req) (numberOr (JStr (defaultRadiusKm (cfg e))) 100) \<and>
         (\<not> truthy (variantId req) \<longrightarrow> r_qtyByLoc r = Map.empty \<and> r_invItemGid r = None)"
proof -
  have ok: "pincodeOk (trim (js_String (numToString e) (pincode req)))"
    using assms resolveInputs_invalid [of e req st] by (cases ?thesis) auto
  from assms show ?thesis
    unfolding resolveInputs_valid [OF ok] using ok
    by (auto simp: inventoryFor_falsy split: prod.splits sum.splits option.splits)
qed

lemma buildPickupResponse_ok:
  assumes "buildPickupResponse e req st = Some (Inr res, st')"
  shows "\<exists>r st1 es. resolveInputs e req st = Some (Inr r, st1) \<and>
           enrichedOf e r st1 = Some (es, st') \<and> res = assemble req r es"
  using assms
  by (auto simp: buildPickupResponse_def split: option.splits sum.splits prod.splits)

lemma buildPickupResponse_error:
  "buildPickupResponse e req st = Some (Inl err, st') \<longleftrightarrow>
     resolveInputs e req st = Some (Inl err, st')"
  by (auto simp: buildPickupResponse_def split: option.splits sum.splits prod.splits)

subsection \<open>Geocoding a location\<close>

lemma geocodeShopifyLocation_stores:
  "geocodeShopifyLocation e loc st = (g, st1) \<Longrightarrow>
     locationGeoCache st1 (''loc:'' @ loc_id loc) = Some g"
  by (auto simp: geocodeShopifyLocation_def Let_def setLocationGeo_def
      split: option.splits prod.splits sum.splits if_splits)

lemma geocodeShopifyLocation_hit:
  "locationGeoCache st (''loc:'' @ loc_id loc) = Some g \<Longrightarrow>
     geocodeShopifyLocation e loc st = (g, st)"
  by (simp add: geocodeShopifyLocation_def)

lemma geocodeShopifyLocation_fails:
  assumes miss: "locationGeoCache st (''loc:'' @ loc_id loc) = None"
    and full: "geocode e (fullAddr loc) st = (Inl err, st1)"
    and zip: "present (zipOf loc) \<Longrightarrow> geocode e (the (zipOf loc)) st1 = (Inl err2, st2)"
  shows "fst (geocodeShopifyLocation e loc st) = fail \<and>
         locationGeoCache (snd (geocodeShopifyLocation e loc st)) (''loc:'' @ loc_id loc) = Some fail \<and>
         geocodeCache (snd (geocodeShopifyLocation e loc st)) = geocodeCache st"
proof (cases "present (zipOf loc)")
  case True
  from geocode_error [OF full] geocode_error [OF zip [OF True]]
  have "geocodeCache st2 = geocodeCache st" by simp
  with miss full zip [OF True] True show ?thesis
    by (simp add: geocodeShopifyLocation_def setLocationGeo_def)
next
  case False
  from geocode_error [OF full] have "geocodeCache st1 = geocodeCache st" by simp
  with miss full False show ?thesis
    by (simp add: geocodeShopifyLocation_def setLocationGeo_def)
qed

subsection \<open>The entries\<close>

lemma statusOf_cases:
  "(statusOf q = ''unknown'' \<longleftrightarrow> q = None) \<and>
   (statusOf q = ''instock'' \<longleftrightarrow> (\<exists>n. q = Some n \<and> 0 < n)) \<and>
   (statusOf q = ''outofstock'' \<longleftrightarrow> (\<exists>n. q = Some n \<and> n \<le> 0))"
  by (cases q) (auto simp: statusOf_def)

lemma filterBoolean_member: "x \<in> set (filterBoolean rs) \<longleftrightarrow> Some x \<in> set rs"
  by (induction rs) (auto simp: filterBoolean_def)

lemma filterBoolean_simps:
  "filterBoolean [] = []"
  "filterBoolean (None # rs) = filterBoolean rs"
  "filterBoolean (Some x # rs) = x # filterBoolean rs"
  by (simp_all add: filterBoolean_def)

subsection \<open>Tasks\<close>

lemma geoStart_rank: "geoRank (fst (geoStart e q st)) \<le> 3"
  by (simp add: geoStart_def osmStart_def osmFreeformStart_def Let_def split: option.splits)

lemma geoStep_rank: "geoRank t \<noteq> 0 \<Longrightarrow> geoRank (fst (geoStep e t st)) < geoRank t"
  by (cases t) (auto simp: osmStart_def osmFreeformStart_def split: option.splits sum.splits)

lemma locStep_rank: "locRank t \<noteq> 0 \<Longrightarrow> locRank (fst (locStep e t st)) < locRank t"
proof (cases t)
  case (AwaitFull loc g)
  show ?thesis
  proof (cases g)
    case (GeoDone r)
    with AwaitFull geoStart_rank [of e "the (zipOf loc)" st] show ?thesis
      by (cases r) (auto split: prod.splits)
  qed (use AwaitFull geoStep_rank [of g e st] in \<open>auto split: prod.splits\<close>)
next
  case (AwaitZip loc g)
  show ?thesis
  proof (cases g)
    case (GeoDone r)
    with AwaitZip show ?thesis by (cases r) auto
  qed (use AwaitZip geoStep_rank [of g e st] in \<open>auto split: prod.splits\<close>)
qed simp

lemma locRank_0: "locRank t = 0 \<longleftrightarrow> (\<exists>how g. t = Settled how g)"
  by (cases t) simp_all

lemma locSettle_Settled: "locSettle n e (Settled how g) st = (Settled how g, st)"
  by (induction n) simp_all

lemma locSettle_rank:
  "locRank t \<le> n \<Longrightarrow> \<exists>how g. fst (locSettle n e t st) = Settled how g"
proof (induction n arbitrary: t st)
  case 0
  then show ?case by (simp add: locRank_0)
next
  case (Suc n)
  show ?case
  proof (cases "locRank t = 0")
    case True
    then show ?thesis by (auto simp: locRank_0 locSettle_Settled)
  next
    case False
    from locStep_rank [OF False, of e st] Suc.prems
    have "locRank (fst (locStep e t st)) \<le> n" by simp
    from Suc.IH [OF this, of "snd (locStep e t st)"] show ?thesis
      by (simp add: case_prod_unfold)
  qed
qed

lemma locRank_le: "locRank t \<le> 8"
proof (cases t)
  case (AwaitFull loc g)
  then show ?thesis by (cases g) simp_all
next
  case (AwaitZip loc g)
  then show ?thesis by (cases g) simp_all
qed simp

lemma locSettle_8: "\<exists>how g. fst (locSettle 8 e t st) = Settled how g"
  by (rule locSettle_rank) (rule locRank_le)

lemma settleAll_settled:
  "length (fst (settleAll e ts st)) = length ts \<and>
   list_all (\<lambda>t. settled t \<noteq> None) (fst (settleAll e ts st))"
proof (induction ts arbitrary: st)
  case Nil
  then show ?case by simp
next
  case (Cons t ts)
  obtain t' st1 where s: "locSettle 8 e t st = (t', st1)"
    by (cases "locSettle 8 e t st")
  with locSettle_8 [of e t st] obtain how g where "t' = Settled how g" by auto
  with s Cons.IH [of st1] show ?case
    by (simp add: case_prod_unfold)
qed

lemma startAll_length: "length (fst (startAll e locs st)) = length locs"
  by (induction locs arbitrary: st) (simp_all add: case_prod_unfold)

lemma resume_length: "length (fst (resume e is ts st)) = length ts"
  by (induction "is" arbitrary: ts st) (simp_all add: case_prod_unfold)

lemma fanOut_outcomes:
  "\<exists>os. outcomes (fst (fanOut e locs st)) = Some os \<and> length os = length locs"
proof -
  obtain ts st1 where a: "startAll e locs st = (ts, st1)" by (cases "startAll e locs st")
  obtain ts' st2 where b: "resume e (arrivals e) ts st1 = (ts', st2)"
    by (cases "resume e (arrivals e) ts st1")
  from a startAll_length [of e locs st] have "length ts = length locs" by simp
  with b resume_length [of e "arrivals e" ts st1] have "length ts' = length locs" by simp
  with settleAll_settled [of e ts' st2] a b show ?thesis
    by (simp add: fanOut_def outcomes_def)
qed

lemma locStep_failed:
  assumes "\<forall>g. t = Settled Failed g \<longrightarrow> g = fail"
  shows "\<forall>g. fst (locStep e t st) = Settled Failed g \<longrightarrow> g = fail"
proof (cases t)
  case (AwaitFull loc g)
  then show ?thesis
    by (cases g; cases "case g of GeoDone r \<Rightarrow> r") (auto split: prod.splits)
next
  case (AwaitZip loc g)
  then show ?thesis
    by (cases g; cases "case g of GeoDone r \<Rightarrow> r") (auto split: prod.splits)
next
  case (Settled how g)
  with assms show ?thesis by simp
qed

lemma locSettle_failed:
  "\<forall>g. t = Settled Failed g \<longrightarrow> g = fail \<Longrightarrow>
     \<forall>g. fst (locSettle n e t st) = Settled Failed g \<longrightarrow> g = fail"
proof (induction n arbitrary: t st)
  case 0
  then show ?case by simp
next
  case (Suc n)
  from locStep_failed [OF Suc.prems, of e st]
  have "\<forall>g. fst (locStep e t st) = Settled Failed g \<longrightarrow> g = fail" .
  from Suc.IH [OF this, of "snd (locStep e t st)"] show ?case
    by (simp add: case_prod_unfold)
qed

lemma startAll_failed:
  "list_all (\<lambda>t. \<forall>g. t = Settled Failed g \<longrightarrow> g = fail) (fst (startAll e locs st))"
proof (induction locs arbitrary: st)
  case Nil
  then show ?case by simp
next
  case (Cons loc locs)
  have "\<forall>g. fst (locStart e loc st) = Settled Failed g \<longrightarrow> g = fail"
    by (auto simp: locStart_def split: option.splits prod.splits)
  with Cons.IH [of "snd (locStart e loc st)"] show ?case
    by (simp add: case_prod_unfold)
qed

lemma list_all_update: "list_all P xs \<Longrightarrow> P x \<Longrightarrow> list_all P (xs[i := x])"
  by (induction xs arbitrary: i) (auto split: nat.splits)

lemma resume_failed:
  "list_all (\<lambda>t. \<forall>g. t = Settled Failed g \<longrightarrow> g = fail) ts \<Longrightarrow>
     list_all (\<lambda>t. \<forall>g. t = Settled Failed g \<longrightarrow> g = fail) (fst (resume e is ts st))"
proof (induction "is" arbitrary: ts st)
  case Nil
  then show ?case by simp
next
  case (Cons i "is")
  show ?case
  proof (cases "i < length ts")
    case False
    with Cons show ?thesis by simp
  next
    case True
    with Cons.prems have "\<forall>g. ts ! i = Settled Failed g \<longrightarrow> g = fail"
      by (simp add: list_all_length)
    from locStep_failed [OF this, of e st]
    have "list_all (\<lambda>t. \<forall>g. t = Settled Failed g \<longrightarrow> g = fail) (ts[i := fst (locStep e (ts ! i) st)])"
      by (intro list_all_update Cons.prems)
    from Cons.IH [OF this, of "snd (locStep e (ts ! i) st)"] True show ?thesis
      by (simp add: case_prod_unfold)
  qed
qed

lemma settleAll_failed:
  "list_all (\<lambda>t. \<forall>g. t = Settled Failed g \<longrightarrow> g = fail) ts \<Longrightarrow>
     list_all (\<lambda>t. \<forall>g. t = Settled Failed g \<longrightarrow> g = fail) (fst (settleAll e ts st))"
proof (induction ts arbitrary: st)
  case Nil
  then show ?case by simp
next
  case (Cons t ts)
  from Cons.prems have "\<forall>g. t = Settled Failed g \<longrightarrow> g = fail"
    and r: "list_all (\<lambda>t. \<forall>g. t = Settled Failed g \<longrightarrow> g = fail) ts" by simp_all
  from locSettle_failed [OF this(1), of 8 e st] Cons.IH [OF r, of "snd (locSettle 8 e t st)"]
  show ?case by (simp add: case_prod_unfold)
qed

lemma fanOut_failed:
  assumes "outcomes (fst (fanOut e locs st)) = Some os" and "i < length os"
    and "fst (os ! i) = Failed"
  shows "snd (os ! i) = fail"
proof -
  have "list_all (\<lambda>t. \<forall>g. t = Settled Failed g \<longrightarrow> g = fail) (fst (fanOut e locs st))"
    unfolding fanOut_def
    using settleAll_failed [OF resume_failed [OF startAll_failed]]
    by (simp add: case_prod_unfold)
  moreover from assms(1) have os: "os = map (the \<circ> settled) (fst (fanOut e locs st))"
    and all: "list_all (\<lambda>t. settled t \<noteq> None) (fst (fanOut e locs st))"
    by (auto simp: outcomes_def split: if_splits)
  ultimately have "\<forall>g. fst (fanOut e locs st) ! i = Settled Failed g \<longrightarrow> g = fail"
    using assms(2) by (simp add: list_all_length)
  moreover from all assms(2) os obtain how g where t: "fst (fanOut e locs st) ! i = Settled how g"
    by (cases "fst (fanOut e locs st) ! i") (auto simp: list_all_length)
  ultimately show ?thesis using assms(2,3) os by simp
qed

lemma geoSettle_done: "geoSettle n e (GeoDone r) st = (GeoDone r, st)"
  by (induction n) simp_all

lemma geoSettle_numeral:
  "geoSettle (numeral k) e t st =
     (case geoStep e t st of (t', st1) \<Rightarrow> geoSettle (pred_numeral k) e t' st1)"
  by (simp add: numeral_eq_Suc)

lemma locSettle_numeral:
  "locSettle (numeral k) e t st =
     (case locStep e t st of (t', st1) \<Rightarrow> locSettle (pred_numeral k) e t' st1)"
  by (simp add: numeral_eq_Suc)

lemma geoRank_0: "geoRank t = 0 \<longleftrightarrow> (\<exists>r. t = GeoDone r)"
  by (cases t) simp_all

lemma geoSettle_more:
  "geoRank t \<le> n \<Longrightarrow> geoSettle (n + k) e t st = geoSettle n e t st"
proof (induction n arbitrary: t st)
  case 0
  then show ?case by (auto simp: geoRank_0 geoSettle_done)
next
  case (Suc n)
  show ?case
  proof (cases "geoRank t = 0")
    case True
    then show ?thesis by (auto simp: geoRank_0 geoSettle_done)
  next
    case False
    from geoStep_rank [OF False, of e st] Suc.prems
    have "geoRank (fst (geoStep e t st)) \<le> n" by simp
    from Suc.IH [OF this, of "snd (geoStep e t st)"] show ?thesis
      by (simp add: case_prod_unfold)
  qed
qed

lemma osmStart_as_task:
  "geoSettle 2 e (fst (osmStart original s)) (snd (osmStart original s))
     = (GeoDone (fst (osmSteps e (''geo:'' @ original) original s)),
        snd (osmSteps e (''geo:'' @ original) original s))"
  by (auto simp: osmStart_def osmFreeformStart_def osmSteps_def callOsm_def geoSettle_done
      geoSettle_numeral split: option.splits)

lemma geocode_as_task:
  "geoSettle 3 e (fst (geoStart e q st)) (snd (geoStart e q st))
     = (GeoDone (fst (geocode e q st)), snd (geocode e q st))"
proof (cases "geocodeCache st (''geo:'' @ trim q)")
  case (Some g)
  then show ?thesis
    by (simp add: geoStart_def geocode_def Let_def geoSettle_done)
next
  case None
  show ?thesis
  proof (cases "geocoderMode (cfg e) = ''osm''")
    case True
    have "geoRank (fst (osmStart (trim q) st)) \<le> 2"
      by (simp add: osmStart_def osmFreeformStart_def)
    from geoSettle_more [OF this, of 1 e "snd (osmStart (trim q) st)"]
    have "geoSettle 3 e (fst (osmStart (trim q) st)) (snd (osmStart (trim q) st))
            = geoSettle 2 e (fst (osmStart (trim q) st)) (snd (osmStart (trim q) st))"
      by simp
    then show ?thesis
      using None True osmStart_as_task [of e "trim q" st]
      by (simp add: geoStart_def geocode_def Let_def)
  next
    case False
    let ?st1 = "st\<lparr>calls := calls st @ [GoogleCall (googleParams (cfg e) (trim q))]\<rparr>"
    show ?thesis
      using None False osmStart_as_task [of e "trim q" ?st1]
      by (auto simp: geoStart_def geocode_def Let_def googleStep_def callGoogle_def geoSettle_done
          geoSettle_numeral split: option.splits sum.splits prod.splits)
  qed
qed

lemma locSettle_add:
  "locSettle (n + k) e t st = (case locSettle n e t st of (t', s') \<Rightarrow> locSettle k e t' s')"
  by (induction n arbitrary: t st) (simp_all add: case_prod_unfold)

lemma locSettle_after:
  assumes "locSettle k e t st = (t', s')" and "k \<le> n"
  shows "locSettle n e t st = locSettle (n - k) e t' s'"
  using locSettle_add [of k "n - k" e t st] assms by simp

lemma awaitFull_lift:
  "geoSettle n e t st = (GeoDone r, s') \<Longrightarrow>
     \<exists>k \<le> n. locSettle k e (AwaitFull loc t) st = (AwaitFull loc (GeoDone r), s')"
proof (induction n arbitrary: t st)
  case 0
  then show ?case by simp
next
  case (Suc n)
  show ?case
  proof (cases "\<exists>r0. t = GeoDone r0")
    case True
    with Suc.prems have "locSettle 0 e (AwaitFull loc t) st = (AwaitFull loc (GeoDone r), s')"
      by (auto simp: geoSettle_done)
    then show ?thesis by blast
  next
    case False
    obtain t1 s1 where g: "geoStep e t st = (t1, s1)" by (cases "geoStep e t st")
    with Suc.prems have "geoSettle n e t1 s1 = (GeoDone r, s')" by simp
    from Suc.IH [OF this] obtain k where
      k: "k \<le> n" "locSettle k e (AwaitFull loc t1) s1 = (AwaitFull loc (GeoDone r), s')"
      by blast
    from False g have "locStep e (AwaitFull loc t) st = (AwaitFull loc t1, s1)"
      by (cases t) simp_all
    with k have "locSettle (Suc k) e (AwaitFull loc t) st = (AwaitFull loc (GeoDone r), s')"
      by simp
    with k(1) show ?thesis by (metis Suc_le_mono)
  qed
qed

lemma awaitZip_lift:
  "geoSettle n e t st = (GeoDone r, s') \<Longrightarrow>
     \<exists>k \<le> n. locSettle k e (AwaitZip loc t) st = (AwaitZip loc (GeoDone r), s')"
proof (induction n arbitrary: t st)
  case 0
  then show ?case by simp
next
  case (Suc n)
  show ?case
  proof (cases "\<exists>r0. t = GeoDone r0")
    case True
    with Suc.prems have "locSettle 0 e (AwaitZip loc t) st = (AwaitZip loc (GeoDone r), s')"
      by (auto simp: geoSettle_done)
    then show ?thesis by blast
  next
    case False
    obtain t1 s1 where g: "geoStep e t st = (t1, s1)" by (cases "geoStep e t st")
    with Suc.prems have "geoSettle n e t1 s1 = (GeoDone r, s')" by simp
    from Suc.IH [OF this] obtain k where
      k: "k \<le> n" "locSettle k e (AwaitZip loc t1) s1 = (AwaitZip loc (GeoDone r), s')"
      by blast
    from False g have "locStep e (AwaitZip loc t) st = (AwaitZip loc t1, s1)"
      by (cases t) simp_all
    with k have "locSettle (Suc k) e (AwaitZip loc t) st = (AwaitZip loc (GeoDone r), s')"
      by simp
    with k(1) show ?thesis by (metis Suc_le_mono)
  qed
qed

lemma awaitZip_settle:
  assumes "geoSettle 3 e t st = (GeoDone r, s')" and "4 \<le> n"
  shows "locSettle n e (AwaitZip loc t) st = locStep e (AwaitZip loc (GeoDone r)) s'"
proof -
  from awaitZip_lift [OF assms(1)] obtain k where
    k: "k \<le> 3" "locSettle k e (AwaitZip loc t) st = (AwaitZip loc (GeoDone r), s')"
    by blast
  from k(1) assms(2) have "k \<le> n" and "n - k = Suc (n - k - 1)" by simp_all
  with locSettle_after [OF k(2), of n] have
    "locSettle n e (AwaitZip loc t) st = locSettle (Suc (n - k - 1)) e (AwaitZip loc (GeoDone r)) s'"
    by simp
  then show ?thesis
    by (cases r) (simp_all add: locSettle_Settled)
qed

lemma awaitFull_settle:
  assumes "geoSettle 3 e t st = (GeoDone r, s')"
  shows "locSettle 8 e (AwaitFull loc t) st =
           (case r of
              Inr g \<Rightarrow> (Settled Geocoded g, setLocationGeo (''loc:'' @ loc_id loc) g s')
            | Inl err \<Rightarrow>
                if present (zipOf loc) then
                  (case geocode e (the (zipOf loc)) s' of
                     (Inr g2, s2) \<Rightarrow> (Settled Geocoded g2, setLocationGeo (''loc:'' @ loc_id loc) g2 s2)
                   | (Inl err2, s2) \<Rightarrow> (Settled Failed fail, setLocationGeo (''loc:'' @ loc_id loc) fail s2))
                else (Settled Failed fail, setLocationGeo (''loc:'' @ loc_id loc) fail s'))"
proof -
  from awaitFull_lift [OF assms] obtain k where
    k: "k \<le> 3" "locSettle k e (AwaitFull loc t) st = (AwaitFull loc (GeoDone r), s')"
    by blast
  from k(1) have kn: "k \<le> 8" and d: "8 - k = Suc (7 - k)" by simp_all
  from locSettle_after [OF k(2) kn] d have
    run: "locSettle 8 e (AwaitFull loc t) st =
            (case locStep e (AwaitFull loc (GeoDone r)) s' of (t', s2) \<Rightarrow> locSettle (7 - k) e t' s2)"
    by simp
  show ?thesis
  proof (cases r)
    case (Inr g)
    with run show ?thesis by (simp add: locSettle_Settled)
  next
    case (Inl err)
    show ?thesis
    proof (cases "present (zipOf loc)")
      case False
      with run Inl show ?thesis by (simp add: locSettle_Settled)
    next
      case True
      obtain r2 s2 where zip: "geocode e (the (zipOf loc)) s' = (r2, s2)"
        by (cases "geocode e (the (zipOf loc)) s'")
      from k(1) have "4 \<le> 7 - k" by simp
      from awaitZip_settle [where loc = loc, OF geocode_as_task this, of e "the (zipOf loc)" s'] zip
      have "locSettle (7 - k) e (AwaitZip loc (fst (geoStart e (the (zipOf loc)) s')))
              (snd (geoStart e (the (zipOf loc)) s')) = locStep e (AwaitZip loc (GeoDone r2)) s2"
        by simp
      with run Inl True zip show ?thesis
        by (cases r2) (simp_all add: case_prod_unfold)
    qed
  qed
qed

lemma geocodeShopifyLocation_as_task:
  "\<exists>how. locSettle 8 e (fst (locStart e loc st)) (snd (locStart e loc st))
           = (Settled how (fst (geocodeShopifyLocation e loc st)), snd (geocodeShopifyLocation e loc st)) \<and>
         (how = Failed \<longleftrightarrow>
            locationGeoCache st (''loc:'' @ loc_id loc) = None \<and>
            (\<exists>err. fst (geocode e (fullAddr loc) st) = Inl err) \<and>
            (present (zipOf loc) \<longrightarrow>
               (\<exists>err2. fst (geocode e (the (zipOf loc)) (snd (geocode e (fullAddr loc) st))) = Inl err2)))"
proof (cases "locationGeoCache st (''loc:'' @ loc_id loc)")
  case (Some g)
  then show ?thesis
    by (simp add: locStart_def geocodeShopifyLocation_def locSettle_Settled)
next
  case None
  obtain r s1 where full: "geocode e (fullAddr loc) st = (r, s1)"
    by (cases "geocode e (fullAddr loc) st")
  obtain r2 s2 where zip: "geocode e (the (zipOf loc)) s1 = (r2, s2)"
    by (cases "geocode e (the (zipOf loc)) s1")
  from geocode_as_task [of e "fullAddr loc" st] full
  have "geoSettle 3 e (fst (geoStart e (fullAddr loc) st)) (snd (geoStart e (fullAddr loc) st))
          = (GeoDone r, s1)" by simp
  from awaitFull_settle [OF this, of loc] None full zip
  show ?thesis
    by (cases r; cases r2) (simp_all add: locStart_def geocodeShopifyLocation_def case_prod_unfold)
qed

subsection \<open>The entries and the two lists\<close>

lemma entryOf_fields:
  "locationId (entryOf m pin q loc g) = loc_id loc"
  "name (entryOf m pin q loc g) = loc_name loc"
  "coordinates (entryOf m pin q loc g) = \<lparr>lat = lat g, lng = lng g\<rparr>"
  "distanceKm (entryOf m pin q loc g)
     = toFixed2 (haversineKm m \<lparr>lat = lat pin, lng = lng pin\<rparr> \<lparr>lat = lat g, lng = lng g\<rparr>)"
  "available (entryOf m pin q loc g) = q (loc_id loc)"
  "status (entryOf m pin q loc g) = statusOf (q (loc_id loc))"
  by (simp_all add: entryOf_def Let_def)

lemma filterBoolean_map:
  "filterBoolean (map (\<lambda>x. if c x then None else Some (h x)) xs) = map h (filter (\<lambda>x. \<not> c x) xs)"
  by (induction xs) (simp_all add: filterBoolean_simps)

lemma enrichedOf_total: "\<exists>es st'. enrichedOf e r st = Some (es, st')"
  using fanOut_outcomes [of e "r_locations r" st]
  by (auto simp: enrichedOf_def split: prod.splits)

lemma enrichedOf_entries:
  assumes "enrichedOf e r st = Some (es, st')"
  shows "\<exists>os. outcomes (fst (fanOut e (r_locations r) st)) = Some os \<and>
           length os = length (r_locations r) \<and>
           es = map (\<lambda>(loc, how, g). entryOf (arith e) (r_pin r) (r_qtyByLoc r) loc g)
                  (filter (\<lambda>(loc, how, g). how \<noteq> Failed \<and> \<not> (lat g = 0 \<and> lng g = 0))
                     (zip (r_locations r) os))"
proof -
  from fanOut_outcomes [of e "r_locations r" st] obtain os where
    os: "outcomes (fst (fanOut e (r_locations r) st)) = Some os" "length os = length (r_locations r)"
    by blast
  define c where "c = (\<lambda>x :: location \<times> outcome \<times> geopoint. lat (snd (snd x)) = 0 \<and> lng (snd (snd x)) = 0)"
  define h where "h = (\<lambda>x :: location \<times> outcome \<times> geopoint.
                         entryOf (arith e) (r_pin r) (r_qtyByLoc r) (fst x) (snd (snd x)))"
  define p where "p = (\<lambda>x :: location \<times> outcome \<times> geopoint. fst (snd x) \<noteq> Failed \<and> \<not> c x)"
  have f: "(\<lambda>(loc, how, g). enrichLocation (arith e) (r_pin r) (r_qtyByLoc r) loc g)
             = (\<lambda>x. if c x then None else Some (h x))"
    by (auto simp: enrichLocation_def fun_eq_iff c_def h_def)
  from assms os have
    "es = filterBoolean (map (\<lambda>(loc, how, g). enrichLocation (arith e) (r_pin r) (r_qtyByLoc r) loc g)
                           (zip (r_locations r) os))"
    by (auto simp: enrichedOf_def split: prod.splits)
  then have es: "es = map h (filter (\<lambda>x. \<not> c x) (zip (r_locations r) os))"
    unfolding f by (simp only: filterBoolean_map)
  have "filter (\<lambda>x. \<not> c x) (zip (r_locations r) os) = filter p (zip (r_locations r) os)"
  proof (rule filter_cong [OF refl])
    fix x assume "x \<in> set (zip (r_locations r) os)"
    then obtain i where i: "i < length os" "x = (r_locations r ! i, os ! i)"
      by (auto simp: set_zip)
    from fanOut_failed [OF os(1) i(1)] have "fst (os ! i) = Failed \<Longrightarrow> snd (os ! i) = fail" .
    then show "(\<not> c x) = p x"
      unfolding i(2) p_def c_def by (auto simp: fail_def)
  qed
  with es have "es = map h (filter p (zip (r_locations r) os))" by simp
  moreover have "h = (\<lambda>(loc, how, g). entryOf (arith e) (r_pin r) (r_qtyByLoc r) loc g)"
    by (auto simp: h_def fun_eq_iff)
  moreover have "p = (\<lambda>(loc, how, g). how \<noteq> Failed \<and> \<not> (lat g = 0 \<and> lng g = 0))"
    by (auto simp: p_def c_def fun_eq_iff)
  ultimately show ?thesis using os by blast
qed

lemma enrichedOf_member:
  assumes "enrichedOf e r st = Some (es, st')" and "x \<in> set es"
  shows "\<exists>loc g. loc \<in> set (r_locations r) \<and> \<not> (lat g = 0 \<and> lng g = 0) \<and>
           x = entryOf (arith e) (r_pin r) (r_qtyByLoc r) loc g"
proof -
  from enrichedOf_entries [OF assms(1)] obtain os where
    "es = map (\<lambda>(loc, how, g). entryOf (arith e) (r_pin r) (r_qtyByLoc r) loc g)
            (filter (\<lambda>(loc, how, g). how \<noteq> Failed \<and> \<not> (lat g = 0 \<and> lng g = 0))
               (zip (r_locations r) os))"
    by blast
  with assms(2) obtain y where
    y: "y \<in> set (zip (r_locations r) os)" "\<not> (lat (snd (snd y)) = 0 \<and> lng (snd (snd y)) = 0)"
      "x = entryOf (arith e) (r_pin r) (r_qtyByLoc r) (fst y) (snd (snd y))"
    by (auto simp: case_prod_unfold)
  from y(1) have "fst y \<in> set (r_locations r)"
    by (metis prod.collapse set_zip_leftD)
  with y(2,3) show ?thesis by blast
qed

lemma jle_jgt: "jle d r \<or> jgt d r \<longleftrightarrow> d \<noteq> NaN" "\<not> (jle d r \<and> jgt d r)"
  by (cases d; auto)+

lemma assemble_lists:
  "mset (inRadius (assemble req r es)) + mset (outOfRadius (assemble req r es))
     = mset (filter (\<lambda>x. distanceKm x \<noteq> NaN) es)"
  "set (inRadius (assemble req r es)) = {x \<in> set es. jle (distanceKm x) (r_RADIUS r)}"
  "set (outOfRadius (assemble req r es)) = {x \<in> set es. jgt (distanceKm x) (r_RADIUS r)}"
  "sorted (map (sortKey \<circ> distanceKm) (inRadius (assemble req r es)))"
  "sorted (map (sortKey \<circ> distanceKm) (outOfRadius (assemble req r es)))"
  "in_radiusKm (input (assemble req r es)) = r_RADIUS r"
  "geocoded (input (assemble req r es)) = r_pin r"
proof -
  have "mset (filter (\<lambda>x. jle (distanceKm x) (r_RADIUS r)) es)
          + mset (filter (\<lambda>x. jgt (distanceKm x) (r_RADIUS r)) es)
        = mset (filter (\<lambda>x. distanceKm x \<noteq> NaN) es)"
  proof (induction es)
    case Nil
    then show ?case by simp
  next
    case (Cons x es)
    from jle_jgt [of "distanceKm x" "r_RADIUS r"] Cons show ?case by auto
  qed
  then show "mset (inRadius (assemble req r es)) + mset (outOfRadius (assemble req r es))
     = mset (filter (\<lambda>x. distanceKm x \<noteq> NaN) es)"
    by (simp add: assemble_def)
qed (auto simp: assemble_def)

lemma assemble_member:
  "x \<in> set (inRadius (assemble req r es)) \<union> set (outOfRadius (assemble req r es)) \<Longrightarrow> x \<in> set es"
  by (auto simp: assemble_lists)

subsection \<open>Distances\<close>



lemma toRad_finite:
  assumes "conforming m" and "\<bar>x\<bar> < 2 ^ 1021"
  shows "\<exists>z. toRad m (Fin x) = Fin z"
proof -
  from assms(1) have m: "rnd m = fl" "Math_PI m = 884279719003555 / 2 ^ 48"
    by (simp_all add: conforming_def)
  have "\<bar>x * (884279719003555 / 2 ^ 48)\<bar> = \<bar>x\<bar> * (884279719003555 / 2 ^ 48)"
    by (simp add: abs_mult)
  also have "\<dots> \<le> \<bar>x\<bar> * 4" by (intro mult_left_mono) simp_all
  also have "\<dots> \<le> 2 ^ 1021 * 4" using assms(2) by simp
  finally have "\<bar>x * (884279719003555 / 2 ^ 48)\<bar> \<le> 2 powi 1023" by simp
  from fl_le_pow2 [OF this] obtain y where
    y: "fl (x * (884279719003555 / 2 ^ 48)) = Fin y" "\<bar>y\<bar> \<le> 2 powi 1023" by auto
  have "\<bar>y / 180\<bar> \<le> \<bar>y\<bar>" by simp
  with y(2) have "\<bar>y / 180\<bar> \<le> 2 powi 1023" by linarith
  from fl_le_pow2 [OF this] obtain z where z: "fl (y / 180) = Fin z" by auto
  have "toRad m (Fin x) = jdiv fl (fl (x * (884279719003555 / 2 ^ 48))) 180"
    by (simp only: toRad_def m jmul.simps)
  also have "\<dots> = Fin z"
    by (simp only: y jdiv.simps z)
  finally show ?thesis by blast
qed

lemma haversineKm_same:
  assumes c: "conforming m" and eq: "lat a = lat b" "lng a = lng b"
    and bound: "\<bar>lat a\<bar> < 2 ^ 1021"
  shows "haversineKm m a b = Fin 0"
proof -
  from c have m: "rnd m = fl" "Math_sin m 0 = 0" "Math_sqrt m 0 = 0" "Math_asin m 0 = 0"
    "Math_pow2 m 0 = Fin 0" and cs: "\<And>x. \<bar>Math_cos m x\<bar> \<le> 1"
    by (simp_all add: conforming_def)
  have z: "toRad m (Fin 0) = Fin 0"
    by (simp add: toRad_def m fl_0)
  from toRad_finite [OF c bound] obtain p where p: "toRad m (Fin (lat a)) = Fin p" by blast
  have "\<bar>Math_cos m p * Math_cos m p\<bar> \<le> 1 * 1"
    unfolding abs_mult using cs [of p] by (intro mult_mono) simp_all
  then have "\<bar>Math_cos m p * Math_cos m p\<bar> \<le> 2 powi 0" by simp
  from fl_le_pow2 [OF this] obtain w where w: "fl (Math_cos m p * Math_cos m p) = Fin w" by auto
  have "\<bar>12742 :: real\<bar> \<le> 2 powi 14" by simp
  from fl_le_pow2 [OF this] obtain u where u: "fl 12742 = Fin u" by auto
  show ?thesis
    unfolding haversineKm_def Let_def
    by (simp add: eq [symmetric] m fl_0 z p w u)
qed

subsection \<open>The worked examples\<close>

lemma nearest_le_1: "\<bar>x\<bar> \<le> 1 \<Longrightarrow> \<bar>nearest x\<bar> \<le> 1"
proof -
  assume "\<bar>x\<bar> \<le> 1"
  then have "\<bar>x\<bar> \<le> 2 powi 0" by simp
  from fl_le_pow2 [OF this] show ?thesis by (auto simp: nearest_def)
qed

lemma libm_conforming: "conforming libm"
proof -
  have "\<bar>Math_cos libm x\<bar> \<le> 1" for x
    using nearest_le_1 [of "cos x"]
    by (auto simp: libm_def cosTable_def)
  moreover have "Math_sin libm 0 = 0" "Math_sqrt libm 0 = 0" "Math_asin libm 0 = 0"
    "Math_pow2 libm 0 = Fin 0"
    by (simp_all add: libm_def sinTable_def sqrtTable_def nearest_def fl_0)
  ultimately show ?thesis
    by (simp add: conforming_def libm_def)
qed

lemma mode_auto: "geocoderMode \<lparr>GOOGLE_MAPS_KEY = k, DEFAULT_RADIUS_KM = d, GEOCODER_MODE = None\<rparr> = ''auto''"
  by (simp add: geocoderMode_def toLowerCase_def lowerChar_def)

lemma mode_osm: "geocoderMode \<lparr>GOOGLE_MAPS_KEY = k, DEFAULT_RADIUS_KM = d, GEOCODER_MODE = Some ''osm''\<rparr> = ''osm''"
  by (simp add: geocoderMode_def toLowerCase_def lowerChar_def)

lemma mode_google: "geocoderMode \<lparr>GOOGLE_MAPS_KEY = k, DEFAULT_RADIUS_KM = d, GEOCODER_MODE = Some ''google''\<rparr> = ''google''"
  by (simp add: geocoderMode_def toLowerCase_def lowerChar_def)

lemma demoEnv_sel:
  "cfg (demoEnv m) = \<lparr>GOOGLE_MAPS_KEY = Some ''k'', DEFAULT_RADIUS_KM = None, GEOCODER_MODE = m\<rparr>"
  "google (demoEnv m) = demoGoogle" "osm (demoEnv m) = demoOsm"
  "gqlLocations (demoEnv m) = demoLocations" "gqlInvItem (demoEnv m) = demoInvItem"
  "gqlLevels (demoEnv m) = demoLevels" "numToString (demoEnv m) = (\<lambda>r. ''?'')"
  "arith (demoEnv m) = libm" "arrivals (demoEnv m) = [1, 0, 1]"
  by (simp_all add: demoEnv_def)

lemmas geocode_eval = geocode_def Let_def trim_def isWhiteSpace_def googleStep_def googleAnswer_def
  callGoogle_def googleParams_def is6_def is4_def isDigit_def osmSteps_def callOsm_def
  osmStructuredParams_def osmFreeformParams_def osmFirst_def cacheOk_def demoEnv_sel demoGoogle_def
  demoOsm_def sydney_def

lemmas task_eval = fanOut_def locStart_def geoStart_def osmStart_def osmFreeformStart_def
  locSettle_numeral locSettle_Settled fullAddr_def addressParts_def present_def zipOf_def
  setLocationGeo_def outcomes_def

lemma demo_fanOut:
  "outcomes (fst (fanOut (demoEnv None) [storeA, storeC]
      \<lparr>geocodeCache = [''geo:2000'' \<mapsto> \<lparr>lat = - 34, lng = 151, formatted = ''Sydney NSW 2000''\<rparr>],
       locationGeoCache = Map.empty,
       shopifyLocationsCache = [''locations:demo'' \<mapsto> [storeA, storeC]],
       calls = [GoogleCall (GComponents (Some ''k'') ''postal_code:2000|country:AU''),
              OsmCall (OsmStructured ''2000'' ''Australia''),
              GqlLocations 100 None, GqlLocations 100 (Some ''c2''),
              GqlInvItem ''gid://shopify/ProductVariant/42'', GqlLevels ''item7'']\<rparr>))
   = Some [(Geocoded, \<lparr>lat = - 34, lng = 151, formatted = ''Sydney NSW 2000''\<rparr>), (Failed, fail)]"
  by (simp add: task_eval geocode_eval mode_auto storeA_def storeC_def)

lemma near_antipodal_distance:
  fixes latA lngA latB lngB :: real
  assumes A: "latA = - (5345873384992953 / 2 ^ 47)" "lngA = 4948417372445173 / 2 ^ 45"
    and B: "latB = 2672936706570225 / 2 ^ 46" "lngB = - (86548100441439 / 2 ^ 41)"
  shows "haversineKm libm \<lparr>lat = latA, lng = lngA\<rparr> \<lparr>lat = latB, lng = lngB\<rparr> = NaN"
proof -
  define P :: real where "P = 884279719003555 / 2 ^ 48"
  define s1 :: real where "s1 = 1385872974839969 / 2 ^ 51"
  define s2 :: real where "s2 = - 1"
  define c1 :: real where "c1 = 7099248982372129 / 2 ^ 53"
  define c2 :: real where "c2 = 1774812240755423 / 2 ^ 51"
  define q :: real where "q = 4503599627370497 / 2 ^ 52"
  define d1 :: real where "d1 = 2672936699533351 / 2 ^ 45"
  define t1 :: real where "t1 = 2099319574691131 / 2 ^ 43"
  define dLat :: real where "dLat = 2985698950671831 / 2 ^ 51"
  define d2 :: real where "d2 = - (6333186979508197 / 2 ^ 45)"
  define t2 :: real where "t2 = - (4974073422158371 / 2 ^ 43)"
  define dLng :: real where "dLng = - (1768559438989643 / 2 ^ 49)"
  define t3 :: real where "t3 = - (4198639138328765 / 2 ^ 45)"
  define lat1 :: real where "lat1 = - (1492849471405783 / 2 ^ 51)"
  define t4 :: real where "t4 = 8397278320871515 / 2 ^ 46"
  define lat2 :: real where "lat2 = 1492849479266047 / 2 ^ 51"
  define x1 :: real where "x1 = 2985698950671831 / 2 ^ 52"
  define x2 :: real where "x2 = - (1768559438989643 / 2 ^ 50)"
  define p1 :: real where "p1 = 3411748932066035 / 2 ^ 53"
  define p2 :: real where "p2 = 1"
  define m1 :: real where "m1 = 349715645167185 / 2 ^ 49"
  define m2 :: real where "m2 = 349715645167185 / 2 ^ 49"
  define h :: real where "h = 2251799813685249 / 2 ^ 51"
  note defs = P_def s1_def s2_def c1_def c2_def q_def d1_def t1_def dLat_def d2_def t2_def dLng_def t3_def lat1_def t4_def lat2_def x1_def x2_def p1_def p2_def m1_def m2_def h_def
  have r_d1: "fl (latB - latA) = Fin d1"
    by (rule fl_eval [where e = 6 and n = 5345873399066702])
       (simp_all add: A B defs rne_def Let_def power_int_minus)
  have r_t1: "fl (d1 * P) = Fin t1"
    by (rule fl_eval [where e = 7 and n = 8397278298764524])
       (simp_all add: A B defs rne_def Let_def power_int_minus)
  have r_dLat: "fl (t1 / 180) = Fin dLat"
    by (rule fl_eval [where e = 0 and n = 5971397901343662])
       (simp_all add: A B defs rne_def Let_def power_int_minus)
  have r_d2: "fl (lngB - lngA) = Fin d2"
    by (rule fl_eval [where e = 7 and n = 6333186979508197])
       (simp_all add: A B defs rne_def Let_def power_int_minus)
  have r_t2: "fl (d2 * P) = Fin t2"
    by (rule fl_eval [where e = 9 and n = 4974073422158371])
       (simp_all add: A B defs rne_def Let_def power_int_minus)
  have r_dLng: "fl (t2 / 180) = Fin dLng"
    by (rule fl_eval [where e = 1 and n = 7074237755958572])
       (simp_all add: A B defs rne_def Let_def power_int_minus)
  have r_t3: "fl (latA * P) = Fin t3"
    by (rule fl_eval [where e = 6 and n = 8397278276657530])
       (simp_all add: A B defs rne_def Let_def power_int_minus)
  have r_lat1: "fl (t3 / 180) = Fin lat1"
    by (rule fl_eval [where e = "- 1" and n = 5971397885623132])
       (simp_all add: A B defs rne_def Let_def power_int_minus)
  have r_t4: "fl (latB * P) = Fin t4"
    by (rule fl_eval [where e = 6 and n = 8397278320871515])
       (simp_all add: A B defs rne_def Let_def power_int_minus)
  have r_lat2: "fl (t4 / 180) = Fin lat2"
    by (rule fl_eval [where e = "- 1" and n = 5971397917064188])
       (simp_all add: A B defs rne_def Let_def power_int_minus)
  have r_x1: "fl (dLat / 2) = Fin x1"
    by (rule fl_eval [where e = "- 1" and n = 5971397901343662])
       (simp_all add: A B defs rne_def Let_def power_int_minus)
  have r_x2: "fl (dLng / 2) = Fin x2"
    by (rule fl_eval [where e = 0 and n = 7074237755958572])
       (simp_all add: A B defs rne_def Let_def power_int_minus)
  have r_p1: "fl (s1 * s1) = Fin p1"
    by (rule fl_eval [where e = "- 2" and n = 6823497864132070])
       (simp_all add: A B defs rne_def Let_def power_int_minus)
  have r_p2: "fl (s2 * s2) = Fin p2"
    by (rule fl_eval [where e = 0 and n = 4503599627370496])
       (simp_all add: A B defs rne_def Let_def power_int_minus)
  have r_m1: "fl (c1 * c2) = Fin m1"
    by (rule fl_eval [where e = "- 1" and n = 5595450322674960])
       (simp_all add: A B defs rne_def Let_def power_int_minus)
  have r_m2: "fl (m1 * p2) = Fin m2"
    by (rule fl_eval [where e = "- 1" and n = 5595450322674960])
       (simp_all add: A B defs rne_def Let_def power_int_minus)
  have r_h: "fl (p1 + m2) = Fin h"
    by (rule fl_eval [where e = 0 and n = 4503599627370498])
       (simp_all add: A B defs rne_def Let_def power_int_minus)
  have sin1: "Math_sin libm x1 = s1" and sin2: "Math_sin libm x2 = s2"
    and cos1: "Math_cos libm lat1 = c1" and cos2: "Math_cos libm lat2 = c2"
    and sq: "Math_sqrt libm h = q"
    by (simp_all add: libm_def sinTable_def cosTable_def sqrtTable_def defs)
  have sel: "rnd libm = fl" "Math_PI libm = P" "Math_pow2 libm = (\<lambda>x. fl (x * x))"
    by (simp_all add: libm_def P_def)
  have big: "1 < q" and h0: "\<not> h < 0"
    by (simp_all add: q_def h_def)
  show ?thesis
    by (simp add: haversineKm_def toRad_def Let_def sel r_d1 r_t1 r_dLat r_d2 r_t2 r_dLng r_t3
        r_lat1 r_t4 r_lat2 r_x1 r_x2 sin1 sin2 cos1 cos2 r_p1 r_p2 r_m1 r_m2 r_h sq big h0 jmul_NaN)
qed


lemma demo_resolve:
  "resolveInputs (demoEnv None) demoReq init =
     Some (Inr \<lparr>r_RADIUS = 0, r_pin = \<lparr>lat = - 34, lng = 151, formatted = ''Sydney NSW 2000''\<rparr>,
                r_locations = [storeA, storeC], r_invItemGid = Some ''item7'',
                r_qtyByLoc = [''A'' \<mapsto> 5]\<rparr>,
           \<lparr>geocodeCache = [''geo:2000'' \<mapsto> \<lparr>lat = - 34, lng = 151, formatted = ''Sydney NSW 2000''\<rparr>],
            locationGeoCache = Map.empty,
            shopifyLocationsCache = [''locations:demo'' \<mapsto> [storeA, storeC]],
            calls = [GoogleCall (GComponents (Some ''k'') ''postal_code:2000|country:AU''),
              OsmCall (OsmStructured ''2000'' ''Australia''),
              GqlLocations 100 None, GqlLocations 100 (Some ''c2''),
              GqlInvItem ''gid://shopify/ProductVariant/42'', GqlLevels ''item7'']\<rparr>)"
  by (simp add: resolveInputs_def demoReq_def pincodeOk_def geocode_eval mode_auto init_def
      numberOr_def StringToNumber_def fetchShopifyLocations_def fetchLoop.simps postLocations_def
      demoLocations_def page1_def page2_def inventoryFor_def getInventoryItemIdForVariant_def
      startsWith_def postInvItem_def demoInvItem_def getInventoryByLocation_def postLevels_def
      demoLevels_def levelsMap_def availableOf_def storeA_def storeB_def storeC_def)

lemma demo_run:
  "map_option fst (buildPickupResponse (demoEnv None) demoReq init) = Some (Inr demoResult)"
proof -
  let ?pt = "\<lparr>lat = - 34, lng = 151, formatted = ''Sydney NSW 2000''\<rparr>"
  let ?R = "\<lparr>r_RADIUS = 0, r_pin = ?pt, r_locations = [storeA, storeC],
             r_invItemGid = Some ''item7'', r_qtyByLoc = [''A'' \<mapsto> 5]\<rparr>"
  let ?S1 = "\<lparr>geocodeCache = [''geo:2000'' \<mapsto> ?pt], locationGeoCache = Map.empty,
              shopifyLocationsCache = [''locations:demo'' \<mapsto> [storeA, storeC]],
              calls = [GoogleCall (GComponents (Some ''k'') ''postal_code:2000|country:AU''),
                OsmCall (OsmStructured ''2000'' ''Australia''),
                GqlLocations 100 None, GqlLocations 100 (Some ''c2''),
                GqlInvItem ''gid://shopify/ProductVariant/42'', GqlLevels ''item7'']\<rparr>"
  have d: "haversineKm libm \<lparr>lat = - 34, lng = 151\<rparr> \<lparr>lat = - 34, lng = 151\<rparr> = Fin 0"
    by (rule haversineKm_same [OF libm_conforming]) simp_all
  have e: "map_option fst (enrichedOf (demoEnv None) ?R ?S1) = Some [hd (inRadius demoResult)]"
    by (simp add: enrichedOf_def case_prod_unfold demo_fanOut filterBoolean_def enrichLocation_def
        fail_def demoEnv_sel)
       (simp add: entryOf_def d fl_0 statusOf_def demoResult_def storeA_def)
  then obtain S4 where e': "enrichedOf (demoEnv None) ?R ?S1 = Some ([hd (inRadius demoResult)], S4)"
    by (cases "enrichedOf (demoEnv None) ?R ?S1") auto
  have "assemble demoReq ?R [hd (inRadius demoResult)] = demoResult"
    by (simp add: assemble_def demoResult_def demoReq_def)
  then show ?thesis
    by (simp add: buildPickupResponse_def demo_resolve e')
qed

lemma demo_run_state:
  "\<exists>st'. buildPickupResponse (demoEnv None) demoReq init = Some (Inr demoResult, st')"
  using demo_run by (cases "buildPickupResponse (demoEnv None) demoReq init") auto

lemma demo_C_fails:
  "locationGeoCache init (''loc:'' @ loc_id storeC) = None"
  "fst (geocode (demoEnv None) (fullAddr storeC) init) = Inl (GeocodeNoResultError ''0000'')"
  "present (zipOf storeC)"
  "fst (geocode (demoEnv None) (the (zipOf storeC)) (snd (geocode (demoEnv None) (fullAddr storeC) init)))
     = Inl (GeocodeNoResultError ''0000'')"
  by (simp_all add: fullAddr_def addressParts_def present_def zipOf_def storeC_def geocode_eval
      mode_auto init_def)

lemma far_distance:
  "haversineKm libm \<lparr>lat = osm_lat pinPoint, lng = osm_lon pinPoint\<rparr>
     \<lparr>lat = osm_lat antipode, lng = osm_lon antipode\<rparr> = NaN"
  by (rule near_antipodal_distance) (simp_all add: pinPoint_def antipode_def)

lemma farEnv_sel:
  "cfg farEnv = \<lparr>GOOGLE_MAPS_KEY = None, DEFAULT_RADIUS_KM = None, GEOCODER_MODE = Some ''osm''\<rparr>"
  "google farEnv = demoGoogle" "osm farEnv = farOsm"
  "gqlLocations farEnv = farLocations" "gqlInvItem farEnv = demoInvItem"
  "gqlLevels farEnv = demoLevels" "numToString farEnv = (\<lambda>r. ''?'')"
  "arith farEnv = libm" "arrivals farEnv = [1, 0, 0, 1]"
  by (simp_all add: farEnv_def)

lemmas far_eval = geocode_def Let_def trim_def isWhiteSpace_def is6_def is4_def isDigit_def
  osmSteps_def callOsm_def osmStructuredParams_def osmFreeformParams_def osmFirst_def cacheOk_def
  farEnv_sel farOsm_def mode_osm

lemma far_resolve:
  "resolveInputs farEnv farReq init =
     Some (Inr \<lparr>r_RADIUS = 25000,
                r_pin = \<lparr>lat = osm_lat pinPoint, lng = osm_lon pinPoint,
                         formatted = display_name pinPoint\<rparr>,
                r_locations = [storeD, storeE], r_invItemGid = None, r_qtyByLoc = Map.empty\<rparr>,
           \<lparr>geocodeCache = [''geo:5291'' \<mapsto> \<lparr>lat = osm_lat pinPoint, lng = osm_lon pinPoint,
                                              formatted = display_name pinPoint\<rparr>],
            locationGeoCache = Map.empty,
            shopifyLocationsCache = [''locations:far'' \<mapsto> [storeD, storeE]],
            calls = [OsmCall (OsmStructured ''5291'' ''Australia''), GqlLocations 100 None]\<rparr>)"
  by (simp add: resolveInputs_def farReq_def pincodeOk_def far_eval init_def numberOr_def
      fetchShopifyLocations_def fetchLoop.simps postLocations_def farLocations_def inventoryFor_def
      storeD_def storeE_def)

lemma far_fanOut:
  "outcomes (fst (fanOut farEnv [storeD, storeE]
      \<lparr>geocodeCache = [''geo:5291'' \<mapsto> \<lparr>lat = osm_lat pinPoint, lng = osm_lon pinPoint,
                                         formatted = display_name pinPoint\<rparr>],
       locationGeoCache = Map.empty,
       shopifyLocationsCache = [''locations:far'' \<mapsto> [storeD, storeE]],
       calls = [OsmCall (OsmStructured ''5291'' ''Australia''), GqlLocations 100 None]\<rparr>))
   = Some [(Geocoded, \<lparr>lat = osm_lat antipode, lng = osm_lon antipode,
                        formatted = display_name antipode\<rparr>),
           (Geocoded, \<lparr>lat = osm_lat pinPoint, lng = osm_lon pinPoint,
                        formatted = display_name pinPoint\<rparr>)]"
  by (simp add: task_eval far_eval storeD_def storeE_def)

lemma far_run:
  "map_option fst (buildPickupResponse farEnv farReq init) = Some (Inr farResult)"
proof -
  let ?pin = "\<lparr>lat = osm_lat pinPoint, lng = osm_lon pinPoint, formatted = display_name pinPoint\<rparr>"
  let ?R = "\<lparr>r_RADIUS = 25000, r_pin = ?pin, r_locations = [storeD, storeE],
             r_invItemGid = None, r_qtyByLoc = Map.empty\<rparr>"
  let ?S1 = "\<lparr>geocodeCache = [''geo:5291'' \<mapsto> ?pin], locationGeoCache = Map.empty,
              shopifyLocationsCache = [''locations:far'' \<mapsto> [storeD, storeE]],
              calls = [OsmCall (OsmStructured ''5291'' ''Australia''), GqlLocations 100 None]\<rparr>"
  let ?D = "entryOf libm ?pin Map.empty storeD
              \<lparr>lat = osm_lat antipode, lng = osm_lon antipode, formatted = display_name antipode\<rparr>"
  have same: "haversineKm libm \<lparr>lat = osm_lat pinPoint, lng = osm_lon pinPoint\<rparr>
                \<lparr>lat = osm_lat pinPoint, lng = osm_lon pinPoint\<rparr> = Fin 0"
    by (rule haversineKm_same [OF libm_conforming]) (simp_all add: pinPoint_def)
  have nz: "osm_lat antipode \<noteq> 0" "osm_lat pinPoint \<noteq> 0"
    by (simp_all add: antipode_def pinPoint_def)
  have dD: "distanceKm ?D = NaN"
    by (simp add: entryOf_fields far_distance)
  have e: "map_option fst (enrichedOf farEnv ?R ?S1) = Some [?D, hd (inRadius farResult)]"
    by (simp add: enrichedOf_def case_prod_unfold far_fanOut filterBoolean_def enrichLocation_def nz
        farEnv_sel)
       (simp add: entryOf_def same fl_0 statusOf_def, simp add: farResult_def storeE_def pinPoint_def)
  then obtain S4 where e': "enrichedOf farEnv ?R ?S1 = Some ([?D, hd (inRadius farResult)], S4)"
    by (cases "enrichedOf farEnv ?R ?S1") auto
  have "assemble farReq ?R [?D, hd (inRadius farResult)] = farResult"
    by (simp add: assemble_def dD) (simp add: farResult_def farReq_def pinPoint_def)
  then show ?thesis
    by (simp add: buildPickupResponse_def far_resolve e')
qed

subsection \<open>Strings of digits\<close>

lemma digit_not_space: "isDigit c \<Longrightarrow> \<not> isWhiteSpace c"
  by (auto simp: isDigit_def isWhiteSpace_def)

lemma trim_digits:
  assumes "list_all isDigit s"
  shows "trim s = s"
proof (cases "s = []")
  case True
  then show ?thesis by (simp add: trim_def)
next
  case False
  with assms have "isDigit (hd s)" "isDigit (last s)"
    by (simp_all add: list_all_iff)
  then have h: "\<not> isWhiteSpace (hd s)" and l: "\<not> isWhiteSpace (hd (rev s))"
    using False by (simp_all add: digit_not_space hd_rev)
  from h have "dropWhile isWhiteSpace s = s"
    by (simp add: dropWhile_eq_self_iff)
  moreover from l have "dropWhile isWhiteSpace (rev s) = rev s"
    by (simp add: dropWhile_eq_self_iff)
  ultimately show ?thesis by (simp add: trim_def)
qed

lemma numberOr_cases: "numberOr a fb = (case Number a of Fin r \<Rightarrow> r | _ \<Rightarrow> fb)"
  by (cases "Number a") (simp_all add: numberOr_def)

lemma StringToNumber_empty: "StringToNumber [] = Fin 0"
  by (simp add: StringToNumber_def trim_def)

subsection \<open>Single-provider modes\<close>

lemma osmSteps_nothing:
  assumes "is6 original"
    and "osmFirst (osm e (length (calls st)) (OsmStructured original ''India'')) = None"
    and "osmFirst (osm e (Suc (length (calls st))) (OsmFreeform (original @ '', India'') (Some ''in''))) = None"
  shows "osmSteps e key original st =
     (Inl (GeocodeNoResultError original),
      st\<lparr>calls := calls st @ [OsmCall (OsmStructured original ''India''),
                                OsmCall (OsmFreeform (original @ '', India'') (Some ''in''))]\<rparr>)"
  using assms
  by (simp add: osmSteps_def callOsm_def osmStructuredParams_def osmFreeformParams_def)

lemma geocode_google_mode:
  assumes "geocoderMode (cfg e) = ''google''"
    and "geocodeCache st (''geo:'' @ trim q) = None"
  shows "geocode e q st =
     (case googleAnswer ''google'' (trim q) (google e (length (calls st)) (googleParams (cfg e) (trim q))) of
        Some (Inr res) \<Rightarrow>
          (Inr res, cacheOk (''geo:'' @ trim q) res
                      (st\<lparr>calls := calls st @ [GoogleCall (googleParams (cfg e) (trim q))]\<rparr>))
      | Some (Inl err) \<Rightarrow>
          (Inl err, st\<lparr>calls := calls st @ [GoogleCall (googleParams (cfg e) (trim q))]\<rparr>)
      | None \<Rightarrow>
          osmSteps e (''geo:'' @ trim q) (trim q)
            (st\<lparr>calls := calls st @ [GoogleCall (googleParams (cfg e) (trim q))]\<rparr>))"
  using assms
  by (simp add: geocode_def Let_def googleStep_def callGoogle_def split: option.splits sum.splits)

subsection \<open>The response\<close>

lemma lists_partition_sorted:
  assumes "buildPickupResponse e req st = Some (Inr res, st')"
  shows "\<exists>r st1 es. resolveInputs e req st = Some (Inr r, st1) \<and>
           enrichedOf e r st1 = Some (es, st') \<and>
           in_radiusKm (input res) = r_RADIUS r \<and>
           mset (inRadius res) + mset (outOfRadius res) = mset (filter (\<lambda>x. distanceKm x \<noteq> NaN) es) \<and>
           set (inRadius res) = {x \<in> set es. jle (distanceKm x) (r_RADIUS r)} \<and>
           set (outOfRadius res) = {x \<in> set es. jgt (distanceKm x) (r_RADIUS r)} \<and>
           set (inRadius res) \<inter> set (outOfRadius res) = {} \<and>
           sorted (map (sortKey \<circ> distanceKm) (inRadius res)) \<and>
           sorted (map (sortKey \<circ> distanceKm) (outOfRadius res))"
proof -
  from buildPickupResponse_ok [OF assms] obtain r st1 es where
    r: "resolveInputs e req st = Some (Inr r, st1)" "enrichedOf e r st1 = Some (es, st')" and
    res: "res = assemble req r es"
    by blast
  have "set (inRadius res) \<inter> set (outOfRadius res) = {}"
    unfolding res assemble_lists using jle_jgt(2) by auto
  with r show ?thesis
    unfolding res by (intro exI [of _ r] exI [of _ st1] exI [of _ es]) (simp add: assemble_lists)
qed

section \<open>The properties\<close>

text \<open>
  C1. The claim is that every location that was geocoded is in exactly one of the two
  lists. The source computes \<open>h\<close> and passes its square root to \<^verbatim>\<open>Math.asin\<close> without
  clamping it to 1. In the second example the location \<open>D\<close> is geocoded to a point other
  than (0, 0), a few centimetres from the point opposite the pincode's, where \<open>h\<close> comes
  out as \<open>1 + 2\<^sup>-\<^sup>5\<^sup>1\<close>: the distance is \<open>NaN\<close>, which is neither at most the radius nor
  above it. The response lists the location \<open>E\<close> alone, and \<open>D\<close> is in neither list, though
  the radius asked for, 25000 km, exceeds every distance on the globe.
\<close>

theorem near_antipodal_location_in_neither_list:
  "map_option fst (buildPickupResponse farEnv farReq init) = Some (Inr farResult) \<and>
   map_option (r_locations \<circ> projr \<circ> fst) (resolveInputs farEnv farReq init) = Some [storeD, storeE] \<and>
   outcomes (fst (fanOut farEnv [storeD, storeE] (snd (the (resolveInputs farEnv farReq init)))))
     = Some [(Geocoded, \<lparr>lat = osm_lat antipode, lng = osm_lon antipode,
                          formatted = display_name antipode\<rparr>),
             (Geocoded, \<lparr>lat = osm_lat pinPoint, lng = osm_lon pinPoint,
                          formatted = display_name pinPoint\<rparr>)] \<and>
   osm_lat antipode \<noteq> 0 \<and>
   haversineKm libm \<lparr>lat = osm_lat pinPoint, lng = osm_lon pinPoint\<rparr>
     \<lparr>lat = osm_lat antipode, lng = osm_lon antipode\<rparr> = NaN \<and>
   \<not> jle NaN 25000 \<and> \<not> jgt NaN 25000 \<and>
   in_radiusKm (input farResult) = 25000 \<and>
   map locationId (inRadius farResult) = [''E''] \<and> outOfRadius farResult = []"
  by (simp add: far_run far_resolve far_fanOut far_distance)
     (simp add: farResult_def antipode_def)

text \<open>
  C2. A location whose geocoding fails (no cached point, the lookup of its full address
  fails, and the lookup of its zip fails when it has one) is given the point \<open>fail\<close> at
  (0, 0) by \<^verbatim>\<open>geocodeShopifyLocation\<close>, its callback yields no entry, and its task, run on
  its own, settles as \<open>Failed\<close>. In a run of \<^verbatim>\<open>buildPickupResponse\<close> that returns a
  response, whatever the order in which the callbacks were resumed: every callback has
  settled; one that settled as \<open>Failed\<close> returned \<open>fail\<close>; the two lists together hold
  nothing but entries of locations that did not fail and were given a point other than
  (0, 0), at most one for each position of the location list; so, when the locations have
  distinct ids, the id of a failed location is the id of no entry; and no entry has the
  coordinates (0, 0).
\<close>

theorem failed_location_excluded:
  "(locationGeoCache st (''loc:'' @ loc_id loc) = None \<and>
    (\<exists>err. fst (geocode e (fullAddr loc) st) = Inl err) \<and>
    (present (zipOf loc) \<longrightarrow>
       (\<exists>err2. fst (geocode e (the (zipOf loc)) (snd (geocode e (fullAddr loc) st))) = Inl err2))
    \<longrightarrow> fst (geocodeShopifyLocation e loc st) = fail \<and> lat fail = 0 \<and> lng fail = 0 \<and>
        enrichLocation m pin q loc fail = None \<and>
        fst (locSettle 8 e (fst (locStart e loc st)) (snd (locStart e loc st))) = Settled Failed fail) \<and>
   (buildPickupResponse e req st = Some (Inr res, st') \<longrightarrow>
      (\<exists>r st1 os. resolveInputs e req st = Some (Inr r, st1) \<and>
         outcomes (fst (fanOut e (r_locations r) st1)) = Some os \<and>
         length os = length (r_locations r) \<and>
         (\<forall>i < length os. fst (os ! i) = Failed \<longrightarrow> snd (os ! i) = fail) \<and>
         mset (inRadius res) + mset (outOfRadius res) \<subseteq>#
           mset (map (\<lambda>(loc, how, g). entryOf (arith e) (r_pin r) (r_qtyByLoc r) loc g)
                   (filter (\<lambda>(loc, how, g). how \<noteq> Failed \<and> \<not> (lat g = 0 \<and> lng g = 0))
                      (zip (r_locations r) os))) \<and>
         (distinct (map loc_id (r_locations r)) \<longrightarrow>
            (\<forall>i < length os. fst (os ! i) = Failed \<longrightarrow>
               loc_id (r_locations r ! i) \<notin> locationId ` (set (inRadius res) \<union> set (outOfRadius res)))) \<and>
         (\<forall>x \<in> set (inRadius res) \<union> set (outOfRadius res).
            \<not> (lat (coordinates x) = 0 \<and> lng (coordinates x) = 0))))"
proof (rule conjI; rule impI)
  assume a: "locationGeoCache st (''loc:'' @ loc_id loc) = None \<and>
    (\<exists>err. fst (geocode e (fullAddr loc) st) = Inl err) \<and>
    (present (zipOf loc) \<longrightarrow>
       (\<exists>err2. fst (geocode e (the (zipOf loc)) (snd (geocode e (fullAddr loc) st))) = Inl err2))"
  from geocodeShopifyLocation_as_task [of e loc st] a
  have t: "locSettle 8 e (fst (locStart e loc st)) (snd (locStart e loc st))
             = (Settled Failed (fst (geocodeShopifyLocation e loc st)), snd (geocodeShopifyLocation e loc st))"
    by auto
  from a obtain err where full: "geocode e (fullAddr loc) st = (Inl err, snd (geocode e (fullAddr loc) st))"
    by (metis prod.collapse)
  have f: "fst (geocodeShopifyLocation e loc st) = fail"
  proof (cases "present (zipOf loc)")
    case True
    with a obtain err2 where
      "geocode e (the (zipOf loc)) (snd (geocode e (fullAddr loc) st))
         = (Inl err2, snd (geocode e (the (zipOf loc)) (snd (geocode e (fullAddr loc) st))))"
      by (metis prod.collapse)
    with a full show ?thesis
      using geocodeShopifyLocation_fails [of st loc e err _ err2] by blast
  next
    case False
    with a full show ?thesis
      using geocodeShopifyLocation_fails [of st loc e err] by blast
  qed
  with t show "fst (geocodeShopifyLocation e loc st) = fail \<and> lat fail = 0 \<and> lng fail = 0 \<and>
        enrichLocation m pin q loc fail = None \<and>
        fst (locSettle 8 e (fst (locStart e loc st)) (snd (locStart e loc st))) = Settled Failed fail"
    by (simp add: fail_def enrichLocation_def)
next
  assume b: "buildPickupResponse e req st = Some (Inr res, st')"
  from buildPickupResponse_ok [OF b] obtain r st1 es where
    r: "resolveInputs e req st = Some (Inr r, st1)" and
    en: "enrichedOf e r st1 = Some (es, st')" and
    res: "res = assemble req r es"
    by blast
  define entry where
    "entry = (\<lambda>(loc, how, g). entryOf (arith e) (r_pin r) (r_qtyByLoc r) (loc :: location) (g :: geopoint))
               \<circ> (\<lambda>x :: location \<times> outcome \<times> geopoint. x)"
  define ok where
    "ok = (\<lambda>x :: location \<times> outcome \<times> geopoint.
             fst (snd x) \<noteq> Failed \<and> \<not> (lat (snd (snd x)) = 0 \<and> lng (snd (snd x)) = 0))"
  from enrichedOf_entries [OF en] obtain os where
    os: "outcomes (fst (fanOut e (r_locations r) st1)) = Some os"
      "length os = length (r_locations r)" and
    es0: "es = map (\<lambda>(loc, how, g). entryOf (arith e) (r_pin r) (r_qtyByLoc r) loc g)
                 (filter (\<lambda>(loc, how, g). how \<noteq> Failed \<and> \<not> (lat g = 0 \<and> lng g = 0))
                    (zip (r_locations r) os))"
    by blast
  have okf: "(\<lambda>(loc, how, g). how \<noteq> Failed \<and> \<not> (lat g = 0 \<and> lng g = 0)) = ok"
    by (auto simp: ok_def fun_eq_iff)
  have ent: "(\<lambda>(loc, how, g). entryOf (arith e) (r_pin r) (r_qtyByLoc r) loc g) = entry"
    by (auto simp: entry_def fun_eq_iff)
  have es: "es = map entry (filter ok (zip (r_locations r) os))"
    using es0 unfolding okf ent .
  have failed: "\<forall>i < length os. fst (os ! i) = Failed \<longrightarrow> snd (os ! i) = fail"
    using fanOut_failed [OF os(1)] by blast
  have "mset (inRadius res) + mset (outOfRadius res) = mset (filter (\<lambda>x. distanceKm x \<noteq> NaN) es)"
    unfolding res by (rule assemble_lists)
  also have "\<dots> \<subseteq># mset es"
    by (simp add: multiset_filter_subset)
  finally have sub: "mset (inRadius res) + mset (outOfRadius res) \<subseteq>#
           mset (map (\<lambda>(loc, how, g). entryOf (arith e) (r_pin r) (r_qtyByLoc r) loc g)
                   (filter (\<lambda>(loc, how, g). how \<noteq> Failed \<and> \<not> (lat g = 0 \<and> lng g = 0))
                      (zip (r_locations r) os)))"
    unfolding es0 .
  have src: "\<exists>j < length os. fst (os ! j) \<noteq> Failed \<and>
               \<not> (lat (snd (os ! j)) = 0 \<and> lng (snd (os ! j)) = 0) \<and>
               x = entryOf (arith e) (r_pin r) (r_qtyByLoc r) (r_locations r ! j) (snd (os ! j))"
    if "x \<in> set (inRadius res) \<union> set (outOfRadius res)" for x
  proof -
    from that have "x \<in> set es"
      unfolding res by (rule assemble_member)
    then obtain y where y: "y \<in> set (zip (r_locations r) os)" "ok y" "x = entry y"
      unfolding es by auto
    from y(1) obtain j where j: "j < length os" "y = (r_locations r ! j, os ! j)"
      by (auto simp: set_zip)
    with y(2,3) show ?thesis
      by (auto simp: ok_def entry_def case_prod_unfold)
  qed
  have ids: "\<forall>i < length os. fst (os ! i) = Failed \<longrightarrow>
               loc_id (r_locations r ! i) \<notin> locationId ` (set (inRadius res) \<union> set (outOfRadius res))"
    if d: "distinct (map loc_id (r_locations r))"
  proof (intro allI impI notI)
    fix i
    assume i: "i < length os" "fst (os ! i) = Failed"
      and "loc_id (r_locations r ! i) \<in> locationId ` (set (inRadius res) \<union> set (outOfRadius res))"
    then obtain x where x: "x \<in> set (inRadius res) \<union> set (outOfRadius res)"
      "loc_id (r_locations r ! i) = locationId x" by blast
    from src [OF x(1)] obtain j where
      j: "j < length os" "fst (os ! j) \<noteq> Failed"
        "x = entryOf (arith e) (r_pin r) (r_qtyByLoc r) (r_locations r ! j) (snd (os ! j))"
      by blast
    from j(3) x(2) have "loc_id (r_locations r ! j) = loc_id (r_locations r ! i)"
      by (simp add: entryOf_fields)
    with d i(1) j(1) os(2) have "j = i"
      by (auto simp: distinct_conv_nth)
    with i(2) j(2) show False by simp
  qed
  have coords: "\<forall>x \<in> set (inRadius res) \<union> set (outOfRadius res).
                  \<not> (lat (coordinates x) = 0 \<and> lng (coordinates x) = 0)"
  proof
    fix x assume "x \<in> set (inRadius res) \<union> set (outOfRadius res)"
    from src [OF this] show "\<not> (lat (coordinates x) = 0 \<and> lng (coordinates x) = 0)"
      by (auto simp: entryOf_fields)
  qed
  from r os failed sub ids coords
  show "\<exists>r st1 os. resolveInputs e req st = Some (Inr r, st1) \<and>
         outcomes (fst (fanOut e (r_locations r) st1)) = Some os \<and>
         length os = length (r_locations r) \<and>
         (\<forall>i < length os. fst (os ! i) = Failed \<longrightarrow> snd (os ! i) = fail) \<and>
         mset (inRadius res) + mset (outOfRadius res) \<subseteq>#
           mset (map (\<lambda>(loc, how, g). entryOf (arith e) (r_pin r) (r_qtyByLoc r) loc g)
                   (filter (\<lambda>(loc, how, g). how \<noteq> Failed \<and> \<not> (lat g = 0 \<and> lng g = 0))
                      (zip (r_locations r) os))) \<and>
         (distinct (map loc_id (r_locations r)) \<longrightarrow>
            (\<forall>i < length os. fst (os ! i) = Failed \<longrightarrow>
               loc_id (r_locations r ! i) \<notin> locationId ` (set (inRadius res) \<union> set (outOfRadius res)))) \<and>
         (\<forall>x \<in> set (inRadius res) \<union> set (outOfRadius res).
            \<not> (lat (coordinates x) = 0 \<and> lng (coordinates x) = 0))"
    by blast
qed

theorem failed_location_excluded_witness:
  "fst (geocodeShopifyLocation (demoEnv None) storeC init) = fail \<and>
   fst (locSettle 8 (demoEnv None) (fst (locStart (demoEnv None) storeC init))
          (snd (locStart (demoEnv None) storeC init))) = Settled Failed fail \<and>
   (\<exists>st'. buildPickupResponse (demoEnv None) demoReq init = Some (Inr demoResult, st')) \<and>
   ''C'' \<notin> locationId ` (set (inRadius demoResult) \<union> set (outOfRadius demoResult))"
proof -
  from demo_run_state obtain st' where
    run: "buildPickupResponse (demoEnv None) demoReq init = Some (Inr demoResult, st')" ..
  note inst = failed_location_excluded
    [where st = init and loc = storeC and e = "demoEnv None" and req = demoReq
       and res = demoResult and st' = st' and m = libm
       and pin = "geocoded (input demoResult)" and q = Map.empty]
  from inst demo_C_fails
  have one: "fst (geocodeShopifyLocation (demoEnv None) storeC init) = fail"
    "fst (locSettle 8 (demoEnv None) (fst (locStart (demoEnv None) storeC init))
          (snd (locStart (demoEnv None) storeC init))) = Settled Failed fail"
    by simp_all
  from inst run obtain r st1 os where
    r: "resolveInputs (demoEnv None) demoReq init = Some (Inr r, st1)" and
    os: "outcomes (fst (fanOut (demoEnv None) (r_locations r) st1)) = Some os" and
    ids: "distinct (map loc_id (r_locations r)) \<longrightarrow>
            (\<forall>i < length os. fst (os ! i) = Failed \<longrightarrow>
               loc_id (r_locations r ! i) \<notin>
                 locationId ` (set (inRadius demoResult) \<union> set (outOfRadius demoResult)))"
    by blast
  from r have locs: "r_locations r = [storeA, storeC]"
    by (auto simp: demo_resolve)
  from r os have o: "os = [(Geocoded, \<lparr>lat = - 34, lng = 151, formatted = ''Sydney NSW 2000''\<rparr>), (Failed, fail)]"
    using demo_fanOut by (auto simp: demo_resolve)
  have "distinct (map loc_id (r_locations r))"
    by (simp add: locs storeA_def storeC_def)
  with ids have "\<forall>i < length os. fst (os ! i) = Failed \<longrightarrow>
               loc_id (r_locations r ! i) \<notin>
                 locationId ` (set (inRadius demoResult) \<union> set (outOfRadius demoResult))"
    by blast
  from this [rule_format, of 1]
  have "loc_id storeC \<notin> locationId ` (set (inRadius demoResult) \<union> set (outOfRadius demoResult))"
    by (simp add: o locs)
  then have "''C'' \<notin> locationId ` (set (inRadius demoResult) \<union> set (outOfRadius demoResult))"
    by (simp add: storeC_def)
  with one run show ?thesis by blast
qed

text \<open>
  C3, as the code has it. \<^verbatim>\<open>geocode\<close> stores only successful resolutions: a failing call
  leaves all three caches as they were, so the query is still not cached and the next
  \<^verbatim>\<open>geocode\<close> of it, whatever the services then answer, makes a live request; a successful
  call stores its point under the key of the trimmed query. \<^verbatim>\<open>geocodeShopifyLocation\<close>
  stores whatever point it returns under the location's key, the point \<open>fail\<close> of a
  failed location included, and the next call for that location returns the stored point
  without any request.
\<close>

theorem geocode_failure_not_cached:
  "(fst (geocode e q st) = Inl err \<longrightarrow>
      geocodeCache (snd (geocode e q st)) = geocodeCache st \<and>
      locationGeoCache (snd (geocode e q st)) = locationGeoCache st \<and>
      shopifyLocationsCache (snd (geocode e q st)) = shopifyLocationsCache st \<and>
      geocodeCache (snd (geocode e q st)) (''geo:'' @ trim q) = None \<and>
      length (calls (snd (geocode e q st))) < length (calls (snd (geocode e' q (snd (geocode e q st)))))) \<and>
   (fst (geocode e q st) = Inr g \<longrightarrow>
      geocodeCache (snd (geocode e q st)) = (geocodeCache st)(''geo:'' @ trim q \<mapsto> g)) \<and>
   locationGeoCache (snd (geocodeShopifyLocation e loc st)) (''loc:'' @ loc_id loc)
     = Some (fst (geocodeShopifyLocation e loc st)) \<and>
   geocodeShopifyLocation e' loc (snd (geocodeShopifyLocation e loc st))
     = (fst (geocodeShopifyLocation e loc st), snd (geocodeShopifyLocation e loc st))"
proof -
  have a: "geocodeCache (snd (geocode e q st)) = geocodeCache st \<and>
      locationGeoCache (snd (geocode e q st)) = locationGeoCache st \<and>
      shopifyLocationsCache (snd (geocode e q st)) = shopifyLocationsCache st \<and>
      geocodeCache (snd (geocode e q st)) (''geo:'' @ trim q) = None \<and>
      length (calls (snd (geocode e q st))) < length (calls (snd (geocode e' q (snd (geocode e q st)))))"
    if "fst (geocode e q st) = Inl err"
  proof -
    from that have "geocode e q st = (Inl err, snd (geocode e q st))"
      by (metis prod.collapse)
    from geocode_error [OF this] have
      c: "geocodeCache (snd (geocode e q st)) = geocodeCache st"
        "locationGeoCache (snd (geocode e q st)) = locationGeoCache st"
        "shopifyLocationsCache (snd (geocode e q st)) = shopifyLocationsCache st"
        "geocodeCache (snd (geocode e q st)) (''geo:'' @ trim q) = None"
      by simp_all
    from geocode_calls_on_miss [OF c(4), of e'] c show ?thesis by simp
  qed
  have b: "geocodeCache (snd (geocode e q st)) = (geocodeCache st)(''geo:'' @ trim q \<mapsto> g)"
    if "fst (geocode e q st) = Inr g"
  proof -
    from that have "geocode e q st = (Inr g, snd (geocode e q st))"
      by (metis prod.collapse)
    from geocode_ok [OF this] show ?thesis by simp
  qed
  have c: "locationGeoCache (snd (geocodeShopifyLocation e loc st)) (''loc:'' @ loc_id loc)
     = Some (fst (geocodeShopifyLocation e loc st))"
    using geocodeShopifyLocation_stores [of e loc st] by (metis prod.collapse)
  from geocodeShopifyLocation_hit [OF c, of e']
  have d: "geocodeShopifyLocation e' loc (snd (geocodeShopifyLocation e loc st))
     = (fst (geocodeShopifyLocation e loc st), snd (geocodeShopifyLocation e loc st))" .
  from a b c d show ?thesis by blast
qed

theorem geocode_failure_not_cached_witness:
  "fst (geocode (demoEnv None) ''3000'' init) = Inl (GeocodeNoResultError ''3000'') \<and>
   geocodeCache (snd (geocode (demoEnv None) ''3000'' init)) = geocodeCache init \<and>
   geocodeCache (snd (geocode (demoEnv None) ''3000'' init)) ''geo:3000'' = None \<and>
   fst (geocode (demoEnv None) ''2000'' init)
     = Inr \<lparr>lat = - 34, lng = 151, formatted = ''Sydney NSW 2000''\<rparr> \<and>
   geocodeCache (snd (geocode (demoEnv None) ''2000'' init)) ''geo:2000''
     = Some \<lparr>lat = - 34, lng = 151, formatted = ''Sydney NSW 2000''\<rparr>"
proof -
  have f: "fst (geocode (demoEnv None) ''3000'' init) = Inl (GeocodeNoResultError ''3000'')"
    and s: "fst (geocode (demoEnv None) ''2000'' init)
              = Inr \<lparr>lat = - 34, lng = 151, formatted = ''Sydney NSW 2000''\<rparr>"
    by (simp_all add: geocode_eval mode_auto init_def)
  have t: "trim ''3000'' = ''3000''" "trim ''2000'' = ''2000''"
    by (simp_all add: trim_def isWhiteSpace_def)
  from geocode_failure_not_cached
    [where e = "demoEnv None" and q = "''3000''" and st = init
       and err = "GeocodeNoResultError ''3000''"] f
  have 1: "geocodeCache (snd (geocode (demoEnv None) ''3000'' init)) = geocodeCache init"
    "geocodeCache (snd (geocode (demoEnv None) ''3000'' init)) ''geo:3000'' = None"
    by (simp_all add: t init_def)
  from geocode_failure_not_cached
    [where e = "demoEnv None" and q = "''2000''" and st = init
       and g = "\<lparr>lat = - 34, lng = 151, formatted = ''Sydney NSW 2000''\<rparr>"] s
  have 2: "geocodeCache (snd (geocode (demoEnv None) ''2000'' init)) ''geo:2000''
     = Some \<lparr>lat = - 34, lng = 151, formatted = ''Sydney NSW 2000''\<rparr>"
    by (simp add: t)
  from f s 1 2 show ?thesis by simp
qed

theorem geocode_failure_not_cached_counterexample:
  "fst (geocode (demoEnv None) (fullAddr storeC) init) = Inl (GeocodeNoResultError ''0000'') \<and>
   fst (geocode (demoEnv None) (the (zipOf storeC)) (snd (geocode (demoEnv None) (fullAddr storeC) init)))
     = Inl (GeocodeNoResultError ''0000'') \<and>
   locationGeoCache init ''loc:C'' = None \<and>
   locationGeoCache (snd (geocodeShopifyLocation (demoEnv None) storeC init)) ''loc:C'' = Some fail \<and>
   geocodeShopifyLocation (demoEnv None) storeC (snd (geocodeShopifyLocation (demoEnv None) storeC init))
     = (fail, snd (geocodeShopifyLocation (demoEnv None) storeC init))"
proof -
  have k: "loc_id storeC = ''C''"
    by (simp add: storeC_def)
  then have i: "''loc:'' @ loc_id storeC = ''loc:C''"
    by simp
  obtain err st1 where
    full: "geocode (demoEnv None) (fullAddr storeC) init = (Inl err, st1)"
    using demo_C_fails(2) by (metis prod.collapse)
  then obtain err2 st2 where
    zip: "geocode (demoEnv None) (the (zipOf storeC)) st1 = (Inl err2, st2)"
    using demo_C_fails(4) by (metis prod.collapse snd_conv)
  from geocodeShopifyLocation_fails [OF demo_C_fails(1) full zip]
  have c: "fst (geocodeShopifyLocation (demoEnv None) storeC init) = fail"
    "locationGeoCache (snd (geocodeShopifyLocation (demoEnv None) storeC init)) ''loc:C'' = Some fail"
    by (simp_all add: k)
  from geocodeShopifyLocation_hit [of _ storeC, unfolded i, OF c(2)]
  have "geocodeShopifyLocation (demoEnv None) storeC (snd (geocodeShopifyLocation (demoEnv None) storeC init))
     = (fail, snd (geocodeShopifyLocation (demoEnv None) storeC init))" .
  with c demo_C_fails k show ?thesis by simp
qed

text \<open>
  C4. \<^verbatim>\<open>buildPickupResponse\<close> fails with an input error, of status 400 and before any call or
  cache access, exactly when the trimmed string of the pincode is not four digits and not
  six digits; an absent pincode is such a case and gives \<^verbatim>\<open>pincode_required\<close>. When the
  trimmed string is four or six digits, the function goes on to geocode the pincode: a
  geocoding error is the function's error, and no later error is an input error.
\<close>

theorem pincode_validation:
  "(\<not> pincodeOk (trim (js_String (numToString e) (pincode req))) \<longrightarrow>
      (\<exists>err. buildPickupResponse e req st = Some (Inl err, st) \<and> invalidInput err \<and>
             httpStatus err = Some 400)) \<and>
   (pincode req = JUndefined \<longrightarrow> buildPickupResponse e req st = Some (Inl PincodeRequired, st)) \<and>
   (pincodeOk (trim (js_String (numToString e) (pincode req))) \<longrightarrow>
      (\<forall>err st1. buildPickupResponse e req st = Some (Inl err, st1) \<longrightarrow> \<not> invalidInput err) \<and>
      (\<forall>err st1. geocode e (js_String (numToString e) (pincode req)) st = (Inl err, st1) \<longrightarrow>
         buildPickupResponse e req st = Some (Inl err, st1))) \<and>
   (pincodeOk s \<longleftrightarrow> list_all isDigit s \<and> (length s = 4 \<or> length s = 6))"
proof -
  have bad: "\<exists>err. buildPickupResponse e req st = Some (Inl err, st) \<and> invalidInput err \<and>
             httpStatus err = Some 400"
    if "\<not> pincodeOk (trim (js_String (numToString e) (pincode req)))"
    using resolveInputs_invalid [OF that, of st] by (simp add: buildPickupResponse_error)
  have absent: "buildPickupResponse e req st = Some (Inl PincodeRequired, st)"
    if "pincode req = JUndefined"
    using that by (simp add: buildPickupResponse_error resolveInputs_def)
  have good: "(\<forall>err st1. buildPickupResponse e req st = Some (Inl err, st1) \<longrightarrow> \<not> invalidInput err) \<and>
      (\<forall>err st1. geocode e (js_String (numToString e) (pincode req)) st = (Inl err, st1) \<longrightarrow>
         buildPickupResponse e req st = Some (Inl err, st1))"
    if ok: "pincodeOk (trim (js_String (numToString e) (pincode req)))"
    using resolveInputs_valid_error [OF ok]
    by (auto simp: buildPickupResponse_error resolveInputs_valid [OF ok])
  have re: "pincodeOk s \<longleftrightarrow> list_all isDigit s \<and> (length s = 4 \<or> length s = 6)"
    by (auto simp: pincodeOk_def is4_def is6_def)
  from bad absent good re show ?thesis by blast
qed

theorem pincode_validation_witness:
  "buildPickupResponse (demoEnv None) (demoReq\<lparr>pincode := JStr ''20a0''\<rparr>) init
     = Some (Inl (InvalidPincodeError (JStr ''20a0'')), init) \<and>
   buildPickupResponse (demoEnv None) (demoReq\<lparr>pincode := JUndefined\<rparr>) init
     = Some (Inl PincodeRequired, init) \<and>
   pincodeOk (trim (js_String (numToString (demoEnv None)) (pincode demoReq))) \<and>
   (\<exists>st'. buildPickupResponse (demoEnv None) demoReq init = Some (Inr demoResult, st')) \<and>
   fst (geocode (demoEnv None) ''3000'' init) = Inl (GeocodeNoResultError ''3000'') \<and>
   map_option fst (buildPickupResponse (demoEnv None) (demoReq\<lparr>pincode := JStr '' 3000 ''\<rparr>) init)
     = Some (Inl (GeocodeNoResultError ''3000''))"
proof -
  let ?bad = "demoReq\<lparr>pincode := JStr ''20a0''\<rparr>"
  let ?far = "demoReq\<lparr>pincode := JStr '' 3000 ''\<rparr>"
  have nb: "\<not> pincodeOk (trim (js_String (numToString (demoEnv None)) (pincode ?bad)))"
    by (simp add: pincodeOk_def is4_def is6_def trim_def isWhiteSpace_def isDigit_def)
  from pincode_validation [where e = "demoEnv None" and req = ?bad and st = init] nb
  obtain err where e: "buildPickupResponse (demoEnv None) ?bad init = Some (Inl err, init)"
    "invalidInput err" by blast
  have "err = InvalidPincodeError (JStr ''20a0'')"
    using e(1) by (simp add: buildPickupResponse_error resolveInputs_def nb [simplified])
  with e have 1: "buildPickupResponse (demoEnv None) ?bad init
     = Some (Inl (InvalidPincodeError (JStr ''20a0'')), init)" by simp
  from pincode_validation [where e = "demoEnv None" and req = "demoReq\<lparr>pincode := JUndefined\<rparr>" and st = init]
  have 2: "buildPickupResponse (demoEnv None) (demoReq\<lparr>pincode := JUndefined\<rparr>) init
     = Some (Inl PincodeRequired, init)" by simp
  have 3: "pincodeOk (trim (js_String (numToString (demoEnv None)) (pincode demoReq)))"
    by (simp add: demoReq_def pincodeOk_def is4_def is6_def trim_def isWhiteSpace_def isDigit_def)
  have okf: "pincodeOk (trim (js_String (numToString (demoEnv None)) (pincode ?far)))"
    by (simp add: pincodeOk_def is4_def is6_def trim_def isWhiteSpace_def isDigit_def)
  have g: "fst (geocode (demoEnv None) '' 3000 '' init) = Inl (GeocodeNoResultError ''3000'')"
    "fst (geocode (demoEnv None) ''3000'' init) = Inl (GeocodeNoResultError ''3000'')"
    by (simp_all add: geocode_eval mode_auto init_def)
  then obtain st1 where
    "geocode (demoEnv None) (js_String (numToString (demoEnv None)) (pincode ?far)) init
       = (Inl (GeocodeNoResultError ''3000''), st1)"
    by (cases "geocode (demoEnv None) '' 3000 '' init") simp
  with pincode_validation [where e = "demoEnv None" and req = ?far and st = init] okf
  have 4: "map_option fst (buildPickupResponse (demoEnv None) ?far init)
     = Some (Inl (GeocodeNoResultError ''3000''))" by simp
  from 1 2 3 4 g demo_run_state show ?thesis by simp
qed

text \<open>
  C5. In mode \<^verbatim>\<open>"osm"\<close>, for a query whose trimmed string is six digits, that is not in the
  cache, and for which Nominatim returns no candidate to the structured search and none
  to the freeform search, \<^verbatim>\<open>geocode\<close> makes exactly these two Nominatim requests in this
  order, makes no Google request, and fails with \<^verbatim>\<open>GeocodeNoResultError\<close> carrying the
  trimmed query, which is the query itself when the query is six digits.
\<close>

theorem geocode_osm_only_no_result:
  assumes "geocoderMode (cfg e) = ''osm''"
    and "is6 (trim q)"
    and "geocodeCache st (''geo:'' @ trim q) = None"
    and "osmFirst (osm e (length (calls st)) (OsmStructured (trim q) ''India'')) = None"
    and "osmFirst (osm e (Suc (length (calls st))) (OsmFreeform (trim q @ '', India'') (Some ''in''))) = None"
  shows "geocode e q st =
           (Inl (GeocodeNoResultError (trim q)),
            st\<lparr>calls := calls st @ [OsmCall (OsmStructured (trim q) ''India''),
                                      OsmCall (OsmFreeform (trim q @ '', India'') (Some ''in''))]\<rparr>) \<and>
         (is6 q \<longrightarrow> trim q = q)"
proof -
  have "is6 q \<longrightarrow> trim q = q"
    by (simp add: is6_def trim_digits)
  moreover have "geocode e q st = osmSteps e (''geo:'' @ trim q) (trim q) st"
    using assms(1,3) by (simp add: geocode_def Let_def)
  ultimately show ?thesis
    using osmSteps_nothing [OF assms(2,4,5)] by simp
qed

theorem geocode_osm_only_no_result_witness:
  "geocode (demoEnv (Some ''osm'')) ''999999'' init =
     (Inl (GeocodeNoResultError ''999999''),
      init\<lparr>calls := [OsmCall (OsmStructured ''999999'' ''India''),
                      OsmCall (OsmFreeform ''999999, India'' (Some ''in''))]\<rparr>)"
proof -
  have t: "trim ''999999'' = ''999999''"
    by (simp add: trim_def isWhiteSpace_def)
  have "geocoderMode (cfg (demoEnv (Some ''osm''))) = ''osm''"
    by (simp add: demoEnv_sel mode_osm)
  moreover have "is6 (trim ''999999'')"
    by (simp add: t is6_def isDigit_def)
  moreover have "geocodeCache init (''geo:'' @ trim ''999999'') = None"
    by (simp add: init_def)
  moreover have "osmFirst (osm (demoEnv (Some ''osm'')) (length (calls init))
                   (OsmStructured (trim ''999999'') ''India'')) = None"
    by (simp add: t demoEnv_sel demoOsm_def osmFirst_def)
  moreover have "osmFirst (osm (demoEnv (Some ''osm'')) (Suc (length (calls init)))
                   (OsmFreeform (trim ''999999'' @ '', India'') (Some ''in''))) = None"
    by (simp add: t demoEnv_sel demoOsm_def osmFirst_def)
  ultimately show ?thesis
    using geocode_osm_only_no_result [of "demoEnv (Some ''osm'')" "''999999''" init]
    by (simp add: t init_def)
qed

text \<open>
  C6, as the code has it. In mode \<^verbatim>\<open>"google"\<close>, for a query that is not in the cache,
  \<^verbatim>\<open>geocode\<close> makes the Google request and nothing else, and what it returns is decided by
  the outcome of that request alone: no Nominatim request is made. When Google answers
  without a usable match (a status other than \<^verbatim>\<open>OK\<close>, or no results), \<^verbatim>\<open>geocode\<close> fails with
  a \<^verbatim>\<open>GeocodeProviderError\<close> for the provider \<^verbatim>\<open>google\<close> whose reason holds the status and,
  when there is one, the error message, and whose metadata hold the trimmed query; no
  cache is written. When the request itself throws, \<^verbatim>\<open>geocode\<close> fails with the exception
  the HTTP client raised, and when the first result has no location, with the
  \<^verbatim>\<open>TypeError\<close>: neither is wrapped in a \<^verbatim>\<open>GeocodeProviderError\<close>. A first result with a
  location is returned and cached.
\<close>

theorem geocode_google_only_failure:
  assumes "geocoderMode (cfg e) = ''google''"
    and "geocodeCache st (''geo:'' @ trim q) = None"
  shows "geocode e q st =
     (case google e (length (calls st)) (googleParams (cfg e) (trim q)) of
        GoogleThrew x \<Rightarrow>
          (Inl (Thrown x), st\<lparr>calls := calls st @ [GoogleCall (googleParams (cfg e) (trim q))]\<rparr>)
      | GoogleData d \<Rightarrow>
          if g_status d = ''OK'' \<and> results d \<noteq> [] then
            (case geometry_location (hd (results d)) of
               None \<Rightarrow>
                 (Inl (Thrown typeError),
                  st\<lparr>calls := calls st @ [GoogleCall (googleParams (cfg e) (trim q))]\<rparr>)
             | Some c \<Rightarrow>
                 (Inr \<lparr>lat = lat c, lng = lng c, formatted = formatted_address (hd (results d))\<rparr>,
                  st\<lparr>calls := calls st @ [GoogleCall (googleParams (cfg e) (trim q))],
                     geocodeCache := (geocodeCache st)(''geo:'' @ trim q \<mapsto>
                       \<lparr>lat = lat c, lng = lng c, formatted = formatted_address (hd (results d))\<rparr>)\<rparr>))
          else
            (Inl (GeocodeProviderError ''google''
                    (''status='' @ g_status d @
                       (case error_message d of None \<Rightarrow> [] | Some m \<Rightarrow> if m = [] then [] else '' - '' @ m))
                    (trim q)),
             st\<lparr>calls := calls st @ [GoogleCall (googleParams (cfg e) (trim q))]\<rparr>))"
  unfolding geocode_google_mode [OF assms]
  by (simp add: googleAnswer_def cacheOk_def Let_def split: google_response.splits option.splits)

theorem geocode_google_only_failure_witness:
  "geocode (demoEnv (Some ''google'')) ''3000'' init
     = (Inl (GeocodeProviderError ''google'' ''status=ZERO_RESULTS'' ''3000''),
        init\<lparr>calls := [GoogleCall (GComponents (Some ''k'') ''postal_code:3000|country:AU'')]\<rparr>) \<and>
   geocode (demoEnv (Some ''google'')) ''Pitt St'' init
     = (Inl (GeocodeProviderError ''google'' ''status=REQUEST_DENIED - bad key'' ''Pitt St''),
        init\<lparr>calls := [GoogleCall (GAddress (Some ''k'') ''Pitt St'' ''in'')]\<rparr>) \<and>
   geocode (demoEnv (Some ''google'')) ''2000'' init
     = (Inl (Thrown econnreset),
        init\<lparr>calls := [GoogleCall (GComponents (Some ''k'') ''postal_code:2000|country:AU'')]\<rparr>)"
proof -
  have m: "geocoderMode (cfg (demoEnv (Some ''google''))) = ''google''"
    by (simp add: demoEnv_sel mode_google)
  have t: "trim ''3000'' = ''3000''" "trim ''Pitt St'' = ''Pitt St''" "trim ''2000'' = ''2000''"
    by (simp_all add: trim_def isWhiteSpace_def)
  have c: "geocodeCache init (''geo:'' @ trim ''3000'') = None"
    "geocodeCache init (''geo:'' @ trim ''Pitt St'') = None"
    "geocodeCache init (''geo:'' @ trim ''2000'') = None"
    by (simp_all add: init_def)
  from geocode_google_only_failure [OF m c(1)] geocode_google_only_failure [OF m c(2)]
    geocode_google_only_failure [OF m c(3)]
  show ?thesis
    by (simp add: t googleParams_def is6_def is4_def isDigit_def demoEnv_sel demoGoogle_def init_def)
qed

theorem geocode_google_only_failure_counterexample:
  "fst (geocode (demoEnv (Some ''google'')) ''2000'' init) = Inl (Thrown econnreset) \<and>
   code (Thrown econnreset) = Some ''ECONNRESET'' \<and>
   httpStatus (Thrown econnreset) = None \<and>
   code (GeocodeProviderError ''google'' ''status=ZERO_RESULTS'' ''2000'') = Some ''geocode_provider_error''"
  by (simp add: geocode_eval mode_google init_def econnreset_def)

text \<open>
  C7. In every entry of a response, \<open>available\<close> is the inventory map's value for the
  location, \<open>status\<close> is \<^verbatim>\<open>"unknown"\<close> exactly when \<open>available\<close> is null, \<^verbatim>\<open>"instock"\<close> exactly
  when it is a quantity above 0 and \<^verbatim>\<open>"outofstock"\<close> exactly when it is a quantity of 0 or
  less; without a variant the map is empty, so every entry is \<^verbatim>\<open>"unknown"\<close>.
\<close>

theorem status_follows_available:
  assumes "buildPickupResponse e req st = Some (Inr res, st')"
  shows "\<exists>r st1. resolveInputs e req st = Some (Inr r, st1) \<and>
           (\<not> truthy (variantId req) \<longrightarrow> r_qtyByLoc r = Map.empty) \<and>
           (\<forall>x \<in> set (inRadius res) \<union> set (outOfRadius res).
              available x = r_qtyByLoc r (locationId x) \<and>
              (\<not> truthy (variantId req) \<longrightarrow> available x = None \<and> status x = ''unknown'') \<and>
              (status x = ''unknown'' \<longleftrightarrow> available x = None) \<and>
              (status x = ''instock'' \<longleftrightarrow> (\<exists>n. available x = Some n \<and> 0 < n)) \<and>
              (status x = ''outofstock'' \<longleftrightarrow> (\<exists>n. available x = Some n \<and> n \<le> 0)))"
proof -
  from buildPickupResponse_ok [OF assms] obtain r st1 es where
    r: "resolveInputs e req st = Some (Inr r, st1)" and
    en: "enrichedOf e r st1 = Some (es, st')" and
    res: "res = assemble req r es"
    by blast
  from resolveInputs_ok [OF r] have
    empty: "\<not> truthy (variantId req) \<Longrightarrow> r_qtyByLoc r = Map.empty"
    by simp
  have "available x = r_qtyByLoc r (locationId x) \<and>
        (\<not> truthy (variantId req) \<longrightarrow> available x = None \<and> status x = ''unknown'') \<and>
        (status x = ''unknown'' \<longleftrightarrow> available x = None) \<and>
        (status x = ''instock'' \<longleftrightarrow> (\<exists>n. available x = Some n \<and> 0 < n)) \<and>
        (status x = ''outofstock'' \<longleftrightarrow> (\<exists>n. available x = Some n \<and> n \<le> 0))"
    if "x \<in> set (inRadius res) \<union> set (outOfRadius res)" for x
  proof -
    from that have "x \<in> set es"
      unfolding res by (rule assemble_member)
    from enrichedOf_member [OF en this] obtain l g where
      "x = entryOf (arith e) (r_pin r) (r_qtyByLoc r) l g"
      by blast
    then have av: "available x = r_qtyByLoc r (locationId x)" and s: "status x = statusOf (available x)"
      by (simp_all add: entryOf_fields)
    from av empty have "\<not> truthy (variantId req) \<Longrightarrow> available x = None" by simp
    with av s statusOf_cases [of "available x"] show ?thesis by (auto simp: statusOf_def)
  qed
  with r empty show ?thesis by blast
qed

theorem status_follows_available_witness:
  "\<exists>r st1. resolveInputs (demoEnv None) demoReq init = Some (Inr r, st1) \<and>
     (\<not> truthy (variantId demoReq) \<longrightarrow> r_qtyByLoc r = Map.empty) \<and>
     (\<forall>x \<in> set (inRadius demoResult) \<union> set (outOfRadius demoResult).
        available x = r_qtyByLoc r (locationId x) \<and>
        (\<not> truthy (variantId demoReq) \<longrightarrow> available x = None \<and> status x = ''unknown'') \<and>
        (status x = ''unknown'' \<longleftrightarrow> available x = None) \<and>
        (status x = ''instock'' \<longleftrightarrow> (\<exists>n. available x = Some n \<and> 0 < n)) \<and>
        (status x = ''outofstock'' \<longleftrightarrow> (\<exists>n. available x = Some n \<and> n \<le> 0)))"
proof -
  from demo_run_state obtain st' where
    run: "buildPickupResponse (demoEnv None) demoReq init = Some (Inr demoResult, st')" ..
  from status_follows_available [OF run] show ?thesis .
qed

text \<open>
  C8. When the location list of the shop is not cached and the server serves the pages
  \<open>ps\<close>, \<^verbatim>\<open>fetchShopifyLocations\<close> asks for pages of up to 100 edges, the first from the
  start and each next one after the cursor of the last edge of the page before, and
  returns and caches the nodes of all these pages that are active, in order: a node is
  returned exactly when it is on one of the pages and \<open>isActive\<close>, whatever its
  \<open>fulfillsOnlineOrders\<close>. Whatever the server does, every location of a fetched list is
  active.
\<close>

theorem fetchShopifyLocations_active_of_all_pages:
  "(shopifyLocationsCache st (''locations:'' @ shopName) = None \<and>
    serves e (length (calls st)) None ps \<longrightarrow>
      fetchShopifyLocations e shopName st =
        Some (Inr (activeNodes ps),
              st\<lparr>calls := calls st @ map (GqlLocations 100) (cursorsOf None ps),
                 shopifyLocationsCache :=
                   (shopifyLocationsCache st)(''locations:'' @ shopName \<mapsto> activeNodes ps)\<rparr>) \<and>
      (\<forall>l. l \<in> set (activeNodes ps) \<longleftrightarrow>
             isActive l \<and> (\<exists>p \<in> set ps. \<exists>ed \<in> set (edges p). node ed = l))) \<and>
   (shopifyLocationsCache st (''locations:'' @ shopName) = None \<and>
    fetchShopifyLocations e shopName st = Some (Inr locs, st') \<longrightarrow>
      (\<forall>l \<in> set locs. isActive l))"
proof (rule conjI; rule impI)
  assume a: "shopifyLocationsCache st (''locations:'' @ shopName) = None \<and>
    serves e (length (calls st)) None ps"
  from fetchLoop_serves [of e st None ps "[]"] a
  have "fetchLoop e None [] st =
          Some (Inr (activeNodes ps), st\<lparr>calls := calls st @ map (GqlLocations 100) (cursorsOf None ps)\<rparr>)"
    by simp
  with a have "fetchShopifyLocations e shopName st =
        Some (Inr (activeNodes ps),
              st\<lparr>calls := calls st @ map (GqlLocations 100) (cursorsOf None ps),
                 shopifyLocationsCache :=
                   (shopifyLocationsCache st)(''locations:'' @ shopName \<mapsto> activeNodes ps)\<rparr>)"
    by (simp add: fetchShopifyLocations_def)
  moreover have "\<forall>l. l \<in> set (activeNodes ps) \<longleftrightarrow>
             isActive l \<and> (\<exists>p \<in> set ps. \<exists>ed \<in> set (edges p). node ed = l)"
    by (auto simp: activeNodes_def)
  ultimately show "fetchShopifyLocations e shopName st =
        Some (Inr (activeNodes ps),
              st\<lparr>calls := calls st @ map (GqlLocations 100) (cursorsOf None ps),
                 shopifyLocationsCache :=
                   (shopifyLocationsCache st)(''locations:'' @ shopName \<mapsto> activeNodes ps)\<rparr>) \<and>
      (\<forall>l. l \<in> set (activeNodes ps) \<longleftrightarrow>
             isActive l \<and> (\<exists>p \<in> set ps. \<exists>ed \<in> set (edges p). node ed = l))"
    by simp
next
  assume b: "shopifyLocationsCache st (''locations:'' @ shopName) = None \<and>
    fetchShopifyLocations e shopName st = Some (Inr locs, st')"
  then obtain st0 where "fetchLoop e None [] st = Some (Inr locs, st0)"
    by (auto simp: fetchShopifyLocations_def Let_def split: option.splits sum.splits prod.splits)
  from fetchLoop_result [OF this] show "\<forall>l \<in> set locs. isActive l"
    by simp
qed

theorem fetchShopifyLocations_active_of_all_pages_witness:
  "serves (demoEnv None) (length (calls init)) None [page1, page2] \<and>
   map_option fst (fetchShopifyLocations (demoEnv None) ''demo'' init) = Some (Inr [storeA, storeC]) \<and>
   isActive storeA \<and> \<not> fulfillsOnlineOrders storeA \<and> \<not> isActive storeB \<and>
   map node (edges page1 @ edges page2) = [storeA, storeB, storeC] \<and>
   map_option (calls \<circ> snd) (fetchShopifyLocations (demoEnv None) ''demo'' init)
     = Some [GqlLocations 100 None, GqlLocations 100 (Some ''c2'')]"
proof -
  have s: "serves (demoEnv None) (length (calls init)) None [page1, page2]"
    by (simp add: demoEnv_sel demoLocations_def page1_def page2_def nextCursor_def init_def)
  have m: "shopifyLocationsCache init (''locations:'' @ ''demo'') = None"
    by (simp add: init_def)
  have n: "activeNodes [page1, page2] = [storeA, storeC]"
    by (simp add: activeNodes_def page1_def page2_def storeA_def storeB_def storeC_def)
  have c: "nextCursor page1 = Some ''c2''"
    by (simp add: nextCursor_def page1_def)
  from fetchShopifyLocations_active_of_all_pages
    [where st = init and shopName = "''demo''" and e = "demoEnv None" and ps = "[page1, page2]"]
    s m
  have "fetchShopifyLocations (demoEnv None) ''demo'' init =
        Some (Inr [storeA, storeC],
              init\<lparr>calls := calls init @ map (GqlLocations 100) [None, Some ''c2''],
                   shopifyLocationsCache :=
                     (shopifyLocationsCache init)(''locations:'' @ ''demo'' \<mapsto> [storeA, storeC])\<rparr>)"
    by (simp add: n c)
  then have "map_option fst (fetchShopifyLocations (demoEnv None) ''demo'' init) = Some (Inr [storeA, storeC])"
    "map_option (calls \<circ> snd) (fetchShopifyLocations (demoEnv None) ''demo'' init)
     = Some [GqlLocations 100 None, GqlLocations 100 (Some ''c2'')]"
    by (simp_all add: init_def)
  with s show ?thesis
    by (simp add: page1_def page2_def storeA_def storeB_def)
qed




text \<open>
  C10. \<open>numberOr a fb\<close> is \<^verbatim>\<open>Number(a)\<close> when that is finite and \<open>fb\<close> otherwise. So the
  effective radius of a response is \<^verbatim>\<open>Number(radiusKm)\<close> whenever that is finite: 0 for
  null, for the empty string and for \<^verbatim>\<open>false\<close>, 1 for \<^verbatim>\<open>true\<close>. The configured default, or 100
  when the default is not a finite number, is used only when \<^verbatim>\<open>Number(radiusKm)\<close> is not
  finite, as for an absent radius, the string \<^verbatim>\<open>"abc"\<close>, or the string \<^verbatim>\<open>"1e309"\<close>, whose
  value is beyond the largest double.
\<close>

theorem numberOr_effective_radius:
  "numberOr a fb = (case Number a of Fin r \<Rightarrow> r | _ \<Rightarrow> fb) \<and>
   Number JNull = Fin 0 \<and> Number (JStr []) = Fin 0 \<and> Number (JBool False) = Fin 0 \<and>
   Number (JBool True) = Fin 1 \<and> Number JUndefined = NaN \<and> Number (JStr ''abc'') = NaN \<and>
   Number (JStr ''1e309'') = PInf \<and> Number (JStr ''25.5'') = Fin (51 / 2) \<and>
   Number (JStr ''9007199254740993'') = Fin 9007199254740992 \<and>
   (buildPickupResponse e req st = Some (Inr res, st') \<longrightarrow>
      (isFinite (Number (radiusKm req)) \<longrightarrow> Fin (in_radiusKm (input res)) = Number (radiusKm req)) \<and>
      (\<not> isFinite (Number (radiusKm req)) \<longrightarrow>
         in_radiusKm (input res) =
           (case StringToNumber (defaultRadiusKm (cfg e)) of Fin d \<Rightarrow> d | _ \<Rightarrow> 100)) \<and>
      (radiusKm req = JNull \<or> radiusKm req = JStr [] \<or> radiusKm req = JBool False
         \<longrightarrow> in_radiusKm (input res) = 0) \<and>
      (radiusKm req = JBool True \<longrightarrow> in_radiusKm (input res) = 1))"
proof -
  have abc: "Number (JStr ''abc'') = NaN"
    by (simp add: StringToNumber_def trim_def isWhiteSpace_def parseUnsignedDecimal_def isDigit_def)
  have big: "Number (JStr ''1e309'') = PInf"
    by (simp add: StringToNumber_def trim_def isWhiteSpace_def parseUnsignedDecimal_def isDigit_def
        parseExponent_def digitsVal_def digitVal_def scale10_def fl_def)
  have "fl (51 / 2) = Fin (51 / 2)"
    by (rule fl_eval [where e = 4 and n = 7177611906121728])
       (simp_all add: rne_def Let_def power_int_minus)
  then have frac: "Number (JStr ''25.5'') = Fin (51 / 2)"
    by (simp add: StringToNumber_def trim_def isWhiteSpace_def parseUnsignedDecimal_def isDigit_def
        parseExponent_def digitsVal_def digitVal_def scale10_def)
  have "fl 9007199254740993 = Fin 9007199254740992"
    by (rule fl_eval [where e = 53 and n = 4503599627370496])
       (simp_all add: rne_def Let_def power_int_minus)
  then have odd: "Number (JStr ''9007199254740993'') = Fin 9007199254740992"
    by (simp add: StringToNumber_def trim_def isWhiteSpace_def parseUnsignedDecimal_def isDigit_def
        parseExponent_def digitsVal_def digitVal_def scale10_def)
  have run: "(isFinite (Number (radiusKm req)) \<longrightarrow> Fin (in_radiusKm (input res)) = Number (radiusKm req)) \<and>
      (\<not> isFinite (Number (radiusKm req)) \<longrightarrow>
         in_radiusKm (input res) =
           (case StringToNumber (defaultRadiusKm (cfg e)) of Fin d \<Rightarrow> d | _ \<Rightarrow> 100)) \<and>
      (radiusKm req = JNull \<or> radiusKm req = JStr [] \<or> radiusKm req = JBool False
         \<longrightarrow> in_radiusKm (input res) = 0) \<and>
      (radiusKm req = JBool True \<longrightarrow> in_radiusKm (input res) = 1)"
    if b: "buildPickupResponse e req st = Some (Inr res, st')"
  proof -
    from buildPickupResponse_ok [OF b] obtain r st1 es where
      r: "resolveInputs e req st = Some (Inr r, st1)" and
      res: "res = assemble req r es"
      by blast
    from resolveInputs_ok [OF r] have
      "in_radiusKm (input res) = numberOr (radiusKm req) (numberOr (JStr (defaultRadiusKm (cfg e))) 100)"
      by (simp add: res assemble_lists)
    then have R: "in_radiusKm (input res) =
        (case Number (radiusKm req) of
           Fin x \<Rightarrow> x
         | _ \<Rightarrow> (case StringToNumber (defaultRadiusKm (cfg e)) of Fin d \<Rightarrow> d | _ \<Rightarrow> 100))"
      by (simp add: numberOr_cases)
    show ?thesis
      unfolding R by (cases "Number (radiusKm req)") (auto simp: StringToNumber_empty)
  qed
  from abc big frac odd run show ?thesis
    by (simp add: numberOr_cases StringToNumber_empty)
qed

theorem numberOr_effective_radius_witness:
  "(\<exists>st'. buildPickupResponse (demoEnv None) demoReq init = Some (Inr demoResult, st')) \<and>
   radiusKm demoReq = JNull \<and> in_radiusKm (input demoResult) = 0 \<and>
   DEFAULT_RADIUS_KM (cfg (demoEnv None)) = None"
proof -
  from demo_run_state obtain st' where
    run: "buildPickupResponse (demoEnv None) demoReq init = Some (Inr demoResult, st')" ..
  have n: "radiusKm demoReq = JNull" by (simp add: demoReq_def)
  from numberOr_effective_radius
    [where e = "demoEnv None" and req = demoReq and st = init and res = demoResult and st' = st']
    run n
  have "in_radiusKm (input demoResult) = 0" by simp
  with run n show ?thesis by (auto simp: demoEnv_sel)
qed

end
